theory Spec2Isabelle
  imports Main "HOL-Library.Word"
begin

section \<open>The PWM LED driver (drivers/leds/leds-pwm.c)\<close>

subsection \<open>Machine integers\<close>

text \<open>
  \<open>unsigned int\<close> is a 32-bit word, read with \<open>unat\<close>; \<open>int\<close> is a 32-bit word
  too, read as two's complement with \<open>sint\<close>; \<open>unsigned long long\<close> is a 64-bit
  word. A conversion between them keeps the low bits (\<open>ucast\<close>), as the kernel's
  compiler does.
\<close>

type_synonym u32 = "32 word"
type_synonym s32 = "32 word"
type_synonym u64 = "64 word"

subsection \<open>Data\<close>

text \<open>
  A \<open>struct pwm_device *\<close> is its value read as a \<open>long\<close>: 0 is the null pointer, the
  values from \<open>-MAX_ERRNO\<close> to -1 are the error pointers \<open>ERR_PTR(errno)\<close>, every other
  value is a channel.
\<close>

type_synonym pwm_ptr = int

definition MAX_ERRNO :: int where
  "MAX_ERRNO = 4095"

definition IS_ERR :: "pwm_ptr \<Rightarrow> bool" where
  "IS_ERR p = (- MAX_ERRNO \<le> p \<and> p < 0)"

definition PTR_ERR :: "pwm_ptr \<Rightarrow> int" where
  "PTR_ERR p = p"

definition EPROBE_DEFER :: int where
  "EPROBE_DEFER = 517"

definition EINVAL :: int where
  "EINVAL = 22"

definition ENOMEM :: int where
  "ENOMEM = 12"

definition LED_OFF :: u32 where
  "LED_OFF = 0"

datatype led_flag = LED_CORE_SUSPENDRESUME | LED_MULTI_COLOR_LED

text \<open>
  Modelled from the spec: \<open>struct led_color_element\<close> is declared in linux/leds.h, which
  is not part of the sources at hand. The driver reads and writes the four fields below;
  \<open>led_pwm_set\<close> loads \<open>raw_value\<close> and \<open>max_value\<close> into \<open>unsigned int\<close> locals.
\<close>

record led_color_element =
  ce_name :: string
  ce_value :: u32
  ce_max_value :: u32
  ce_raw_value :: u32

text \<open>
  The fields of \<open>struct led_classdev\<close> that the driver touches. \<open>color_elements\<close> is the
  array of \<open>num_color_elements\<close> entries, as a list whose length is that count.
  \<open>brightness_set_blocking\<close> tells whether the callback has been set to \<open>led_pwm_set\<close>.
\<close>

record led_classdev =
  cd_name :: string
  default_trigger :: "string option"
  brightness :: u32
  max_brightness :: u32
  flags :: "led_flag list"
  color_elements :: "led_color_element list"
  brightness_set_blocking :: bool

record led_element_pwm =
  element_index :: s32
  pwm :: pwm_ptr
  active_low :: u32
  period :: u32
  duty :: s32

text \<open>\<open>elements\<close> is the array of \<open>num_elements\<close> entries, as a list of that length.\<close>

record led_pwm_data =
  cdev :: led_classdev
  elements :: "led_element_pwm list"

text \<open>
  \<open>leds\<close> is the trailing array, allocated zeroed for the number of LEDs counted by
  \<open>led_pwm_probe\<close>; \<open>num_leds\<close> counts the entries registered so far.
\<close>

record led_pwm_priv =
  num_leds :: int
  leds :: "led_pwm_data list"

text \<open>
  Modelled from the spec: \<open>struct led_pwm\<close>, the description of one LED, is declared in
  linux/leds_pwm.h, which is not part of the sources at hand. These are the fields the
  driver reads, \<open>pwm_period_ns\<close> being the caller-supplied fallback period.
\<close>

record led_pwm =
  lp_name :: string
  lp_default_trigger :: "string option"
  lp_active_low :: u32
  lp_max_brightness :: u32
  lp_pwm_period_ns :: u32

text \<open>
  A node of the hardware description tree, with what the driver asks of it: its name,
  the properties \<open>label\<close>, \<open>linux,default-trigger\<close>, \<open>max-brightness\<close> and \<open>active-low\<close>,
  and its children in order.
\<close>

datatype device_node =
  Device_node (dn_name: string) (dn_label: "string option") (dn_trigger: "string option")
    (dn_max_brightness: "u32 option") (dn_active_low: bool) (dn_children: "device_node list")

text \<open>
  A platform device: its platform data (the array \<open>leds\<close> of \<open>num_leds\<close> descriptions, as a
  list of that length) when there is one, and its node of the description tree.
\<close>

record platform_device =
  pd_platdata :: "led_pwm list option"
  pd_of_node :: "device_node option"

text \<open>Memory as \<open>devm_kzalloc\<close> hands it out: every field zero.\<close>

definition zero_color_element :: led_color_element where
  "zero_color_element = \<lparr>ce_name = [], ce_value = 0, ce_max_value = 0, ce_raw_value = 0\<rparr>"

definition zero_classdev :: led_classdev where
  "zero_classdev = \<lparr>cd_name = [], default_trigger = None, brightness = 0,
     max_brightness = 0, flags = [], color_elements = [], brightness_set_blocking = False\<rparr>"

definition zero_element :: led_element_pwm where
  "zero_element = \<lparr>element_index = 0, pwm = 0, active_low = 0, period = 0, duty = 0\<rparr>"

definition zero_led_pwm_data :: led_pwm_data where
  "zero_led_pwm_data = \<lparr>cdev = zero_classdev, elements = []\<rparr>"

definition zero_led_pwm :: led_pwm where
  "zero_led_pwm = \<lparr>lp_name = [], lp_default_trigger = None, lp_active_low = 0,
     lp_max_brightness = 0, lp_pwm_period_ns = 0\<rparr>"

subsection \<open>The environment\<close>

text \<open>
  Every call that leaves the file is recorded, with its arguments and with what it gave
  back, in a trace. The collaborators themselves are not part of the sources at hand:
  each is a parameter, a function of the trace so far and of the call's arguments, so
  that a collaborator may answer differently each time it is called.
\<close>

datatype pwm_call =
    Pwm_config pwm_ptr s32 u32
  | Pwm_enable pwm_ptr
  | Pwm_disable pwm_ptr

datatype pwm_request = Pwm_get string | Of_pwm_get device_node

datatype err_msg = Unable_to_request_PWM | Failed_to_register_PWM_led

text \<open>
  The events: \<open>led_scale_color_elements\<close> with the brightness passed; a call of
  \<open>pwm_config\<close>, \<open>pwm_enable\<close> or \<open>pwm_disable\<close> with what it reported; \<open>devm_pwm_get\<close> or
  \<open>devm_of_pwm_get\<close> with the pointer returned; \<open>pwm_apply_args\<close>; \<open>pwm_get_args\<close> with the
  period read; \<open>led_color_element_setup_of\<close> with the element's index and the result;
  \<open>led_classdev_register\<close> and \<open>led_classdev_unregister\<close> with the index of the entry of
  \<open>priv->leds\<close> whose \<open>cdev\<close> is passed; \<open>dev_err\<close> with the LED's name and the error.
  \<open>Ev_pwm_put\<close> is the release of a channel (\<open>pwm_put\<close>, \<open>devm_pwm_put\<close>). No function of
  the driver makes that call: the channels are requested with \<open>devm_pwm_get\<close> and
  \<open>devm_of_pwm_get\<close>, and it is the device-managed framework that releases them, once a
  failed \<open>led_pwm_probe\<close> has returned or the device is gone.
\<close>

datatype event =
    Ev_scale u32
  | Ev_pwm pwm_call int
  | Ev_pwm_get pwm_request pwm_ptr
  | Ev_pwm_apply_args pwm_ptr
  | Ev_pwm_get_args pwm_ptr u32
  | Ev_color_element_setup_of u32 int
  | Ev_register nat int
  | Ev_unregister nat
  | Ev_dev_err err_msg string int
  | Ev_pwm_put pwm_ptr

text \<open>
  Modelled from the spec: the collaborators (section 6). The color-scaling collaborator
  and the registration collaborator receive the \<open>led_classdev\<close> by pointer, so each gives
  back the structure as it leaves it. \<open>e_kzalloc_priv\<close> tells whether the allocation of
  \<open>priv\<close> succeeds. The allocations whose result the driver does not check are taken to
  succeed.
\<close>

record env =
  e_scale :: "event list \<Rightarrow> led_classdev \<Rightarrow> u32 \<Rightarrow> led_classdev"
  e_pwm :: "event list \<Rightarrow> pwm_call \<Rightarrow> int"
  e_pwm_get :: "event list \<Rightarrow> pwm_request \<Rightarrow> pwm_ptr"
  e_pwm_get_args :: "event list \<Rightarrow> pwm_ptr \<Rightarrow> u32"
  e_color_element_setup_of ::
    "event list \<Rightarrow> led_classdev \<Rightarrow> u32 \<Rightarrow> device_node \<Rightarrow> int \<times> led_classdev"
  e_register :: "event list \<Rightarrow> led_classdev \<Rightarrow> int \<times> led_classdev"
  e_kzalloc_priv :: "event list \<Rightarrow> int \<Rightarrow> bool"

definition call_pwm :: "env \<Rightarrow> pwm_call \<Rightarrow> event list \<Rightarrow> event list" where
  "call_pwm E c w = w @ [Ev_pwm c (e_pwm E w c)]"

subsection \<open>Undefined behaviour\<close>

text \<open>
  Two steps of the driver have no defined result in C: \<open>do_div\<close> with a zero divisor,
  and an array read or written past its end. The model stops there and says which of
  the two was executed. Neither is an error code of the driver.
\<close>

datatype undefined_behaviour = Division_by_zero_executed | Index_out_of_bounds

subsection \<open>Brightness set\<close>

text \<open>
  \<open>do_div(n, base)\<close> divides the 64-bit \<open>n\<close> by the 32-bit \<open>base\<close> and leaves the
  quotient in \<open>n\<close>; \<open>None\<close> is the division by zero.
\<close>

definition do_div :: "u64 \<Rightarrow> u32 \<Rightarrow> u64 option" where
  "do_div n base = (if base = 0 then None else Some (n div ucast base))"

text \<open>Lines 83 to 86: \<open>duty = period; duty *= raw_value; do_div(duty, max_value)\<close>.\<close>

definition duty_scaled :: "u32 \<Rightarrow> u32 \<Rightarrow> u32 \<Rightarrow> u64 option" where
  "duty_scaled per raw_value max_value =
     (let d = (ucast per :: u64);
          d = d * ucast raw_value
      in do_div d max_value)"

text \<open>Lines 83 to 89: the scaled duty, inverted for an active-low element.\<close>

definition duty_computed :: "led_element_pwm \<Rightarrow> u32 \<Rightarrow> u32 \<Rightarrow> u64 option" where
  "duty_computed elem_pwm raw_value max_value =
     (case duty_scaled (period elem_pwm) raw_value max_value of
        None \<Rightarrow> None
      | Some d \<Rightarrow>
          Some (if active_low elem_pwm \<noteq> 0 then ucast (period elem_pwm) - d else d))"

text \<open>\<open>__led_element_pwm_set\<close>: what the calls give back is dropped.\<close>

definition led_element_pwm_set :: "env \<Rightarrow> led_element_pwm \<Rightarrow> event list \<Rightarrow> event list" where
  "led_element_pwm_set E elem_pwm w =
     (let new_duty = duty elem_pwm;
          w = call_pwm E (Pwm_config (pwm elem_pwm) new_duty (period elem_pwm)) w
      in if new_duty = 0 then call_pwm E (Pwm_disable (pwm elem_pwm)) w
         else call_pwm E (Pwm_enable (pwm elem_pwm)) w)"

text \<open>The body of the loop of \<open>led_pwm_set\<close> for one element (lines 71 to 93).\<close>

definition led_pwm_set_element ::
  "env \<Rightarrow> led_color_element list \<Rightarrow> led_element_pwm \<Rightarrow> event list
     \<Rightarrow> undefined_behaviour + led_element_pwm \<times> event list" where
  "led_pwm_set_element E ces elem_pwm w =
     (if sint (element_index elem_pwm) < 0 then Inr (elem_pwm, w)
      else if length ces \<le> nat (sint (element_index elem_pwm)) then Inl Index_out_of_bounds
      else
        let color_element = ces ! nat (sint (element_index elem_pwm)) in
        case duty_computed elem_pwm (ce_raw_value color_element) (ce_max_value color_element) of
          None \<Rightarrow> Inl Division_by_zero_executed
        | Some d \<Rightarrow>
            let elem_pwm = elem_pwm\<lparr>duty := ucast d\<rparr>
            in Inr (elem_pwm, led_element_pwm_set E elem_pwm w))"

text \<open>The loop over \<open>elements[0 .. num_elements - 1]\<close>.\<close>

fun led_pwm_set_elements ::
  "env \<Rightarrow> led_color_element list \<Rightarrow> led_element_pwm list \<Rightarrow> event list
     \<Rightarrow> undefined_behaviour + led_element_pwm list \<times> event list" where
  "led_pwm_set_elements E ces [] w = Inr ([], w)"
| "led_pwm_set_elements E ces (elem_pwm # rest) w =
     (case led_pwm_set_element E ces elem_pwm w of
        Inl u \<Rightarrow> Inl u
      | Inr (elem_pwm', w') \<Rightarrow>
          (case led_pwm_set_elements E ces rest w' of
             Inl u \<Rightarrow> Inl u
           | Inr (rest', w'') \<Rightarrow> Inr (elem_pwm' # rest', w'')))"

text \<open>
  \<open>led_pwm_set\<close>: the value returned, the device as the call leaves it, and the trace.
\<close>

definition led_pwm_set ::
  "env \<Rightarrow> led_pwm_data \<Rightarrow> u32 \<Rightarrow> event list
     \<Rightarrow> undefined_behaviour + int \<times> led_pwm_data \<times> event list" where
  "led_pwm_set E led_dat b w =
     (let led_cdev = e_scale E w (cdev led_dat) b;
          w = w @ [Ev_scale b]
      in case led_pwm_set_elements E (color_elements led_cdev) (elements led_dat) w of
           Inl u \<Rightarrow> Inl u
         | Inr (elems, w') \<Rightarrow> Inr (0, led_dat\<lparr>cdev := led_cdev, elements := elems\<rparr>, w'))"

subsection \<open>Teardown\<close>

text \<open>\<open>led_pwm_data_cleanup\<close> unregisters the device of one entry of \<open>priv->leds\<close>.\<close>

definition led_pwm_data_cleanup :: "nat \<Rightarrow> event list \<Rightarrow> event list" where
  "led_pwm_data_cleanup slot w = w @ [Ev_unregister slot]"

text \<open>
  \<open>led_pwm_cleanup\<close>: \<open>while (priv->num_leds--)\<close> tests the old count, leaves the count
  one lower, and the body works on the entry at the new count.
\<close>

function led_pwm_cleanup ::
  "led_pwm_priv \<Rightarrow> event list \<Rightarrow> undefined_behaviour + led_pwm_priv \<times> event list" where
  "led_pwm_cleanup priv w =
     (let n = num_leds priv;
          priv = priv\<lparr>num_leds := n - 1\<rparr>
      in if n = 0 then Inr (priv, w)
         else if num_leds priv < 0 \<or> int (length (leds priv)) \<le> num_leds priv
           then Inl Index_out_of_bounds
         else led_pwm_cleanup priv (led_pwm_data_cleanup (nat (num_leds priv)) w))"
  by pat_completeness auto
termination
  by (relation "measure (\<lambda>(priv, w). nat (num_leds priv))") auto

declare led_pwm_cleanup.simps [simp del]

subsection \<open>Construction\<close>

text \<open>Writing the entry \<open>priv->leds[slot]\<close> back.\<close>

definition store_led :: "led_pwm_priv \<Rightarrow> nat \<Rightarrow> led_pwm_data \<Rightarrow> led_pwm_priv" where
  "store_led priv slot led_data = priv\<lparr>leds := (leds priv)[slot := led_data]\<rparr>"

text \<open>
  The request of a channel (lines 150 to 160 and 238 to 247): the pointer returned, and
  the trace, with the \<open>dev_err\<close> of an error pointer other than \<open>-EPROBE_DEFER\<close>.
\<close>

definition request_pwm ::
  "env \<Rightarrow> led_pwm \<Rightarrow> pwm_request \<Rightarrow> event list \<Rightarrow> pwm_ptr \<times> event list" where
  "request_pwm E led req w =
     (let p = e_pwm_get E w req;
          w = w @ [Ev_pwm_get req p]
      in if IS_ERR p then
           (let ret = PTR_ERR p
            in if ret \<noteq> - EPROBE_DEFER
               then (p, w @ [Ev_dev_err Unable_to_request_PWM (lp_name led) ret])
               else (p, w))
         else (p, w))"

text \<open>
  \<open>pwm_apply_args\<close> and \<open>pwm_get_args\<close> (lines 168 to 170 and 253 to 255): the period of
  the channel's arguments.
\<close>

definition read_pwm_args :: "env \<Rightarrow> pwm_ptr \<Rightarrow> event list \<Rightarrow> u32 \<times> event list" where
  "read_pwm_args E p w =
     (let w = w @ [Ev_pwm_apply_args p];
          pargs_period = e_pwm_get_args E w p
      in (pargs_period, w @ [Ev_pwm_get_args p pargs_period]))"

text \<open>
  Registration and the first brightness set (lines 176 to 191 and 265 to 274).
  \<open>single\<close> tells whether the range of the one color element is set in between, as
  \<open>led_pwm_add_single\<close> does on lines 180 to 183.
\<close>

definition register_led ::
  "env \<Rightarrow> bool \<Rightarrow> led_pwm_priv \<Rightarrow> led_pwm \<Rightarrow> led_pwm_data \<Rightarrow> event list
     \<Rightarrow> undefined_behaviour + int \<times> led_pwm_priv \<times> event list" where
  "register_led E single priv led led_data w =
     (let slot = nat (num_leds priv);
          (ret, led_cdev) = e_register E w (cdev led_data);
          w = w @ [Ev_register slot ret];
          led_data = led_data\<lparr>cdev := led_cdev\<rparr>
      in if ret = 0 then
           (let priv = priv\<lparr>num_leds := num_leds priv + 1\<rparr>
            in if single \<and> color_elements led_cdev = [] then Inl Index_out_of_bounds
               else
                 let led_cdev =
                       (if single then
                          led_cdev\<lparr>color_elements := (color_elements led_cdev)
                            [0 := (color_elements led_cdev ! 0)
                               \<lparr>ce_value := max_brightness led_cdev,
                                ce_max_value := max_brightness led_cdev\<rparr>]\<rparr>
                        else led_cdev);
                     led_data = led_data\<lparr>cdev := led_cdev\<rparr>
                 in case led_pwm_set E led_data (brightness led_cdev) w of
                      Inl u \<Rightarrow> Inl u
                    | Inr (r, led_data, w) \<Rightarrow> Inr (ret, store_led priv slot led_data, w))
         else
           Inr (ret, store_led priv slot led_data,
                w @ [Ev_dev_err Failed_to_register_PWM_led (lp_name led) ret]))"

text \<open>\<open>led_pwm_add_single\<close>.\<close>

definition led_pwm_add_single ::
  "env \<Rightarrow> led_pwm_priv \<Rightarrow> led_pwm \<Rightarrow> device_node option \<Rightarrow> event list
     \<Rightarrow> undefined_behaviour + int \<times> led_pwm_priv \<times> event list" where
  "led_pwm_add_single E priv led child w =
     (if num_leds priv < 0 \<or> int (length (leds priv)) \<le> num_leds priv
        then Inl Index_out_of_bounds
      else
        let slot = nat (num_leds priv);
            led_data = leds priv ! slot;
            led_cdev = (cdev led_data)
              \<lparr>color_elements := [zero_color_element\<lparr>ce_name := ''single''\<rparr>]\<rparr>;
            elem = zero_element\<lparr>element_index := 0, active_low := lp_active_low led\<rparr>;
            led_cdev = led_cdev
              \<lparr>cd_name := lp_name led, default_trigger := lp_default_trigger led,
               brightness := LED_OFF, max_brightness := lp_max_brightness led,
               flags := [LED_CORE_SUSPENDRESUME]\<rparr>;
            req = (case child of Some node \<Rightarrow> Of_pwm_get node | None \<Rightarrow> Pwm_get (lp_name led));
            (p, w) = request_pwm E led req w;
            elem = elem\<lparr>pwm := p\<rparr>
        in if IS_ERR p then
             Inr (PTR_ERR p, store_led priv slot \<lparr>cdev = led_cdev, elements = [elem]\<rparr>, w)
           else
             let led_cdev = led_cdev\<lparr>brightness_set_blocking := True\<rparr>;
                 (pargs_period, w) = read_pwm_args E p w;
                 elem = elem\<lparr>period := pargs_period\<rparr>;
                 elem = (if period elem = 0 \<and> lp_pwm_period_ns led > 0
                         then elem\<lparr>period := lp_pwm_period_ns led\<rparr> else elem)
             in register_led E True priv led \<lparr>cdev = led_cdev, elements = [elem]\<rparr> w)"

text \<open>\<open>strncmp(elem_child->name, "element-", 8) == 0\<close>.\<close>

definition is_element_node :: "device_node \<Rightarrow> bool" where
  "is_element_node elem_child = (take 8 (dn_name elem_child) = ''element-'')"

text \<open>
  The loop of \<open>led_pwm_add_multi\<close> over the children of the LED's node (lines 221 to
  261). \<open>Some ret\<close> is a \<open>return ret\<close> from inside the loop.
\<close>

fun led_pwm_add_multi_elements ::
  "env \<Rightarrow> led_pwm \<Rightarrow> device_node list \<Rightarrow> led_pwm_data \<Rightarrow> u32 \<Rightarrow> event list
     \<Rightarrow> undefined_behaviour + int option \<times> led_pwm_data \<times> event list" where
  "led_pwm_add_multi_elements E led [] led_data elem_index w = Inr (None, led_data, w)"
| "led_pwm_add_multi_elements E led (elem_child # rest) led_data elem_index w =
     (if is_element_node elem_child then
        (let (ret, led_cdev) = e_color_element_setup_of E w (cdev led_data) elem_index elem_child;
             w = w @ [Ev_color_element_setup_of elem_index ret];
             led_data = led_data\<lparr>cdev := led_cdev\<rparr>
         in if ret \<noteq> 0 then Inr (Some ret, led_data, w)
            else if length (elements led_data) \<le> unat elem_index then Inl Index_out_of_bounds
            else
              let led_element = (elements led_data ! unat elem_index)
                    \<lparr>element_index := elem_index,
                     active_low := (if dn_active_low elem_child then 1 else 0)\<rparr>;
                  (p, w) = request_pwm E led (Of_pwm_get elem_child) w;
                  led_element = led_element\<lparr>pwm := p\<rparr>
              in if IS_ERR p then
                   Inr (Some (PTR_ERR p),
                        led_data\<lparr>elements := (elements led_data)[unat elem_index := led_element]\<rparr>,
                        w)
                 else
                   let (pargs_period, w) = read_pwm_args E p w;
                       led_element = led_element\<lparr>period := pargs_period\<rparr>
                   in led_pwm_add_multi_elements E led rest
                        (led_data\<lparr>elements :=
                           (elements led_data)[unat elem_index := led_element]\<rparr>)
                        (elem_index + 1) w)
      else led_pwm_add_multi_elements E led rest led_data elem_index w)"

text \<open>\<open>led_pwm_add_multi\<close>.\<close>

definition led_pwm_add_multi ::
  "env \<Rightarrow> led_pwm_priv \<Rightarrow> led_pwm \<Rightarrow> device_node \<Rightarrow> u32 \<Rightarrow> event list
     \<Rightarrow> undefined_behaviour + int \<times> led_pwm_priv \<times> event list" where
  "led_pwm_add_multi E priv led child num_color_elements w =
     (if num_leds priv < 0 \<or> int (length (leds priv)) \<le> num_leds priv
        then Inl Index_out_of_bounds
      else
        let slot = nat (num_leds priv);
            led_data = leds priv ! slot;
            led_cdev = (cdev led_data)
              \<lparr>cd_name := lp_name led, default_trigger := lp_default_trigger led,
               brightness := LED_OFF, max_brightness := lp_max_brightness led,
               flags := [LED_CORE_SUSPENDRESUME, LED_MULTI_COLOR_LED]\<rparr>;
            led_cdev = led_cdev
              \<lparr>color_elements := replicate (unat num_color_elements) zero_color_element\<rparr>;
            led_data = \<lparr>cdev = led_cdev,
                        elements = replicate (unat num_color_elements) zero_element\<rparr>
        in case led_pwm_add_multi_elements E led (dn_children child) led_data 0 w of
             Inl u \<Rightarrow> Inl u
           | Inr (Some ret, led_data, w) \<Rightarrow> Inr (ret, store_led priv slot led_data, w)
           | Inr (None, led_data, w) \<Rightarrow>
               register_led E False priv led
                 (led_data\<lparr>cdev := (cdev led_data)\<lparr>brightness_set_blocking := True\<rparr>\<rparr>) w)"

text \<open>
  The body of the loop of \<open>led_pwm_create_of\<close> for one child (lines 288 to 319): the
  description \<open>led\<close> as the body leaves it, and the result of the construction. The
  description is filled in anew for each child but never cleared, so a child without
  \<open>max-brightness\<close> keeps the value of the child before it.
\<close>

definition led_pwm_create_of_child ::
  "env \<Rightarrow> led_pwm_priv \<Rightarrow> led_pwm \<Rightarrow> device_node \<Rightarrow> event list
     \<Rightarrow> led_pwm \<times> (undefined_behaviour + int \<times> led_pwm_priv \<times> event list)" where
  "led_pwm_create_of_child E priv led child w =
     (let led = led
            \<lparr>lp_name := (case dn_label child of Some l \<Rightarrow> l | None \<Rightarrow> dn_name child),
             lp_default_trigger := dn_trigger child,
             lp_max_brightness :=
               (case dn_max_brightness child of Some m \<Rightarrow> m | None \<Rightarrow> lp_max_brightness led)\<rparr>;
          num_color_elements = length (filter is_element_node (dn_children child))
      in if num_color_elements \<noteq> 0
         then (led, led_pwm_add_multi E priv led child (of_nat num_color_elements) w)
         else
           let led = led\<lparr>lp_active_low := (if dn_active_low child then 1 else 0)\<rparr>
           in (led, led_pwm_add_single E priv led (Some child) w))"

text \<open>The loop of \<open>led_pwm_create_of\<close> over the children of the device's node.\<close>

fun led_pwm_create_of_children ::
  "env \<Rightarrow> led_pwm_priv \<Rightarrow> led_pwm \<Rightarrow> device_node list \<Rightarrow> event list
     \<Rightarrow> undefined_behaviour + int \<times> led_pwm_priv \<times> event list" where
  "led_pwm_create_of_children E priv led [] w = Inr (0, priv, w)"
| "led_pwm_create_of_children E priv led (child # rest) w =
     (case led_pwm_create_of_child E priv led child w of
        (led, Inl u) \<Rightarrow> Inl u
      | (led, Inr (ret, priv, w)) \<Rightarrow>
          if ret \<noteq> 0 then Inr (ret, priv, w)
          else led_pwm_create_of_children E priv led rest w)"

definition led_pwm_create_of ::
  "env \<Rightarrow> device_node \<Rightarrow> led_pwm_priv \<Rightarrow> event list
     \<Rightarrow> undefined_behaviour + int \<times> led_pwm_priv \<times> event list" where
  "led_pwm_create_of E of_node priv w =
     led_pwm_create_of_children E priv zero_led_pwm (dn_children of_node) w"

text \<open>The loop of \<open>led_pwm_probe\<close> over the platform data (lines 346 to 351).\<close>

fun led_pwm_probe_platdata ::
  "env \<Rightarrow> led_pwm_priv \<Rightarrow> led_pwm list \<Rightarrow> event list
     \<Rightarrow> undefined_behaviour + int \<times> led_pwm_priv \<times> event list" where
  "led_pwm_probe_platdata E priv [] w = Inr (0, priv, w)"
| "led_pwm_probe_platdata E priv (led # rest) w =
     (case led_pwm_add_single E priv led None w of
        Inl u \<Rightarrow> Inl u
      | Inr (ret, priv, w) \<Rightarrow>
          if ret \<noteq> 0 then Inr (ret, priv, w)
          else led_pwm_probe_platdata E priv rest w)"

text \<open>
  \<open>led_pwm_probe\<close>: the value returned, the driver data set (\<open>None\<close> when
  \<open>platform_set_drvdata\<close> was not reached), and the trace.
\<close>

definition led_pwm_probe ::
  "env \<Rightarrow> platform_device \<Rightarrow> event list
     \<Rightarrow> undefined_behaviour + int \<times> led_pwm_priv option \<times> event list" where
  "led_pwm_probe E pdev w =
     (let pdata = pd_platdata pdev;
          count = (case pdata of
                     Some ls \<Rightarrow> int (length ls)
                   | None \<Rightarrow>
                       (case pd_of_node pdev of
                          None \<Rightarrow> 0
                        | Some of_node \<Rightarrow> int (length (dn_children of_node))))
      in if count = 0 then Inr (- EINVAL, None, w)
         else if \<not> e_kzalloc_priv E w count then Inr (- ENOMEM, None, w)
         else
           let priv = \<lparr>num_leds = 0, leds = replicate (nat count) zero_led_pwm_data\<rparr>
           in case (case pdata of
                      Some ls \<Rightarrow> led_pwm_probe_platdata E priv ls w
                    | None \<Rightarrow>
                        (case pd_of_node pdev of
                           None \<Rightarrow> Inr (0, priv, w)
                         | Some of_node \<Rightarrow> led_pwm_create_of E of_node priv w)) of
                Inl u \<Rightarrow> Inl u
              | Inr (ret, priv, w) \<Rightarrow>
                  if ret \<noteq> 0 then
                    (case led_pwm_cleanup priv w of
                       Inl u \<Rightarrow> Inl u
                     | Inr (priv, w) \<Rightarrow> Inr (ret, None, w))
                  else Inr (0, Some priv, w))"

text \<open>\<open>led_pwm_remove\<close>.\<close>

definition led_pwm_remove ::
  "led_pwm_priv \<Rightarrow> event list \<Rightarrow> undefined_behaviour + int \<times> led_pwm_priv \<times> event list" where
  "led_pwm_remove priv w =
     (case led_pwm_cleanup priv w of
        Inl u \<Rightarrow> Inl u
      | Inr (priv, w) \<Rightarrow> Inr (0, priv, w))"

subsection \<open>The channel behind the calls\<close>

text \<open>
  Modelled from the spec: the PWM channel provider (section 6). \<open>pwm_config\<close>,
  \<open>pwm_enable\<close> and \<open>pwm_disable\<close> are declared in linux/pwm.h, which is not part of the
  sources at hand. A channel holds the pair configured last and whether its output is
  enabled; a call that reports 0 takes effect, a call that reports a fault leaves the
  channel as it was.
\<close>

record pwm_channel =
  ch_duty :: s32
  ch_period :: u32
  ch_enabled :: bool

fun pwm_step :: "pwm_ptr \<Rightarrow> pwm_channel \<Rightarrow> event \<Rightarrow> pwm_channel" where
  "pwm_step p ch (Ev_pwm (Pwm_config q d per) r) =
     (if q = p \<and> r = 0 then ch\<lparr>ch_duty := d, ch_period := per\<rparr> else ch)"
| "pwm_step p ch (Ev_pwm (Pwm_enable q) r) =
     (if q = p \<and> r = 0 then ch\<lparr>ch_enabled := True\<rparr> else ch)"
| "pwm_step p ch (Ev_pwm (Pwm_disable q) r) =
     (if q = p \<and> r = 0 then ch\<lparr>ch_enabled := False\<rparr> else ch)"
| "pwm_step p ch ev = ch"

definition pwm_after :: "pwm_ptr \<Rightarrow> pwm_channel \<Rightarrow> event list \<Rightarrow> pwm_channel" where
  "pwm_after p ch evs = foldl (pwm_step p) ch evs"

subsection \<open>Reading a trace\<close>

text \<open>The calls made to the channel provider, in order.\<close>

fun pwm_calls :: "event list \<Rightarrow> pwm_call list" where
  "pwm_calls [] = []"
| "pwm_calls (Ev_pwm c r # evs) = c # pwm_calls evs"
| "pwm_calls (ev # evs) = pwm_calls evs"

text \<open>The entries registered with success and those unregistered, in order.\<close>

fun registered :: "event list \<Rightarrow> nat list" where
  "registered [] = []"
| "registered (Ev_register slot r # evs) =
     (if r = 0 then slot # registered evs else registered evs)"
| "registered (ev # evs) = registered evs"

fun unregistered :: "event list \<Rightarrow> nat list" where
  "unregistered [] = []"
| "unregistered (Ev_unregister slot # evs) = slot # unregistered evs"
| "unregistered (ev # evs) = unregistered evs"

text \<open>
  The entries still registered at the end of a trace: registration adds an entry,
  unregistration takes it away.
\<close>

fun still_registered :: "nat list \<Rightarrow> event list \<Rightarrow> nat list" where
  "still_registered regs [] = regs"
| "still_registered regs (Ev_register slot r # evs) =
     still_registered (if r = 0 then regs @ [slot] else regs) evs"
| "still_registered regs (Ev_unregister slot # evs) =
     still_registered (removeAll slot regs) evs"
| "still_registered regs (ev # evs) = still_registered regs evs"

fun is_dev_err :: "event \<Rightarrow> bool" where
  "is_dev_err (Ev_dev_err m n r) = True"
| "is_dev_err ev = False"

text \<open>
  The channels got (a request answered with a pointer that is no error pointer), and
  the channels still held at the end of a trace: a request that succeeds adds the
  channel, a release takes it away.
\<close>

fun is_pwm_put :: "event \<Rightarrow> bool" where
  "is_pwm_put (Ev_pwm_put p) = True"
| "is_pwm_put ev = False"

fun acquired :: "event list \<Rightarrow> pwm_ptr list" where
  "acquired [] = []"
| "acquired (Ev_pwm_get req p # evs) = (if IS_ERR p then acquired evs else p # acquired evs)"
| "acquired (ev # evs) = acquired evs"

fun held :: "pwm_ptr list \<Rightarrow> event list \<Rightarrow> pwm_ptr list" where
  "held hs [] = hs"
| "held hs (Ev_pwm_get req p # evs) = held (if IS_ERR p then hs else hs @ [p]) evs"
| "held hs (Ev_pwm_put p # evs) = held (removeAll p hs) evs"
| "held hs (ev # evs) = held hs evs"

text \<open>A request of a channel that came back with \<open>-EPROBE_DEFER\<close>.\<close>

fun is_deferred :: "event \<Rightarrow> bool" where
  "is_deferred (Ev_pwm_get req p) = (p = - EPROBE_DEFER)"
| "is_deferred ev = False"

text \<open>The periods that \<open>pwm_get_args\<close> reported, each with its channel, in order.\<close>

fun reported_periods :: "event list \<Rightarrow> (pwm_ptr \<times> u32) list" where
  "reported_periods [] = []"
| "reported_periods (Ev_pwm_get_args p per # evs) = (p, per) # reported_periods evs"
| "reported_periods (ev # evs) = reported_periods evs"

text \<open>The calls of section 4.2 for an element: configure, then disable or enable.\<close>

definition element_calls :: "led_element_pwm \<Rightarrow> pwm_call list" where
  "element_calls e =
     [Pwm_config (pwm e) (duty e) (period e),
      if duty e = 0 then Pwm_disable (pwm e) else Pwm_enable (pwm e)]"

fun is_pwm :: "event \<Rightarrow> bool" where
  "is_pwm (Ev_pwm c r) = True"
| "is_pwm ev = False"

text \<open>The elements that \<open>led_pwm_set\<close> does not skip: \<open>element_index >= 0\<close>.\<close>

definition processed :: "led_element_pwm \<Rightarrow> bool" where
  "processed e = (0 \<le> sint (element_index e))"

text \<open>The color element that \<open>led_pwm_set\<close> reads for an element.\<close>

definition own_color_element :: "led_color_element list \<Rightarrow> led_element_pwm \<Rightarrow> led_color_element" where
  "own_color_element ces e = ces ! nat (sint (element_index e))"

text \<open>The channel a call is made on.\<close>

fun pwm_of :: "pwm_call \<Rightarrow> pwm_ptr" where
  "pwm_of (Pwm_config p d per) = p"
| "pwm_of (Pwm_enable p) = p"
| "pwm_of (Pwm_disable p) = p"

subsection \<open>Summaries of a stretch of trace\<close>

text \<open>
  A stretch of trace in which nothing is registered or unregistered, no error is
  logged and no request is deferred.
\<close>

definition quiet :: "event list \<Rightarrow> bool" where
  "quiet evs = (registered evs = [] \<and> unregistered evs = [] \<and>
                \<not> list_ex is_dev_err evs \<and> \<not> list_ex is_deferred evs)"

text \<open>
  What the construction of one LED leaves behind, \<open>k\<close> being \<open>num_leds\<close> before and \<open>k'\<close>
  after: with the result 0 the entry \<open>k\<close> is registered, and nothing was logged or
  deferred; with another result nothing stays registered, and a deferred request is the
  last event, makes the result \<open>-EPROBE_DEFER\<close> and comes with no logged error.
\<close>

definition add_outcome :: "int \<Rightarrow> int \<Rightarrow> int \<Rightarrow> event list \<Rightarrow> bool" where
  "add_outcome k ret k' evs =
     (unregistered evs = [] \<and>
      (if ret = 0
       then k' = k + 1 \<and> registered evs = [nat k] \<and>
            \<not> list_ex is_dev_err evs \<and> \<not> list_ex is_deferred evs
       else k' = k \<and> registered evs = [] \<and>
            (list_ex is_deferred evs \<longrightarrow>
               ret = - EPROBE_DEFER \<and> \<not> list_ex is_dev_err evs \<and>
               evs \<noteq> [] \<and> is_deferred (last evs))))"

text \<open>
  What a loop of construction leaves behind: the entries from \<open>k\<close> up to \<open>k'\<close> are
  registered, in this order, and a deferred request is the last event, makes the result
  \<open>-EPROBE_DEFER\<close> and comes with no logged error.
\<close>

definition construct_outcome :: "int \<Rightarrow> int \<Rightarrow> int \<Rightarrow> event list \<Rightarrow> bool" where
  "construct_outcome k ret k' evs =
     (unregistered evs = [] \<and> k \<le> k' \<and> registered evs = [nat k ..< nat k'] \<and>
      (list_ex is_deferred evs \<longrightarrow>
         ret = - EPROBE_DEFER \<and> \<not> list_ex is_dev_err evs \<and>
         evs \<noteq> [] \<and> is_deferred (last evs)))"

subsection \<open>Collaborators that let a single LED be built\<close>

text \<open>
  Modelled from the spec: collaborators as section 6 describes them. The allocation of
  \<open>priv\<close> succeeds; registration accepts every device, keeps its array of color elements
  and leaves a \<open>max_brightness\<close> that is not zero (the LED class replaces a zero by
  \<open>LED_FULL\<close>); color scaling changes values, not the array or the maxima.
\<close>

definition cooperative :: "env \<Rightarrow> bool" where
  "cooperative E =
     ((\<forall>v n. e_kzalloc_priv E v n) \<and>
      (\<forall>v led_cdev. fst (e_register E v led_cdev) = 0 \<and>
         length (color_elements (snd (e_register E v led_cdev))) =
           length (color_elements led_cdev) \<and>
         max_brightness (snd (e_register E v led_cdev)) \<noteq> 0) \<and>
      (\<forall>v led_cdev b. map ce_max_value (color_elements (e_scale E v led_cdev b)) =
         map ce_max_value (color_elements led_cdev)))"

subsection \<open>The duty of section 4.1, on the integers\<close>

text \<open>
  The contract as the specification words it, with unbounded integers and the
  division rounding down: \<open>duty_unsigned = floor(period * v / maxValue)\<close> and
  \<open>duty = activeLow ? (period - duty_unsigned) : duty_unsigned\<close>. The driver's own
  computation is \<open>duty_computed\<close>; the theorems below compare the two.
\<close>

definition spec_duty :: "bool \<Rightarrow> int \<Rightarrow> int \<Rightarrow> int \<Rightarrow> int" where
  "spec_duty activeLow per v maxValue =
     (let duty_unsigned = per * v div maxValue
      in if activeLow then per - duty_unsigned else duty_unsigned)"

subsection \<open>Sample devices and collaborators\<close>

text \<open>
  A color-scaling collaborator that hands the brightness to every channel as its raw
  value, and a channel provider that accepts every call.
\<close>

definition scale_direct :: "event list \<Rightarrow> led_classdev \<Rightarrow> u32 \<Rightarrow> led_classdev" where
  "scale_direct w led_cdev b =
     led_cdev\<lparr>brightness := b,
              color_elements := map (\<lambda>c. c\<lparr>ce_raw_value := b\<rparr>) (color_elements led_cdev)\<rparr>"

text \<open>
  A registration collaborator that accepts every device and, as the LED class does,
  replaces a zero \<open>max_brightness\<close> by 255; a setup of color elements that names the
  element after its node and gives it the range of 255.
\<close>

definition register_ok :: "event list \<Rightarrow> led_classdev \<Rightarrow> int \<times> led_classdev" where
  "register_ok w led_cdev =
     (0, if max_brightness led_cdev = 0 then led_cdev\<lparr>max_brightness := 255\<rparr> else led_cdev)"

definition setup_ok ::
  "event list \<Rightarrow> led_classdev \<Rightarrow> u32 \<Rightarrow> device_node \<Rightarrow> int \<times> led_classdev" where
  "setup_ok w led_cdev i node =
     (0, led_cdev\<lparr>color_elements := (color_elements led_cdev)
           [unat i := \<lparr>ce_name = dn_name node, ce_value = 255, ce_max_value = 255,
                        ce_raw_value = 0\<rparr>]\<rparr>)"

text \<open>
  The sample environment: every channel is there (each request gets a pointer of its
  own) and reports a period of 1000 ns.
\<close>

definition env_sample :: env where
  "env_sample = \<lparr>e_scale = scale_direct, e_pwm = (\<lambda>w c. 0),
     e_pwm_get = (\<lambda>w req. 4096 + int (length w)),
     e_pwm_get_args = (\<lambda>w p. 1000),
     e_color_element_setup_of = setup_ok,
     e_register = register_ok,
     e_kzalloc_priv = (\<lambda>w n. True)\<rparr>"

text \<open>The monochrome device of scenarios A and B, with its polarity and period left open.\<close>

definition mono_cdev :: led_classdev where
  "mono_cdev = \<lparr>cd_name = ''led0'', default_trigger = None, brightness = 0,
     max_brightness = 255, flags = [],
     color_elements =
       [\<lparr>ce_name = ''single'', ce_value = 255, ce_max_value = 255, ce_raw_value = 0\<rparr>],
     brightness_set_blocking = True\<rparr>"

definition mono_led :: "u32 \<Rightarrow> u32 \<Rightarrow> led_pwm_data" where
  "mono_led al per = \<lparr>cdev = mono_cdev,
     elements =
       [\<lparr>element_index = 0, pwm = 4096, active_low = al, period = per, duty = 0\<rparr>]\<rparr>"

text \<open>What a run of \<open>led_pwm_set\<close> left in the \<open>duty\<close> fields, read as \<open>int\<close>.\<close>

definition stored_duties ::
  "undefined_behaviour + int \<times> led_pwm_data \<times> event list \<Rightarrow> int list" where
  "stored_duties res =
     (case res of
        Inl u \<Rightarrow> []
      | Inr (r, led_dat, w) \<Rightarrow> map (\<lambda>e. sint (duty e)) (elements led_dat))"

text \<open>A channel provider that reports \<open>-EINVAL\<close> from every call.\<close>

definition env_faulty :: env where
  "env_faulty = env_sample\<lparr>e_pwm := (\<lambda>w c. - EINVAL)\<rparr>"

text \<open>The monochrome device with a color element whose \<open>max_value\<close> is 0.\<close>

definition zero_max_led :: led_pwm_data where
  "zero_max_led = \<lparr>cdev = mono_cdev\<lparr>color_elements :=
       [\<lparr>ce_name = ''single'', ce_value = 0, ce_max_value = 0, ce_raw_value = 0\<rparr>]\<rparr>,
     elements =
       [\<lparr>element_index = 0, pwm = 4096, active_low = 0, period = 1000, duty = 0\<rparr>]\<rparr>"

text \<open>
  The three-color device of scenario C, red and blue active high, green active low,
  with a fourth element that belongs to no color element (\<open>element_index = -1\<close>).
\<close>

definition rgb_led :: led_pwm_data where
  "rgb_led = \<lparr>cdev = \<lparr>cd_name = ''rgb'', default_trigger = None, brightness = 0,
       max_brightness = 255, flags = [LED_CORE_SUSPENDRESUME, LED_MULTI_COLOR_LED],
       color_elements =
         [\<lparr>ce_name = ''red'', ce_value = 255, ce_max_value = 255, ce_raw_value = 0\<rparr>,
          \<lparr>ce_name = ''green'', ce_value = 255, ce_max_value = 255, ce_raw_value = 0\<rparr>,
          \<lparr>ce_name = ''blue'', ce_value = 255, ce_max_value = 255, ce_raw_value = 0\<rparr>],
       brightness_set_blocking = True\<rparr>,
     elements =
       [\<lparr>element_index = 0, pwm = 4096, active_low = 0, period = 1000, duty = 7\<rparr>,
        \<lparr>element_index = - 1, pwm = 4099, active_low = 0, period = 1000, duty = 7\<rparr>,
        \<lparr>element_index = 1, pwm = 4097, active_low = 1, period = 1000, duty = 7\<rparr>,
        \<lparr>element_index = 2, pwm = 4098, active_low = 0, period = 2000, duty = 7\<rparr>]\<rparr>"

text \<open>An element whose \<open>duty\<close> is negative, and a channel that was never driven.\<close>

definition neg_duty_element :: led_element_pwm where
  "neg_duty_element =
     \<lparr>element_index = 0, pwm = 4096, active_low = 1, period = 4294967295, duty = - 1\<rparr>"

definition idle_channel :: pwm_channel where
  "idle_channel = \<lparr>ch_duty = 0, ch_period = 0, ch_enabled = False\<rparr>"

text \<open>
  Scenario D: platform data for three LEDs, and a provider whose channel for the second
  is not there yet.
\<close>

definition three_leds :: "led_pwm list" where
  "three_leds =
     [\<lparr>lp_name = ''led0'', lp_default_trigger = None, lp_active_low = 0,
       lp_max_brightness = 255, lp_pwm_period_ns = 5000\<rparr>,
      \<lparr>lp_name = ''led1'', lp_default_trigger = None, lp_active_low = 1,
       lp_max_brightness = 255, lp_pwm_period_ns = 5000\<rparr>,
      \<lparr>lp_name = ''led2'', lp_default_trigger = None, lp_active_low = 0,
       lp_max_brightness = 255, lp_pwm_period_ns = 5000\<rparr>]"

definition env_deferred :: env where
  "env_deferred = env_sample
     \<lparr>e_pwm_get := (\<lambda>w req. if req = Pwm_get ''led1'' then - EPROBE_DEFER
                               else 4096 + int (length w))\<rparr>"

text \<open>A provider whose channels report no period of their own.\<close>

definition env_no_period :: env where
  "env_no_period = env_sample\<lparr>e_pwm_get_args := (\<lambda>w p. 0)\<rparr>"

text \<open>The node of a three-color LED, as the description tree gives it.\<close>

definition rgb_node :: device_node where
  "rgb_node = Device_node ''rgb'' None None (Some 255) False
     [Device_node ''element-red'' None None None False [],
      Device_node ''note'' None None None False [],
      Device_node ''element-green'' None None None True [],
      Device_node ''element-blue'' None None None False []]"

definition one_slot :: led_pwm_priv where
  "one_slot = \<lparr>num_leds = 0, leds = [zero_led_pwm_data]\<rparr>"

text \<open>
  The channel and the period of each element of the entry \<open>slot\<close>, as a construction
  left them.
\<close>

definition periods_built ::
  "undefined_behaviour + int \<times> led_pwm_priv \<times> event list \<Rightarrow> nat \<Rightarrow> (pwm_ptr \<times> u32) list" where
  "periods_built res slot =
     (case res of
        Inl u \<Rightarrow> []
      | Inr (ret, priv, w) \<Rightarrow> map (\<lambda>e. (pwm e, period e)) (elements (leds priv ! slot)))"

text \<open>The platform device of scenario D.\<close>

definition scenario_D :: platform_device where
  "scenario_D = \<lparr>pd_platdata = Some three_leds, pd_of_node = None\<rparr>"

text \<open>
  Scenario D on the description tree: two single-channel LEDs, the channel of the second
  deferred.
\<close>

definition two_nodes :: device_node where
  "two_nodes = Device_node ''pwmleds'' None None None False
     [Device_node ''front'' (Some ''led-front'') None (Some 255) False [],
      Device_node ''back'' None None None True []]"

definition env_deferred_of :: env where
  "env_deferred_of = env_sample
     \<lparr>e_pwm_get := (\<lambda>w req. if req = Of_pwm_get (Device_node ''back'' None None None True [])
                               then - EPROBE_DEFER else 4096 + int (length w))\<rparr>"

definition scenario_D_of :: platform_device where
  "scenario_D_of = \<lparr>pd_platdata = None, pd_of_node = Some two_nodes\<rparr>"

section \<open>Arithmetic of the duty\<close>

lemma uint_ucast_u32_u64: "uint (ucast (x :: u32) :: u64) = uint x"
  by (rule uint_up_ucast) (simp add: is_up)

lemma uint_u32_bound: "uint (x :: u32) < 2 ^ 32"
  using uint_lt2p [of x] by simp

text \<open>The product of two 32-bit values fits the 64-bit \<open>duty\<close>.\<close>

lemma uint_u32_mult_u64:
  "uint ((ucast (p :: u32) :: u64) * ucast (v :: u32)) = uint p * uint v"
proof -
  have "uint p * uint v < 2 ^ 32 * 2 ^ 32"
    using uint_u32_bound [of p] uint_u32_bound [of v]
    by (intro mult_strict_mono) simp_all
  then have "uint (ucast p :: u64) * uint (ucast v :: u64) < 2 ^ LENGTH(64)"
    by (simp add: uint_ucast_u32_u64)
  then have "uint ((ucast p :: u64) * ucast v) = uint (ucast p :: u64) * uint (ucast v :: u64)"
    by (simp only: uint_mult_lem)
  then show ?thesis by (simp add: uint_ucast_u32_u64)
qed

lemma duty_scaled_uint:
  "duty_scaled per raw_value max_value = Some d \<Longrightarrow>
     uint d = uint per * uint raw_value div uint max_value"
  by (auto simp: duty_scaled_def do_div_def Let_def uint_div uint_u32_mult_u64 uint_ucast_u32_u64
      split: if_splits)

lemma duty_scaled_Some:
  "max_value \<noteq> 0 \<Longrightarrow> \<exists>d. duty_scaled per raw_value max_value = Some d"
  by (simp add: duty_scaled_def do_div_def Let_def)

text \<open>Storing a 64-bit value in the \<open>int\<close> field keeps it when it is below \<open>2 ^ 31\<close>.\<close>

lemma sint_ucast_u64_small:
  assumes "uint (d :: u64) < 2 ^ 31"
  shows "sint (ucast d :: s32) = uint d"
proof -
  have "- (2 ^ 31) \<le> uint d" by (rule order_trans [of _ 0]) simp_all
  with assms have "signed_take_bit 31 (uint d) = uint d"
    by (intro signed_take_bit_int_eq_self)
  then show ?thesis by (simp add: signed_ucast_eq)
qed

lemma scaled_le_period:
  assumes "0 \<le> (p::int)" "0 \<le> v" "v \<le> m" "0 < m"
  shows "0 \<le> p * v div m \<and> p * v div m \<le> p"
proof -
  have "p * v \<le> p * m" using assms by (simp add: mult_left_mono)
  then have "p * v div m \<le> p * m div m" using assms(4) by (rule zdiv_mono1)
  moreover have "0 \<le> p * v div m" using assms by (simp add: pos_imp_zdiv_nonneg_iff)
  ultimately show ?thesis using assms by simp
qed

lemma spec_duty_range:
  assumes "0 \<le> p" "0 \<le> v" "v \<le> m" "0 < m"
  shows "0 \<le> spec_duty al p v m \<and> spec_duty al p v m \<le> p"
  using scaled_le_period [OF assms] by (simp add: spec_duty_def Let_def)

text \<open>Within \<open>0 \<le> v \<le> maxValue\<close> the 64-bit computation is the contract's.\<close>

lemma duty_computed_uint:
  assumes "raw_value \<le> max_value" "max_value \<noteq> 0"
  shows "\<exists>d. duty_computed e raw_value max_value = Some d \<and>
           uint d = spec_duty (active_low e \<noteq> 0) (uint (period e))
                      (uint raw_value) (uint max_value)"
proof -
  obtain d0 where d0: "duty_scaled (period e) raw_value max_value = Some d0"
    using duty_scaled_Some [OF assms(2)] by blast
  have u: "uint d0 = uint (period e) * uint raw_value div uint max_value"
    using duty_scaled_uint [OF d0] .
  have m: "0 < uint max_value" using assms(2) by (simp add: uint_0_iff order_less_le)
  have v: "uint raw_value \<le> uint max_value" using assms(1) by (simp add: word_le_def)
  have le: "uint d0 \<le> uint (period e)"
    unfolding u using scaled_le_period [OF _ _ v m, of "uint (period e)"] by simp
  have le': "d0 \<le> ucast (period e)"
    using le by (simp add: word_le_def uint_ucast_u32_u64)
  have sub: "uint (ucast (period e) - d0) = uint (period e) - uint d0"
    using uint_sub_lem [THEN iffD1, OF le' [unfolded word_le_def]]
    by (simp add: uint_ucast_u32_u64)
  show ?thesis
    using d0 u sub by (simp add: duty_computed_def spec_duty_def)
qed

section \<open>The loop of \<open>led_pwm_set\<close>\<close>

lemma led_pwm_set_elements_length:
  "led_pwm_set_elements E ces els w = Inr (els', w') \<Longrightarrow> length els' = length els"
  by (induction els arbitrary: w els' w') (auto split: sum.splits prod.splits)

lemma led_pwm_set_elements_nth:
  "led_pwm_set_elements E ces els w = Inr (els', w') \<Longrightarrow> i < length els \<Longrightarrow>
     \<exists>v v'. led_pwm_set_element E ces (els ! i) v = Inr (els' ! i, v')"
proof (induction els arbitrary: w els' w' i)
  case Nil
  then show ?case by simp
next
  case (Cons e es)
  then show ?case
    by (cases i) (auto split: sum.splits prod.splits, blast+)
qed

lemma led_pwm_set_element_skip:
  "sint (element_index e) < 0 \<Longrightarrow> led_pwm_set_element E ces e w = Inr (e, w)"
  by (simp add: led_pwm_set_element_def)

lemma led_pwm_set_element_duty:
  assumes "led_pwm_set_element E ces e v = Inr (e', v')"
    and "0 \<le> sint (element_index e)"
  shows "\<exists>d. nat (sint (element_index e)) < length ces \<and>
           duty_computed e (ce_raw_value (ces ! nat (sint (element_index e))))
             (ce_max_value (ces ! nat (sint (element_index e)))) = Some d \<and>
           e' = e\<lparr>duty := ucast d\<rparr>"
  using assms
  by (auto simp: led_pwm_set_element_def Let_def split: if_splits option.splits)

lemma led_pwm_set_nth:
  assumes "led_pwm_set E led_dat b w = Inr (r, led_dat', w')"
    and "i < length (elements led_dat)"
  shows "\<exists>v v'. led_pwm_set_element E (color_elements (e_scale E w (cdev led_dat) b))
                  (elements led_dat ! i) v = Inr (elements led_dat' ! i, v')"
proof -
  from assms(1) obtain els where
    els: "led_pwm_set_elements E (color_elements (e_scale E w (cdev led_dat) b))
            (elements led_dat) (w @ [Ev_scale b]) = Inr (els, w')"
    and d: "led_dat' = led_dat\<lparr>cdev := e_scale E w (cdev led_dat) b, elements := els\<rparr>"
    by (auto simp: led_pwm_set_def Let_def split: sum.splits prod.splits)
  from led_pwm_set_elements_nth [OF els assms(2)] d show ?thesis by simp
qed

lemmas sample_defs = led_pwm_set_def led_pwm_set_element_def led_element_pwm_set_def
  duty_computed_def duty_scaled_def do_div_def call_pwm_def env_sample_def scale_direct_def
  mono_led_def mono_cdev_def stored_duties_def Let_def

text \<open>Scenario A at brightness 128, and scenario B at brightness 255, run.\<close>

lemma scenario_A_128:
  "led_pwm_set env_sample (mono_led 0 1000) 128 [] =
     Inr (0, \<lparr>cdev = scale_direct [] mono_cdev 128,
       elements = [\<lparr>element_index = 0, pwm = 4096, active_low = 0,
                    period = 1000, duty = 501\<rparr>]\<rparr>,
       [Ev_scale 128, Ev_pwm (Pwm_config (4096) 501 1000) 0,
        Ev_pwm (Pwm_enable (4096)) 0])"
  by (simp add: sample_defs)

lemma scenario_B_255:
  "led_pwm_set env_sample (mono_led 1 1000) 255 [] =
     Inr (0, \<lparr>cdev = scale_direct [] mono_cdev 255,
       elements = [\<lparr>element_index = 0, pwm = 4096, active_low = 1,
                    period = 1000, duty = 0\<rparr>]\<rparr>,
       [Ev_scale 255, Ev_pwm (Pwm_config (4096) 0 1000) 0,
        Ev_pwm (Pwm_disable (4096)) 0])"
  by (simp add: sample_defs)

section \<open>The calls of a brightness set\<close>

lemma led_element_pwm_set_events:
  "led_element_pwm_set E e w =
     w @ [Ev_pwm (Pwm_config (pwm e) (duty e) (period e))
            (e_pwm E w (Pwm_config (pwm e) (duty e) (period e))),
          Ev_pwm (if duty e = 0 then Pwm_disable (pwm e) else Pwm_enable (pwm e))
            (e_pwm E (w @ [Ev_pwm (Pwm_config (pwm e) (duty e) (period e))
                             (e_pwm E w (Pwm_config (pwm e) (duty e) (period e)))])
               (if duty e = 0 then Pwm_disable (pwm e) else Pwm_enable (pwm e)))]"
  by (simp add: led_element_pwm_set_def call_pwm_def Let_def)

lemma pwm_after_append: "pwm_after p ch (xs @ ys) = pwm_after p (pwm_after p ch xs) ys"
  by (simp add: pwm_after_def)

lemma led_element_pwm_set_append:
  "\<exists>r1 r2. led_element_pwm_set E e w =
     w @ [Ev_pwm (Pwm_config (pwm e) (duty e) (period e)) r1,
          Ev_pwm (if duty e = 0 then Pwm_disable (pwm e) else Pwm_enable (pwm e)) r2]"
  by (simp add: led_element_pwm_set_def call_pwm_def Let_def)

lemma pwm_calls_append: "pwm_calls (xs @ ys) = pwm_calls xs @ pwm_calls ys"
  by (induction xs rule: pwm_calls.induct) simp_all

lemma led_pwm_set_element_trace:
  assumes "led_pwm_set_element E ces e w = Inr (e', w')"
  shows "\<exists>evs. w' = w @ evs \<and> list_all is_pwm evs \<and>
           pwm_calls evs = (if processed e' then element_calls e' else []) \<and>
           element_index e' = element_index e"
proof (cases "processed e")
  case False
  with assms show ?thesis
    by (auto simp: led_pwm_set_element_def processed_def)
next
  case True
  with assms obtain d :: u64 where e': "e' = e\<lparr>duty := ucast d\<rparr>"
    and w': "w' = led_element_pwm_set E e' w"
    by (auto simp: led_pwm_set_element_def processed_def Let_def split: if_splits option.splits)
  from led_element_pwm_set_append [of E e' w] w' obtain r1 r2 where
    "w' = w @ [Ev_pwm (Pwm_config (pwm e') (duty e') (period e')) r1,
          Ev_pwm (if duty e' = 0 then Pwm_disable (pwm e') else Pwm_enable (pwm e')) r2]"
    by auto
  with True e' show ?thesis
    by (simp add: element_calls_def processed_def)
qed

lemma led_pwm_set_elements_trace:
  "led_pwm_set_elements E ces els w = Inr (els', w') \<Longrightarrow>
     \<exists>evs. w' = w @ evs \<and> list_all is_pwm evs \<and>
       pwm_calls evs = concat (map element_calls (filter processed els'))"
proof (induction els arbitrary: w els' w')
  case Nil
  then show ?case by simp
next
  case (Cons e es)
  from Cons.prems obtain e' w1 es' where
    one: "led_pwm_set_element E ces e w = Inr (e', w1)"
    and rest: "led_pwm_set_elements E ces es w1 = Inr (es', w')"
    and els': "els' = e' # es'"
    by (auto split: sum.splits prod.splits)
  from led_pwm_set_element_trace [OF one] obtain evs1 where
    1: "w1 = w @ evs1" "list_all is_pwm evs1"
       "pwm_calls evs1 = (if processed e' then element_calls e' else [])"
    by blast
  from Cons.IH [OF rest] obtain evs2 where
    2: "w' = w1 @ evs2" "list_all is_pwm evs2"
       "pwm_calls evs2 = concat (map element_calls (filter processed es'))"
    by blast
  have "w' = w @ (evs1 @ evs2)" using 1 2 by simp
  moreover have "list_all is_pwm (evs1 @ evs2)" using 1 2 by simp
  moreover have "pwm_calls (evs1 @ evs2) = concat (map element_calls (filter processed els'))"
    using 1 2 els' by (simp add: pwm_calls_append)
  ultimately show ?case by blast
qed

text \<open>When the loop runs through.\<close>

lemma led_pwm_set_element_Inr:
  assumes "processed e \<longrightarrow> nat (sint (element_index e)) < length ces \<and>
             ce_max_value (own_color_element ces e) \<noteq> 0"
  shows "\<exists>e' w'. led_pwm_set_element E ces e w = Inr (e', w')"
  using assms
  by (auto simp: led_pwm_set_element_def processed_def own_color_element_def Let_def
      duty_computed_def duty_scaled_def do_div_def split: option.splits)

lemma led_pwm_set_elements_Inr:
  assumes "\<forall>e \<in> set els. processed e \<longrightarrow> nat (sint (element_index e)) < length ces \<and>
             ce_max_value (own_color_element ces e) \<noteq> 0"
  shows "\<exists>els' w'. led_pwm_set_elements E ces els w = Inr (els', w')"
  using assms
proof (induction els arbitrary: w)
  case Nil
  then show ?case by simp
next
  case (Cons e es)
  then obtain e' w1 where 1: "led_pwm_set_element E ces e w = Inr (e', w1)"
    using led_pwm_set_element_Inr [of e ces E w] by auto
  from Cons obtain es' w2 where 2: "led_pwm_set_elements E ces es w1 = Inr (es', w2)"
    by (metis list.set_intros(2))
  from 1 2 show ?case by simp
qed

lemma led_pwm_set_element_div0:
  assumes "processed e \<longrightarrow> nat (sint (element_index e)) < length ces"
  shows "(led_pwm_set_element E ces e w = Inl Division_by_zero_executed) =
           (processed e \<and> ce_max_value (own_color_element ces e) = 0)"
    and "led_pwm_set_element E ces e w \<noteq> Inl Index_out_of_bounds"
  using assms
  by (auto simp: led_pwm_set_element_def processed_def own_color_element_def Let_def
      duty_computed_def duty_scaled_def do_div_def split: option.splits)

lemma led_pwm_set_elements_div0:
  assumes "\<forall>e \<in> set els. processed e \<longrightarrow> nat (sint (element_index e)) < length ces"
  shows "(led_pwm_set_elements E ces els w = Inl Division_by_zero_executed) =
           (\<exists>e \<in> set els. processed e \<and> ce_max_value (own_color_element ces e) = 0)"
  using assms
proof (induction els arbitrary: w)
  case Nil
  then show ?case by simp
next
  case (Cons e es)
  have r: "processed e \<longrightarrow> nat (sint (element_index e)) < length ces" using Cons.prems by simp
  show ?case
  proof (cases "led_pwm_set_element E ces e w")
    case (Inl u)
    with led_pwm_set_element_div0 [OF r, of E w] show ?thesis
      by (cases u) auto
  next
    case (Inr x)
    obtain e' w1 where x: "x = (e', w1)" by (cases x)
    from Inr x led_pwm_set_element_div0(1) [OF r, of E w]
    have no: "\<not> (processed e \<and> ce_max_value (own_color_element ces e) = 0)" by simp
    have IH: "(led_pwm_set_elements E ces es w1 = Inl Division_by_zero_executed) =
           (\<exists>e \<in> set es. processed e \<and> ce_max_value (own_color_element ces e) = 0)"
      using Cons.IH [of w1] Cons.prems by simp
    show ?thesis using Inr x no IH
      by (auto split: sum.splits prod.splits)
  qed
qed

lemma pwm_after_untouched:
  "\<forall>c \<in> set (pwm_calls evs). pwm_of c \<noteq> p \<Longrightarrow> pwm_after p ch evs = ch"
proof (induction evs arbitrary: ch)
  case Nil
  then show ?case by (simp add: pwm_after_def)
next
  case (Cons ev evs)
  have "pwm_step p ch ev = ch"
  proof (cases ev)
    case (Ev_pwm c r)
    with Cons.prems show ?thesis by (cases c) auto
  qed simp_all
  moreover have "\<forall>c \<in> set (pwm_calls evs). pwm_of c \<noteq> p"
    using Cons.prems by (cases ev) auto
  ultimately show ?case using Cons.IH [of ch] by (simp add: pwm_after_def)
qed

lemma pwm_of_element_calls: "c \<in> set (element_calls e) \<Longrightarrow> pwm_of c = pwm e"
  by (auto simp: element_calls_def split: if_splits)

lemma led_pwm_set_element_fields:
  assumes "led_pwm_set_element E ces e w = Inr (e', w')"
  shows "element_index e' = element_index e \<and> pwm e' = pwm e \<and>
         active_low e' = active_low e \<and> period e' = period e"
  using assms
  by (auto simp: led_pwm_set_element_def Let_def split: if_splits option.splits)

lemma led_pwm_set_element_result:
  assumes "led_pwm_set_element E ces e w = Inr (e', w')"
  shows "if processed e
         then \<exists>d. duty_computed e (ce_raw_value (own_color_element ces e))
                     (ce_max_value (own_color_element ces e)) = Some d \<and>
                   e' = e\<lparr>duty := ucast d\<rparr>
         else e' = e"
  using assms
  by (auto simp: led_pwm_set_element_def processed_def own_color_element_def Let_def
      split: if_splits option.splits)

lemma led_pwm_set_unfold:
  assumes "led_pwm_set E led_dat b w = Inr (r, led_dat', w')"
  shows "r = 0 \<and> cdev led_dat' = e_scale E w (cdev led_dat) b \<and>
         led_pwm_set_elements E (color_elements (e_scale E w (cdev led_dat) b))
           (elements led_dat) (w @ [Ev_scale b]) = Inr (elements led_dat', w')"
  using assms
  by (auto simp: led_pwm_set_def Let_def split: sum.splits prod.splits)

lemma led_pwm_set_element_any_env:
  assumes "led_pwm_set_element E ces e w = Inr (e', w')"
  shows "\<exists>v'. led_pwm_set_element E' ces e v = Inr (e', v')"
  using assms
  by (auto simp: led_pwm_set_element_def Let_def split: if_splits option.splits)

lemma led_pwm_set_elements_any_env:
  "led_pwm_set_elements E ces els w = Inr (els', w') \<Longrightarrow>
     \<exists>v'. led_pwm_set_elements E' ces els v = Inr (els', v')"
proof (induction els arbitrary: w els' w' v)
  case Nil
  then show ?case by simp
next
  case (Cons e es)
  from Cons.prems obtain e' w1 es' where
    one: "led_pwm_set_element E ces e w = Inr (e', w1)"
    and rest: "led_pwm_set_elements E ces es w1 = Inr (es', w')"
    and els': "els' = e' # es'"
    by (auto split: sum.splits prod.splits)
  from led_pwm_set_element_any_env [OF one, of E' v] obtain v1 where
    1: "led_pwm_set_element E' ces e v = Inr (e', v1)" by blast
  from Cons.IH [OF rest, of v1] obtain v2 where
    2: "led_pwm_set_elements E' ces es v1 = Inr (es', v2)" by blast
  from 1 2 els' show ?case by simp
qed

lemmas sample_defs2 = sample_defs env_faulty_def zero_max_led_def rgb_led_def EINVAL_def

text \<open>Scenario C at brightness 128, with the element of no color left alone.\<close>

lemma rgb_run:
  "led_pwm_set env_sample rgb_led 128 [] =
     Inr (0, \<lparr>cdev = scale_direct [] (cdev rgb_led) 128,
       elements =
       [\<lparr>element_index = 0, pwm = 4096, active_low = 0, period = 1000, duty = 501\<rparr>,
        \<lparr>element_index = - 1, pwm = 4099, active_low = 0, period = 1000, duty = 7\<rparr>,
        \<lparr>element_index = 1, pwm = 4097, active_low = 1, period = 1000, duty = 499\<rparr>,
        \<lparr>element_index = 2, pwm = 4098, active_low = 0, period = 2000, duty = 1003\<rparr>]\<rparr>,
       [Ev_scale 128,
        Ev_pwm (Pwm_config 4096 501 1000) 0, Ev_pwm (Pwm_enable 4096) 0,
        Ev_pwm (Pwm_config 4097 499 1000) 0, Ev_pwm (Pwm_enable 4097) 0,
        Ev_pwm (Pwm_config 4098 1003 2000) 0, Ev_pwm (Pwm_enable 4098) 0])"
  by (simp add: sample_defs2)

text \<open>Scenario A at brightness 128 with a channel provider that reports faults.\<close>

lemma faulty_run:
  "led_pwm_set env_faulty (mono_led 0 1000) 128 [] =
     Inr (0, \<lparr>cdev = scale_direct [] mono_cdev 128,
       elements = [\<lparr>element_index = 0, pwm = 4096, active_low = 0,
                    period = 1000, duty = 501\<rparr>]\<rparr>,
       [Ev_scale 128, Ev_pwm (Pwm_config 4096 501 1000) (- 22),
        Ev_pwm (Pwm_enable 4096) (- 22)])"
  by (simp add: sample_defs2)

lemma led_pwm_set_frame_parts:
  assumes run: "led_pwm_set E led_dat b w = Inr (r, led_dat', w')"
  shows "cdev led_dat' = e_scale E w (cdev led_dat) b"
    and "\<exists>evs. w' = w @ Ev_scale b # evs \<and> list_all is_pwm evs \<and>
           pwm_calls evs = concat (map element_calls (filter processed (elements led_dat')))"
    and "length (elements led_dat') = length (elements led_dat)"
    and "\<forall>i < length (elements led_dat).
           (if processed (elements led_dat ! i)
            then \<exists>d. duty_computed (elements led_dat ! i)
                        (ce_raw_value (own_color_element (color_elements (cdev led_dat'))
                           (elements led_dat ! i)))
                        (ce_max_value (own_color_element (color_elements (cdev led_dat'))
                           (elements led_dat ! i))) = Some d \<and>
                      elements led_dat' ! i = (elements led_dat ! i)\<lparr>duty := ucast d\<rparr>
            else elements led_dat' ! i = elements led_dat ! i)"
    and "\<forall>e \<in> set (elements led_dat). \<not> processed e \<longrightarrow>
           (\<forall>e' \<in> set (elements led_dat). processed e' \<longrightarrow> pwm e' \<noteq> pwm e) \<longrightarrow>
           pwm_after (pwm e) ch (drop (length w) w') = ch"
proof -
  let ?ces = "color_elements (e_scale E w (cdev led_dat) b)"
  from led_pwm_set_unfold [OF run] have
    c: "cdev led_dat' = e_scale E w (cdev led_dat) b"
    and els: "led_pwm_set_elements E ?ces (elements led_dat) (w @ [Ev_scale b])
                = Inr (elements led_dat', w')"
    by simp_all
  show "cdev led_dat' = e_scale E w (cdev led_dat) b" by (rule c)
  from led_pwm_set_elements_trace [OF els] obtain evs where
    evs: "w' = (w @ [Ev_scale b]) @ evs" "list_all is_pwm evs"
      "pwm_calls evs = concat (map element_calls (filter processed (elements led_dat')))"
    by blast
  then show "\<exists>evs. w' = w @ Ev_scale b # evs \<and> list_all is_pwm evs \<and>
           pwm_calls evs = concat (map element_calls (filter processed (elements led_dat')))"
    by auto
  show len: "length (elements led_dat') = length (elements led_dat)"
    by (rule led_pwm_set_elements_length [OF els])
  have nth: "\<exists>v v'. led_pwm_set_element E ?ces (elements led_dat ! i) v
                      = Inr (elements led_dat' ! i, v')"
    if "i < length (elements led_dat)" for i
    by (rule led_pwm_set_elements_nth [OF els that])
  show "\<forall>i < length (elements led_dat).
           (if processed (elements led_dat ! i)
            then \<exists>d. duty_computed (elements led_dat ! i)
                        (ce_raw_value (own_color_element (color_elements (cdev led_dat'))
                           (elements led_dat ! i)))
                        (ce_max_value (own_color_element (color_elements (cdev led_dat'))
                           (elements led_dat ! i))) = Some d \<and>
                      elements led_dat' ! i = (elements led_dat ! i)\<lparr>duty := ucast d\<rparr>
            else elements led_dat' ! i = elements led_dat ! i)"
    unfolding c using nth led_pwm_set_element_result by blast
  show "\<forall>e \<in> set (elements led_dat). \<not> processed e \<longrightarrow>
           (\<forall>e' \<in> set (elements led_dat). processed e' \<longrightarrow> pwm e' \<noteq> pwm e) \<longrightarrow>
           pwm_after (pwm e) ch (drop (length w) w') = ch"
  proof (intro ballI impI)
    fix e
    assume e: "e \<in> set (elements led_dat)" "\<not> processed e"
      and other: "\<forall>e' \<in> set (elements led_dat). processed e' \<longrightarrow> pwm e' \<noteq> pwm e"
    have "pwm_of c \<noteq> pwm e" if cin: "c \<in> set (pwm_calls evs)" for c
    proof -
      from cin evs(3) obtain x where x: "x \<in> set (elements led_dat')" "processed x"
        "c \<in> set (element_calls x)" by auto
      from x(1) obtain i where i: "i < length (elements led_dat')" "x = elements led_dat' ! i"
        by (auto simp: in_set_conv_nth)
      from nth [of i] i len obtain v v' where
        "led_pwm_set_element E ?ces (elements led_dat ! i) v = Inr (x, v')" by auto
      from led_pwm_set_element_fields [OF this] have
        f: "element_index x = element_index (elements led_dat ! i)" "pwm x = pwm (elements led_dat ! i)"
        by simp_all
      have "processed (elements led_dat ! i)" using x(2) f(1) by (simp add: processed_def)
      moreover have "elements led_dat ! i \<in> set (elements led_dat)" using i(1) len by simp
      ultimately have "pwm (elements led_dat ! i) \<noteq> pwm e" using other by blast
      with f(2) pwm_of_element_calls [OF x(3)] show ?thesis by simp
    qed
    then have "pwm_after (pwm e) ch (Ev_scale b # evs) = ch"
      using pwm_after_untouched [of evs "pwm e" ch] by (simp add: pwm_after_def)
    moreover have "drop (length w) w' = Ev_scale b # evs" using evs(1) by simp
    ultimately show "pwm_after (pwm e) ch (drop (length w) w') = ch" by simp
  qed
qed

section \<open>Traces of construction and teardown\<close>

lemma registered_append: "registered (xs @ ys) = registered xs @ registered ys"
  by (induction xs rule: registered.induct) simp_all

lemma unregistered_append: "unregistered (xs @ ys) = unregistered xs @ unregistered ys"
  by (induction xs rule: unregistered.induct) simp_all

lemma reported_periods_append:
  "reported_periods (xs @ ys) = reported_periods xs @ reported_periods ys"
  by (induction xs rule: reported_periods.induct) simp_all

lemma quiet_Nil: "quiet []"
  by (simp add: quiet_def)

lemma quiet_append: "quiet (xs @ ys) = (quiet xs \<and> quiet ys)"
  by (auto simp: quiet_def registered_append unregistered_append)

lemma is_pwm_quiet: "list_all is_pwm evs \<Longrightarrow> quiet evs \<and> reported_periods evs = []"
proof (induction evs)
  case Nil
  then show ?case by (simp add: quiet_def)
next
  case (Cons ev evs)
  then show ?case by (cases ev) (simp_all add: quiet_def)
qed

lemma led_pwm_set_quiet:
  assumes "led_pwm_set E led_dat b w = Inr (r, led_dat', w')"
  shows "\<exists>evs. w' = w @ evs \<and> quiet evs \<and> reported_periods evs = []"
proof -
  from led_pwm_set_frame_parts(2) [OF assms] obtain evs where
    evs: "w' = w @ Ev_scale b # evs" "list_all is_pwm evs" by blast
  from is_pwm_quiet [OF evs(2)] have "quiet (Ev_scale b # evs) \<and> reported_periods (Ev_scale b # evs) = []"
    by (simp add: quiet_def)
  with evs(1) show ?thesis by blast
qed

lemma request_pwm_events:
  "request_pwm E led req w = (p, w') \<Longrightarrow>
     p = e_pwm_get E w req \<and>
     w' = w @ Ev_pwm_get req p #
            (if IS_ERR p \<and> p \<noteq> - EPROBE_DEFER
             then [Ev_dev_err Unable_to_request_PWM (lp_name led) p] else [])"
  by (auto simp: request_pwm_def Let_def PTR_ERR_def split: if_splits)

lemma IS_ERR_nonzero: "IS_ERR p \<Longrightarrow> PTR_ERR p \<noteq> 0"
  by (simp add: IS_ERR_def PTR_ERR_def)

lemma deferred_IS_ERR: "IS_ERR (- EPROBE_DEFER)"
  by (simp add: IS_ERR_def EPROBE_DEFER_def MAX_ERRNO_def)

text \<open>A request that fails: what it returns and what it leaves in the trace.\<close>

lemma request_pwm_failed:
  assumes "request_pwm E led req w = (p, w')" "IS_ERR p"
  shows "\<exists>evs. w' = w @ evs \<and> registered evs = [] \<and> unregistered evs = [] \<and>
           reported_periods evs = [] \<and> PTR_ERR p \<noteq> 0 \<and>
           (list_ex is_deferred evs \<longrightarrow>
              PTR_ERR p = - EPROBE_DEFER \<and> \<not> list_ex is_dev_err evs \<and>
              evs \<noteq> [] \<and> is_deferred (last evs))"
  using request_pwm_events [OF assms(1)] assms(2) IS_ERR_nonzero [OF assms(2)]
  by (auto simp: PTR_ERR_def)

lemma request_pwm_ok:
  assumes "request_pwm E led req w = (p, w')" "\<not> IS_ERR p"
  shows "\<exists>evs. w' = w @ evs \<and> quiet evs \<and> reported_periods evs = []"
proof -
  from assms(2) deferred_IS_ERR have "p \<noteq> - EPROBE_DEFER" by auto
  with request_pwm_events [OF assms(1)] assms(2) show ?thesis
    by (auto simp: quiet_def)
qed

lemma read_pwm_args_events:
  "read_pwm_args E p w = (per, w') \<Longrightarrow>
     w' = w @ [Ev_pwm_apply_args p, Ev_pwm_get_args p per]"
  by (auto simp: read_pwm_args_def Let_def)

lemma read_pwm_args_quiet:
  assumes "read_pwm_args E p w = (per, w')"
  shows "\<exists>evs. w' = w @ evs \<and> quiet evs \<and> reported_periods evs = [(p, per)]"
  using read_pwm_args_events [OF assms] by (simp add: quiet_def)

lemma led_pwm_set_keeps_channels:
  assumes run: "led_pwm_set E led_dat b w = Inr (r, led_dat', w')"
  shows "map (\<lambda>e. (pwm e, period e)) (elements led_dat') =
         map (\<lambda>e. (pwm e, period e)) (elements led_dat)"
proof (rule nth_equalityI)
  show "length (map (\<lambda>e. (pwm e, period e)) (elements led_dat')) =
        length (map (\<lambda>e. (pwm e, period e)) (elements led_dat))"
    using led_pwm_set_frame_parts(3) [OF run] by simp
next
  fix i assume "i < length (map (\<lambda>e. (pwm e, period e)) (elements led_dat'))"
  then have i: "i < length (elements led_dat)" "i < length (elements led_dat')"
    using led_pwm_set_frame_parts(3) [OF run] by simp_all
  from led_pwm_set_nth [OF run i(1)] obtain v v' where
    "led_pwm_set_element E (color_elements (e_scale E w (cdev led_dat) b))
       (elements led_dat ! i) v = Inr (elements led_dat' ! i, v')" by blast
  from led_pwm_set_element_fields [OF this] i
  show "map (\<lambda>e. (pwm e, period e)) (elements led_dat') ! i =
        map (\<lambda>e. (pwm e, period e)) (elements led_dat) ! i" by simp
qed

lemma add_outcome_registered:
  assumes "quiet evs" "0 \<le> k"
  shows "add_outcome k 0 (k + 1) (Ev_register (nat k) 0 # evs)"
  using assms by (simp add: add_outcome_def quiet_def)

lemma register_led_outcome:
  assumes run: "register_led E single priv led led_data w = Inr (ret, priv', w')"
  shows "\<exists>evs. w' = w @ evs \<and> add_outcome (num_leds priv) ret (num_leds priv') evs \<and>
           reported_periods evs = [] \<and> length (leds priv') = length (leds priv) \<and>
           (nat (num_leds priv) < length (leds priv) \<longrightarrow>
              map (\<lambda>e. (pwm e, period e)) (elements (leds priv' ! nat (num_leds priv))) =
              map (\<lambda>e. (pwm e, period e)) (elements led_data))"
proof -
  obtain r led_cdev where reg: "e_register E w (cdev led_data) = (r, led_cdev)"
    by (cases "e_register E w (cdev led_data)")
  show ?thesis
  proof (cases "r = 0")
    case False
    with run reg have
      "ret = r" "priv' = store_led priv (nat (num_leds priv)) (led_data\<lparr>cdev := led_cdev\<rparr>)"
      "w' = w @ [Ev_register (nat (num_leds priv)) r,
                 Ev_dev_err Failed_to_register_PWM_led (lp_name led) r]"
      by (auto simp: register_led_def Let_def)
    with False show ?thesis
      by (simp add: add_outcome_def store_led_def)
  next
    case True
    let ?w1 = "w @ [Ev_register (nat (num_leds priv)) 0]"
    from run reg True obtain led_data1 b1 r2 led_data2 where
      set: "led_pwm_set E led_data1 b1 ?w1 = Inr (r2, led_data2, w')"
      and el: "elements led_data1 = elements led_data"
      and ret: "ret = 0"
      and priv': "priv' = store_led (priv\<lparr>num_leds := num_leds priv + 1\<rparr>)
                           (nat (num_leds priv)) led_data2"
      by (auto simp: register_led_def Let_def split: if_splits sum.splits prod.splits)
    from led_pwm_set_quiet [OF set] obtain evs where
      evs: "w' = ?w1 @ evs" "quiet evs" "reported_periods evs = []" by blast
    have "w' = w @ (Ev_register (nat (num_leds priv)) 0 # evs)" using evs(1) by simp
    moreover have "add_outcome (num_leds priv) ret (num_leds priv')
                     (Ev_register (nat (num_leds priv)) 0 # evs)"
      using evs(2) ret priv' by (simp add: add_outcome_def quiet_def store_led_def)
    moreover have "reported_periods (Ev_register (nat (num_leds priv)) 0 # evs) = []"
      using evs(3) by simp
    moreover have "length (leds priv') = length (leds priv)"
      using priv' by (simp add: store_led_def)
    moreover have "nat (num_leds priv) < length (leds priv) \<longrightarrow>
              map (\<lambda>e. (pwm e, period e)) (elements (leds priv' ! nat (num_leds priv))) =
              map (\<lambda>e. (pwm e, period e)) (elements led_data)"
      using priv' led_pwm_set_keeps_channels [OF set] el by (simp add: store_led_def)
    ultimately show ?thesis by blast
  qed
qed

lemma add_outcome_after_quiet:
  assumes "quiet A" "add_outcome k ret k' B"
  shows "add_outcome k ret k' (A @ B)"
  using assms
  by (auto simp: add_outcome_def quiet_def registered_append unregistered_append)

lemma add_outcome_failed_request:
  assumes "registered evs = []" "unregistered evs = []" "ret \<noteq> 0"
    "list_ex is_deferred evs \<longrightarrow>
       ret = - EPROBE_DEFER \<and> \<not> list_ex is_dev_err evs \<and> evs \<noteq> [] \<and> is_deferred (last evs)"
  shows "add_outcome k ret k evs"
  using assms by (simp add: add_outcome_def)

lemma led_pwm_add_single_outcome:
  assumes run: "led_pwm_add_single E priv led child w = Inr (ret, priv', w')"
  shows "\<exists>evs. w' = w @ evs \<and> add_outcome (num_leds priv) ret (num_leds priv') evs \<and>
           length (leds priv') = length (leds priv) \<and>
           map (\<lambda>e. (pwm e, period e))
             (take (length (reported_periods evs)) (elements (leds priv' ! nat (num_leds priv)))) =
           map (\<lambda>(p, hw). (p, if hw \<noteq> 0 then hw else lp_pwm_period_ns led))
             (reported_periods evs) \<and>
           (ret = 0 \<longrightarrow> length (reported_periods evs) = 1)"
proof -
  let ?k = "num_leds priv"
  let ?req = "case child of Some node \<Rightarrow> Of_pwm_get node | None \<Rightarrow> Pwm_get (lp_name led)"
  from run have k: "0 \<le> ?k" "nat ?k < length (leds priv)"
    by (auto simp: led_pwm_add_single_def split: if_splits)
  obtain p w1 where rq: "request_pwm E led ?req w = (p, w1)"
    by (cases "request_pwm E led ?req w")
  show ?thesis
  proof (cases "IS_ERR p")
    case True
    with run rq k obtain led_data where
      r: "ret = PTR_ERR p" "priv' = store_led priv (nat ?k) led_data" "w' = w1"
      by (auto simp: led_pwm_add_single_def Let_def split: if_splits)
    from request_pwm_failed [OF rq True] obtain evs where
      evs: "w1 = w @ evs" "registered evs = []" "unregistered evs = []"
        "reported_periods evs = []" "PTR_ERR p \<noteq> 0"
        "list_ex is_deferred evs \<longrightarrow>
              PTR_ERR p = - EPROBE_DEFER \<and> \<not> list_ex is_dev_err evs \<and>
              evs \<noteq> [] \<and> is_deferred (last evs)"
      by blast
    have "add_outcome ?k ret (num_leds priv') evs"
      using add_outcome_failed_request [OF evs(2,3), of ret ?k] evs(5,6) r
      by (simp add: store_led_def)
    with evs r show ?thesis by (auto simp: store_led_def)
  next
    case False
    obtain per w2 where rd: "read_pwm_args E p w1 = (per, w2)"
      by (cases "read_pwm_args E p w1")
    from run rq rd False k obtain led_cdev elem where
      reg: "register_led E True priv led \<lparr>cdev = led_cdev, elements = [elem]\<rparr> w2
              = Inr (ret, priv', w')"
      and elem: "pwm elem = p"
        "period elem = (if per = 0 \<and> lp_pwm_period_ns led > 0 then lp_pwm_period_ns led else per)"
      by (auto simp: led_pwm_add_single_def Let_def split: if_splits)
    from request_pwm_ok [OF rq False] obtain evs1 where
      1: "w1 = w @ evs1" "quiet evs1" "reported_periods evs1 = []" by blast
    from read_pwm_args_quiet [OF rd] obtain evs2 where
      2: "w2 = w1 @ evs2" "quiet evs2" "reported_periods evs2 = [(p, per)]" by blast
    from register_led_outcome [OF reg] k obtain evs3 where
      3: "w' = w2 @ evs3" "add_outcome ?k ret (num_leds priv') evs3"
         "reported_periods evs3 = []" "length (leds priv') = length (leds priv)"
         "map (\<lambda>e. (pwm e, period e)) (elements (leds priv' ! nat ?k)) =
            [(pwm elem, period elem)]"
      by auto
    have per: "period elem = (if per \<noteq> 0 then per else lp_pwm_period_ns led)"
      using elem(2) by (auto simp: word_gt_0)
    have "w' = w @ (evs1 @ evs2 @ evs3)" using 1 2 3 by simp
    moreover have "add_outcome ?k ret (num_leds priv') (evs1 @ evs2 @ evs3)"
      using 1(2) 2(2) 3(2) by (intro add_outcome_after_quiet)
    moreover have rp: "reported_periods (evs1 @ evs2 @ evs3) = [(p, per)]"
      using 1 2 3 by (simp add: reported_periods_append)
    moreover have "map (\<lambda>e. (pwm e, period e))
             (take (length (reported_periods (evs1 @ evs2 @ evs3)))
                (elements (leds priv' ! nat ?k))) =
           map (\<lambda>(p, hw). (p, if hw \<noteq> 0 then hw else lp_pwm_period_ns led))
             (reported_periods (evs1 @ evs2 @ evs3))"
      unfolding rp using 3(5) elem(1) per by (simp flip: take_map)
    moreover have "ret = 0 \<longrightarrow> length (reported_periods (evs1 @ evs2 @ evs3)) = 1"
      unfolding rp by simp
    ultimately show ?thesis using 3(4) by blast
  qed
qed

lemma take_Suc_drop:
  "i < length xs \<Longrightarrow> take (Suc n) (drop i xs) = xs ! i # take n (drop (Suc i) xs)"
  by (simp flip: Cons_nth_drop_Suc)

lemma nth_from_take:
  assumes "take (Suc i) xs = take (Suc i) ys" "i < length ys" "length xs = length ys"
  shows "xs ! i = ys ! i"
  by (metis assms(1) lessI nth_take)

lemma take_from_take:
  assumes "take (Suc i) xs = take (Suc i) (ys[i := y])"
  shows "take i xs = take i ys"
proof -
  have "take i (take (Suc i) xs) = take i (take (Suc i) (ys[i := y]))"
    using assms by simp
  then show ?thesis by (simp add: min_def)
qed

lemma unat_Suc_u32:
  assumes "unat (i :: u32) < n" "n < 2 ^ 32"
  shows "unat (i + 1) = Suc (unat i)"
proof -
  have "unat i + unat (1 :: u32) < 2 ^ LENGTH(32)" using assms by simp
  then have "unat (i + 1) = unat i + unat (1 :: u32)"
    by (simp only: unat_add_lem [THEN iffD1])
  then show ?thesis by simp
qed

lemma led_pwm_add_multi_elements_outcome:
  "led_pwm_add_multi_elements E led children led_data idx w = Inr (r, led_data', w') \<Longrightarrow>
   length (elements led_data) < 2 ^ 32 \<Longrightarrow>
   \<exists>evs. w' = w @ evs \<and> registered evs = [] \<and> unregistered evs = [] \<and>
     (case r of
        None \<Rightarrow> \<not> list_ex is_dev_err evs \<and> \<not> list_ex is_deferred evs \<and>
                length (reported_periods evs) =
                  length (filter is_element_node children)
      | Some ret \<Rightarrow> ret \<noteq> 0 \<and>
          (list_ex is_deferred evs \<longrightarrow>
             ret = - EPROBE_DEFER \<and> \<not> list_ex is_dev_err evs \<and>
             evs \<noteq> [] \<and> is_deferred (last evs))) \<and>
     length (elements led_data') = length (elements led_data) \<and>
     take (unat idx) (elements led_data') = take (unat idx) (elements led_data) \<and>
     map (\<lambda>e. (pwm e, period e))
       (take (length (reported_periods evs)) (drop (unat idx) (elements led_data'))) =
     reported_periods evs"
proof (induction children arbitrary: led_data idx w)
  case Nil
  then show ?case by simp
next
  case (Cons c cs)
  show ?case
  proof (cases "is_element_node c")
    case False
    with Cons.prems(1) have
      "led_pwm_add_multi_elements E led cs led_data idx w = Inr (r, led_data', w')" by simp
    moreover have "filter is_element_node (c # cs) = filter is_element_node cs"
      using False by simp
    ultimately show ?thesis using Cons.IH [OF _ Cons.prems(2)] by (simp only:)
  next
    case True
    obtain ret0 led_cdev where su:
      "e_color_element_setup_of E w (cdev led_data) idx c = (ret0, led_cdev)"
      by (cases "e_color_element_setup_of E w (cdev led_data) idx c")
    let ?w0 = "w @ [Ev_color_element_setup_of idx ret0]"
    show ?thesis
    proof (cases "ret0 = 0")
      case False
      with Cons.prems(1) True su have
        "r = Some ret0" "led_data' = led_data\<lparr>cdev := led_cdev\<rparr>" "w' = ?w0"
        by (auto simp: Let_def)
      with False show ?thesis by simp
    next
      case ok: True
      from Cons.prems(1) True su ok have inb: "unat idx < length (elements led_data)"
        by (auto simp: Let_def split: if_splits)
      obtain p w1 where rq: "request_pwm E led (Of_pwm_get c) ?w0 = (p, w1)"
        by (cases "request_pwm E led (Of_pwm_get c) ?w0")
      show ?thesis
      proof (cases "IS_ERR p")
        case err: True
        with Cons.prems(1) True su ok inb rq obtain el where
          r: "r = Some (PTR_ERR p)" "w' = w1"
            "led_data' = led_data\<lparr>cdev := led_cdev,
                elements := (elements led_data)[unat idx := el]\<rparr>"
          by (auto simp: Let_def)
        from request_pwm_failed [OF rq err] obtain evs where
          evs: "w1 = ?w0 @ evs" "registered evs = []" "unregistered evs = []"
            "reported_periods evs = []" "PTR_ERR p \<noteq> 0"
            "list_ex is_deferred evs \<longrightarrow>
              PTR_ERR p = - EPROBE_DEFER \<and> \<not> list_ex is_dev_err evs \<and>
              evs \<noteq> [] \<and> is_deferred (last evs)"
          by blast
        have "w' = w @ (Ev_color_element_setup_of idx ret0 # evs)" using r evs by simp
        with r evs show ?thesis
          by (intro exI [of _ "Ev_color_element_setup_of idx ret0 # evs"]) auto
      next
        case good: False
        obtain per w2 where rd: "read_pwm_args E p w1 = (per, w2)"
          by (cases "read_pwm_args E p w1")
        let ?el = "(elements led_data ! unat idx)
                    \<lparr>element_index := idx,
                     active_low := (if dn_active_low c then 1 else 0),
                     pwm := p, period := per\<rparr>"
        let ?ld = "led_data\<lparr>cdev := led_cdev,
                     elements := (elements led_data)[unat idx := ?el]\<rparr>"
        from Cons.prems(1) True su ok inb rq good rd have
          rec: "led_pwm_add_multi_elements E led cs ?ld (idx + 1) w2 = Inr (r, led_data', w')"
          by (simp add: Let_def)
        have len: "length (elements ?ld) < 2 ^ 32" using Cons.prems(2) by simp
        from Cons.IH [OF rec len] obtain evs3 where
          3: "w' = w2 @ evs3" "registered evs3 = []" "unregistered evs3 = []"
             "case r of
                None \<Rightarrow> \<not> list_ex is_dev_err evs3 \<and> \<not> list_ex is_deferred evs3 \<and>
                  length (reported_periods evs3) =
                    length (filter is_element_node cs)
              | Some ret \<Rightarrow> ret \<noteq> 0 \<and>
                  (list_ex is_deferred evs3 \<longrightarrow>
                     ret = - EPROBE_DEFER \<and> \<not> list_ex is_dev_err evs3 \<and>
                     evs3 \<noteq> [] \<and> is_deferred (last evs3))"
             "length (elements led_data') = length (elements ?ld)"
             "take (unat (idx + 1)) (elements led_data') = take (unat (idx + 1)) (elements ?ld)"
             "map (\<lambda>e. (pwm e, period e))
                (take (length (reported_periods evs3))
                   (drop (unat (idx + 1)) (elements led_data'))) = reported_periods evs3"
          by blast
        from request_pwm_ok [OF rq good] obtain evs1 where
          1: "w1 = ?w0 @ evs1" "quiet evs1" "reported_periods evs1 = []" by blast
        from read_pwm_args_quiet [OF rd] obtain evs2 where
          2: "w2 = w1 @ evs2" "quiet evs2" "reported_periods evs2 = [(p, per)]" by blast
        let ?pre = "Ev_color_element_setup_of idx ret0 # evs1 @ evs2"
        have qpre: "quiet ?pre" using 1(2) 2(2) by (simp add: quiet_def registered_append unregistered_append)
        have rpre: "reported_periods ?pre = [(p, per)]"
          using 1(3) 2(3) by (simp add: reported_periods_append)
        have suc: "unat (idx + 1) = Suc (unat idx)"
          by (rule unat_Suc_u32 [OF inb Cons.prems(2)])
        have len': "length (elements led_data') = length (elements led_data)"
          using 3(5) by simp
        have tk: "take (Suc (unat idx)) (elements led_data') =
                  take (Suc (unat idx)) ((elements led_data)[unat idx := ?el])"
          using 3(6) suc by simp
        have at: "elements led_data' ! unat idx = ?el"
          using nth_from_take [OF tk] inb len' by simp
        have keep: "take (unat idx) (elements led_data') = take (unat idx) (elements led_data)"
          by (rule take_from_take [OF tk])
        have w': "w' = w @ (?pre @ evs3)" using 1 2 3 by simp
        have reg: "registered (?pre @ evs3) = []" "unregistered (?pre @ evs3) = []"
          using qpre 3(2,3) by (simp_all add: quiet_def registered_append unregistered_append del: append_Cons)
        have rp: "reported_periods (?pre @ evs3) = (p, per) # reported_periods evs3"
          using rpre by (simp add: reported_periods_append del: append_Cons)
        have per: "map (\<lambda>e. (pwm e, period e))
                     (take (length (reported_periods (?pre @ evs3)))
                        (drop (unat idx) (elements led_data'))) =
                   reported_periods (?pre @ evs3)"
          unfolding rp using 3(7) at inb len' suc
          by (simp add: take_Suc_drop)
        have res: "case r of
            None \<Rightarrow> \<not> list_ex is_dev_err (?pre @ evs3) \<and> \<not> list_ex is_deferred (?pre @ evs3) \<and>
                length (reported_periods (?pre @ evs3)) =
                  length (filter is_element_node (c # cs))
          | Some ret \<Rightarrow> ret \<noteq> 0 \<and>
              (list_ex is_deferred (?pre @ evs3) \<longrightarrow>
                 ret = - EPROBE_DEFER \<and> \<not> list_ex is_dev_err (?pre @ evs3) \<and>
                 ?pre @ evs3 \<noteq> [] \<and> is_deferred (last (?pre @ evs3)))"
        proof (cases r)
          case None
          with 3(4) qpre rp True show ?thesis
            by (simp add: quiet_def del: append_Cons)
        next
          case (Some ret)
          with 3(4) qpre show ?thesis
            by (auto simp: quiet_def simp del: append_Cons)
        qed
        from w' reg res len' keep per show ?thesis by blast
      qed
    qed
  qed
qed

lemma led_pwm_add_multi_outcome:
  assumes run: "led_pwm_add_multi E priv led child n w = Inr (ret, priv', w')"
  shows "\<exists>evs. w' = w @ evs \<and> add_outcome (num_leds priv) ret (num_leds priv') evs \<and>
           length (leds priv') = length (leds priv) \<and>
           map (\<lambda>e. (pwm e, period e))
             (take (length (reported_periods evs)) (elements (leds priv' ! nat (num_leds priv)))) =
           reported_periods evs \<and>
           (ret = 0 \<longrightarrow> length (reported_periods evs) =
                           length (filter is_element_node (dn_children child)))"
proof -
  let ?k = "num_leds priv"
  from run have k: "0 \<le> ?k" "nat ?k < length (leds priv)"
    by (auto simp: led_pwm_add_multi_def split: if_splits)
  let ?cd = "(cdev (leds priv ! nat ?k))
              \<lparr>cd_name := lp_name led, default_trigger := lp_default_trigger led,
               brightness := LED_OFF, max_brightness := lp_max_brightness led,
               flags := [LED_CORE_SUSPENDRESUME, LED_MULTI_COLOR_LED],
               color_elements := replicate (unat n) zero_color_element\<rparr>"
  let ?ld = "\<lparr>cdev = ?cd, elements = replicate (unat n) zero_element\<rparr>"
  have len: "length (elements ?ld) < 2 ^ 32"
    using unsigned_less [of n, where 'a = nat] by simp
  obtain r led_data1 w1 where
    loop: "led_pwm_add_multi_elements E led (dn_children child) ?ld 0 w = Inr (r, led_data1, w1)"
    using run k
    by (cases "led_pwm_add_multi_elements E led (dn_children child) ?ld 0 w")
       (auto simp: led_pwm_add_multi_def Let_def split: if_splits)
  from led_pwm_add_multi_elements_outcome [OF loop len] obtain evs1 where
    1: "w1 = w @ evs1" "registered evs1 = []" "unregistered evs1 = []"
       "case r of
          None \<Rightarrow> \<not> list_ex is_dev_err evs1 \<and> \<not> list_ex is_deferred evs1 \<and>
            length (reported_periods evs1) = length (filter is_element_node (dn_children child))
        | Some ret \<Rightarrow> ret \<noteq> 0 \<and>
            (list_ex is_deferred evs1 \<longrightarrow>
               ret = - EPROBE_DEFER \<and> \<not> list_ex is_dev_err evs1 \<and>
               evs1 \<noteq> [] \<and> is_deferred (last evs1))"
       "map (\<lambda>e. (pwm e, period e))
          (take (length (reported_periods evs1)) (elements led_data1)) = reported_periods evs1"
    by auto
  show ?thesis
  proof (cases r)
    case (Some ret1)
    with run k loop have
      r: "ret = ret1" "priv' = store_led priv (nat ?k) led_data1" "w' = w1"
      by (auto simp: led_pwm_add_multi_def Let_def split: if_splits)
    have "add_outcome ?k ret (num_leds priv') evs1"
      using add_outcome_failed_request [OF 1(2,3), of ret ?k] 1(4) Some r
      by (simp add: store_led_def)
    moreover have "ret \<noteq> 0" using 1(4) Some r by simp
    ultimately show ?thesis using 1 r k by (auto simp: store_led_def)
  next
    case None
    let ?ld1 = "led_data1\<lparr>cdev := (cdev led_data1)\<lparr>brightness_set_blocking := True\<rparr>\<rparr>"
    from run k loop None have
      reg: "register_led E False priv led ?ld1 w1 = Inr (ret, priv', w')"
      by (auto simp: led_pwm_add_multi_def Let_def split: if_splits)
    from register_led_outcome [OF reg] k obtain evs3 where
      3: "w' = w1 @ evs3" "add_outcome ?k ret (num_leds priv') evs3"
         "reported_periods evs3 = []" "length (leds priv') = length (leds priv)"
         "map (\<lambda>e. (pwm e, period e)) (elements (leds priv' ! nat ?k)) =
          map (\<lambda>e. (pwm e, period e)) (elements led_data1)"
      by auto
    have q: "quiet evs1" using 1(2,3,4) None by (simp add: quiet_def)
    have "w' = w @ (evs1 @ evs3)" using 1(1) 3(1) by simp
    moreover have "add_outcome ?k ret (num_leds priv') (evs1 @ evs3)"
      by (rule add_outcome_after_quiet [OF q 3(2)])
    moreover have rp: "reported_periods (evs1 @ evs3) = reported_periods evs1"
      using 3(3) by (simp add: reported_periods_append)
    moreover have "map (\<lambda>e. (pwm e, period e))
             (take (length (reported_periods (evs1 @ evs3))) (elements (leds priv' ! nat ?k))) =
           reported_periods (evs1 @ evs3)"
      unfolding rp take_map [symmetric] 3(5) using 1(5) by (simp only: take_map)
    moreover have "length (reported_periods (evs1 @ evs3)) =
                     length (filter is_element_node (dn_children child))"
      unfolding rp using 1(4) None by simp
    ultimately show ?thesis using 3(4) by blast
  qed
qed

lemma construct_outcome_Nil: "construct_outcome k 0 k []"
  by (simp add: construct_outcome_def)

lemma construct_outcome_stop:
  assumes "add_outcome k ret k' evs" "ret \<noteq> 0"
  shows "construct_outcome k ret k' evs"
  using assms by (simp add: add_outcome_def construct_outcome_def)

lemma construct_outcome_step:
  assumes "add_outcome k 0 k1 evs1" "construct_outcome k1 ret k' evs2" "0 \<le> k"
  shows "construct_outcome k ret k' (evs1 @ evs2)"
proof -
  from assms(1) have a: "unregistered evs1 = []" "k1 = k + 1" "registered evs1 = [nat k]"
    "\<not> list_ex is_dev_err evs1" "\<not> list_ex is_deferred evs1"
    by (simp_all add: add_outcome_def)
  from assms(2) have b: "unregistered evs2 = []" "k1 \<le> k'" "registered evs2 = [nat k1 ..< nat k']"
    "list_ex is_deferred evs2 \<longrightarrow>
         ret = - EPROBE_DEFER \<and> \<not> list_ex is_dev_err evs2 \<and>
         evs2 \<noteq> [] \<and> is_deferred (last evs2)"
    by (simp_all add: construct_outcome_def)
  have "nat k1 = Suc (nat k)" using a(2) assms(3) by simp
  moreover have "nat k < nat k'" using a(2) b(2) assms(3) by simp
  ultimately have "nat k # [nat k1 ..< nat k'] = [nat k ..< nat k']"
    by (simp add: upt_conv_Cons)
  then have "registered (evs1 @ evs2) = [nat k ..< nat k']"
    using a(3) b(3) by (simp add: registered_append)
  then show ?thesis using a b
    by (auto simp: construct_outcome_def unregistered_append)
qed

lemma led_pwm_probe_platdata_outcome:
  "led_pwm_probe_platdata E priv ls w = Inr (ret, priv', w') \<Longrightarrow> 0 \<le> num_leds priv \<Longrightarrow>
     \<exists>evs. w' = w @ evs \<and> construct_outcome (num_leds priv) ret (num_leds priv') evs"
proof (induction ls arbitrary: priv w)
  case Nil
  then show ?case using construct_outcome_Nil by auto
next
  case (Cons led rest)
  from Cons.prems(1) obtain ret1 priv1 w1 where
    one: "led_pwm_add_single E priv led None w = Inr (ret1, priv1, w1)"
    by (auto split: sum.splits)
  from led_pwm_add_single_outcome [OF one] obtain evs1 where
    1: "w1 = w @ evs1" "add_outcome (num_leds priv) ret1 (num_leds priv1) evs1" by blast
  show ?case
  proof (cases "ret1 = 0")
    case False
    with Cons.prems(1) one have "ret = ret1" "priv' = priv1" "w' = w1" by simp_all
    with 1 construct_outcome_stop [OF 1(2) False] show ?thesis by blast
  next
    case True
    with Cons.prems(1) one have
      rest: "led_pwm_probe_platdata E priv1 rest w1 = Inr (ret, priv', w')" by simp
    have k1: "0 \<le> num_leds priv1" using 1(2) True Cons.prems(2) by (simp add: add_outcome_def)
    from Cons.IH [OF rest k1] obtain evs2 where
      2: "w' = w1 @ evs2" "construct_outcome (num_leds priv1) ret (num_leds priv') evs2" by blast
    have "w' = w @ (evs1 @ evs2)" using 1(1) 2(1) by simp
    moreover have "construct_outcome (num_leds priv) ret (num_leds priv') (evs1 @ evs2)"
      using construct_outcome_step [OF _ 2(2) Cons.prems(2)] 1(2) True by simp
    ultimately show ?thesis by blast
  qed
qed

lemma led_pwm_create_of_child_outcome:
  assumes "led_pwm_create_of_child E priv led child w = (led', Inr (ret, priv', w'))"
  shows "\<exists>evs. w' = w @ evs \<and> add_outcome (num_leds priv) ret (num_leds priv') evs"
proof (cases "length (filter is_element_node (dn_children child)) \<noteq> 0")
  case True
  with assms obtain led1 n where
    "led_pwm_add_multi E priv led1 child n w = Inr (ret, priv', w')"
    by (auto simp: led_pwm_create_of_child_def Let_def)
  from led_pwm_add_multi_outcome [OF this] show ?thesis by blast
next
  case False
  with assms obtain led1 where
    "led_pwm_add_single E priv led1 (Some child) w = Inr (ret, priv', w')"
    by (auto simp: led_pwm_create_of_child_def Let_def)
  from led_pwm_add_single_outcome [OF this] show ?thesis by blast
qed

lemma led_pwm_create_of_children_outcome:
  "led_pwm_create_of_children E priv led cs w = Inr (ret, priv', w') \<Longrightarrow> 0 \<le> num_leds priv \<Longrightarrow>
     \<exists>evs. w' = w @ evs \<and> construct_outcome (num_leds priv) ret (num_leds priv') evs"
proof (induction cs arbitrary: priv led w)
  case Nil
  then show ?case using construct_outcome_Nil by auto
next
  case (Cons child rest)
  from Cons.prems(1) obtain led1 ret1 priv1 w1 where
    one: "led_pwm_create_of_child E priv led child w = (led1, Inr (ret1, priv1, w1))"
    by (auto split: prod.splits sum.splits)
  from led_pwm_create_of_child_outcome [OF one] obtain evs1 where
    1: "w1 = w @ evs1" "add_outcome (num_leds priv) ret1 (num_leds priv1) evs1" by blast
  show ?case
  proof (cases "ret1 = 0")
    case False
    with Cons.prems(1) one have "ret = ret1" "priv' = priv1" "w' = w1" by simp_all
    with 1 construct_outcome_stop [OF 1(2) False] show ?thesis by blast
  next
    case True
    with Cons.prems(1) one have
      rest: "led_pwm_create_of_children E priv1 led1 rest w1 = Inr (ret, priv', w')" by simp
    have k1: "0 \<le> num_leds priv1" using 1(2) True Cons.prems(2) by (simp add: add_outcome_def)
    from Cons.IH [OF rest k1] obtain evs2 where
      2: "w' = w1 @ evs2" "construct_outcome (num_leds priv1) ret (num_leds priv') evs2" by blast
    have "w' = w @ (evs1 @ evs2)" using 1(1) 2(1) by simp
    moreover have "construct_outcome (num_leds priv) ret (num_leds priv') (evs1 @ evs2)"
      using construct_outcome_step [OF _ 2(2) Cons.prems(2)] 1(2) True by simp
    ultimately show ?thesis by blast
  qed
qed

lemma led_pwm_cleanup_events:
  "led_pwm_cleanup priv w = Inr (priv', w') \<Longrightarrow> nat (num_leds priv) = n \<Longrightarrow>
     0 \<le> num_leds priv \<Longrightarrow> w' = w @ map Ev_unregister (rev [0..<n])"
proof (induction n arbitrary: priv w)
  case 0
  then have "num_leds priv = 0" by simp
  with "0.prems"(1) show ?case
    by (simp add: led_pwm_cleanup.simps [of priv w])
next
  case (Suc n)
  let ?priv = "priv\<lparr>num_leds := num_leds priv - 1\<rparr>"
  from Suc.prems have k: "num_leds priv = int (Suc n)" by simp
  with Suc.prems(1) have
    rec: "led_pwm_cleanup ?priv (w @ [Ev_unregister n]) = Inr (priv', w')"
    by (simp add: led_pwm_cleanup.simps [of priv w] led_pwm_data_cleanup_def Let_def
        split: if_splits)
  have "w' = (w @ [Ev_unregister n]) @ map Ev_unregister (rev [0..<n])"
    by (rule Suc.IH [OF rec]) (use k in simp_all)
  then show ?case by simp
qed

lemma still_registered_append:
  "still_registered regs (xs @ ys) = still_registered (still_registered regs xs) ys"
  by (induction regs xs rule: still_registered.induct) simp_all

lemma still_registered_construct:
  "unregistered evs = [] \<Longrightarrow> still_registered regs evs = regs @ registered evs"
  by (induction regs evs rule: still_registered.induct) (simp_all split: if_splits)

lemma still_registered_unregister:
  "still_registered regs (map Ev_unregister xs) = filter (\<lambda>s. s \<notin> set xs) regs"
proof (induction xs arbitrary: regs)
  case Nil
  then show ?case by simp
next
  case (Cons x xs)
  have "filter (\<lambda>s. s \<notin> set xs) (removeAll x regs) = filter (\<lambda>s. s \<notin> set (x # xs)) regs"
    by (induction regs) auto
  with Cons show ?case by simp
qed

lemma list_ex_unregister [simp]:
  "\<not> list_ex is_deferred (map Ev_unregister xs)" "\<not> list_ex is_dev_err (map Ev_unregister xs)"
  by (induction xs) simp_all

lemmas build_defs = led_pwm_probe_def led_pwm_add_single_def led_pwm_add_multi_def
  register_led_def request_pwm_def read_pwm_args_def store_led_def led_pwm_data_cleanup_def
  led_pwm_create_of_def led_pwm_create_of_child_def is_element_node_def
  IS_ERR_def PTR_ERR_def MAX_ERRNO_def EPROBE_DEFER_def EINVAL_def ENOMEM_def
  LED_OFF_def zero_color_element_def zero_classdev_def zero_element_def zero_led_pwm_data_def
  zero_led_pwm_def register_ok_def setup_ok_def env_deferred_def env_no_period_def
  three_leds_def rgb_node_def one_slot_def

text \<open>Runs of the construction on the samples.\<close>

lemma single_run:
  "led_pwm_add_single env_no_period one_slot (hd three_leds) None [] =
   Inr (0, \<lparr>num_leds = 1,
            leds =
              [\<lparr>cdev =
                  \<lparr>cd_name = ''led0'', default_trigger = None,
                     brightness = 0, max_brightness = 255,
                     flags = [LED_CORE_SUSPENDRESUME],
                     color_elements =
                       [\<lparr>ce_name = ''single'', ce_value = 255,
                           ce_max_value = 255, ce_raw_value = 0\<rparr>],
                     brightness_set_blocking = True\<rparr>,
                  elements =
                    [\<lparr>element_index = 0, pwm = 4096, active_low = 0,
                        period = 5000, duty = 0\<rparr>]\<rparr>]\<rparr>,
      [Ev_pwm_get (Pwm_get ''led0'') 4096, Ev_pwm_apply_args 4096,
       Ev_pwm_get_args 4096 0, Ev_register 0 0, Ev_scale 0,
       Ev_pwm (Pwm_config 4096 0 5000) 0, Ev_pwm (Pwm_disable 4096) 0])"
  by (simp add: build_defs sample_defs)

lemma multi_run:
  "led_pwm_add_multi env_sample one_slot (hd three_leds) rgb_node 3 [] =
   Inr (0, \<lparr>num_leds = 1,
            leds =
              [\<lparr>cdev =
                  \<lparr>cd_name = ''led0'', default_trigger = None,
                     brightness = 0, max_brightness = 255,
                     flags = [LED_CORE_SUSPENDRESUME, LED_MULTI_COLOR_LED],
                     color_elements =
                       [\<lparr>ce_name = ''element-red'', ce_value = 255,
                           ce_max_value = 255, ce_raw_value = 0\<rparr>,
                        \<lparr>ce_name = ''element-green'', ce_value = 255,
                           ce_max_value = 255, ce_raw_value = 0\<rparr>,
                        \<lparr>ce_name = ''element-blue'', ce_value = 255,
                           ce_max_value = 255, ce_raw_value = 0\<rparr>],
                     brightness_set_blocking = True\<rparr>,
                  elements =
                    [\<lparr>element_index = 0, pwm = 4097, active_low = 0,
                        period = 1000, duty = 0\<rparr>,
                     \<lparr>element_index = 1, pwm = 4101, active_low = 1,
                        period = 1000, duty = 1000\<rparr>,
                     \<lparr>element_index = 2, pwm = 4105, active_low = 0,
                        period = 1000, duty = 0\<rparr>]\<rparr>]\<rparr>,
      [Ev_color_element_setup_of 0 0,
       Ev_pwm_get
        (Of_pwm_get (Device_node ''element-red'' None None None False []))
        4097,
       Ev_pwm_apply_args 4097, Ev_pwm_get_args 4097 1000,
       Ev_color_element_setup_of 1 0,
       Ev_pwm_get
        (Of_pwm_get (Device_node ''element-green'' None None None True []))
        4101,
       Ev_pwm_apply_args 4101, Ev_pwm_get_args 4101 1000,
       Ev_color_element_setup_of 2 0,
       Ev_pwm_get
        (Of_pwm_get (Device_node ''element-blue'' None None None False []))
        4105,
       Ev_pwm_apply_args 4105, Ev_pwm_get_args 4105 1000, Ev_register 0 0,
       Ev_scale 0, Ev_pwm (Pwm_config 4097 0 1000) 0,
       Ev_pwm (Pwm_disable 4097) 0, Ev_pwm (Pwm_config 4101 1000 1000) 0,
       Ev_pwm (Pwm_enable 4101) 0, Ev_pwm (Pwm_config 4105 0 1000) 0,
       Ev_pwm (Pwm_disable 4105) 0])"
  by code_simp

lemma deferred_run:
  "led_pwm_probe env_deferred \<lparr>pd_platdata = Some three_leds, pd_of_node = None\<rparr> [] =
   Inr (- 517, None,
      [Ev_pwm_get (Pwm_get ''led0'') 4096, Ev_pwm_apply_args 4096,
       Ev_pwm_get_args 4096 1000, Ev_register 0 0, Ev_scale 0,
       Ev_pwm (Pwm_config 4096 0 1000) 0, Ev_pwm (Pwm_disable 4096) 0,
       Ev_pwm_get (Pwm_get ''led1'') (- 517), Ev_unregister 0])"
  by (simp add: build_defs sample_defs led_pwm_cleanup.simps)

section \<open>Channels acquired and never released\<close>

text \<open>
  No step of the construction emits a release: the releases in the trace after a run
  are those that were there before it.
\<close>

lemma is_pwm_no_put: "list_all is_pwm evs \<Longrightarrow> filter is_pwm_put evs = []"
proof (induction evs)
  case Nil
  then show ?case by simp
next
  case (Cons ev evs)
  then show ?case by (cases ev) simp_all
qed

lemma led_pwm_set_no_put:
  assumes "led_pwm_set E led_dat b w = Inr (r, led_dat', w')"
  shows "filter is_pwm_put w' = filter is_pwm_put w"
proof -
  from led_pwm_set_frame_parts(2) [OF assms] obtain evs where
    "w' = w @ Ev_scale b # evs" "list_all is_pwm evs" by blast
  with is_pwm_no_put [of evs] show ?thesis by simp
qed

lemma request_pwm_no_put:
  "request_pwm E led req w = (p, w') \<Longrightarrow> filter is_pwm_put w' = filter is_pwm_put w"
  by (auto simp: request_pwm_def Let_def split: if_splits)

lemma read_pwm_args_no_put:
  "read_pwm_args E p w = (per, w') \<Longrightarrow> filter is_pwm_put w' = filter is_pwm_put w"
  by (auto simp: read_pwm_args_def Let_def)

lemma register_led_no_put:
  assumes "register_led E single priv led led_data w = Inr (ret, priv', w')"
  shows "filter is_pwm_put w' = filter is_pwm_put w"
proof -
  obtain r led_cdev where reg: "e_register E w (cdev led_data) = (r, led_cdev)"
    by (cases "e_register E w (cdev led_data)")
  show ?thesis
  proof (cases "r = 0")
    case False
    with assms reg show ?thesis by (auto simp: register_led_def Let_def)
  next
    case True
    with assms reg obtain led_data1 b1 r2 led_data2 where
      "led_pwm_set E led_data1 b1 (w @ [Ev_register (nat (num_leds priv)) 0])
         = Inr (r2, led_data2, w')"
      by (auto simp: register_led_def Let_def split: if_splits sum.splits prod.splits)
    from led_pwm_set_no_put [OF this] show ?thesis by simp
  qed
qed

lemma led_pwm_add_single_no_put:
  assumes run: "led_pwm_add_single E priv led child w = Inr (ret, priv', w')"
  shows "filter is_pwm_put w' = filter is_pwm_put w"
proof -
  let ?req = "case child of Some node \<Rightarrow> Of_pwm_get node | None \<Rightarrow> Pwm_get (lp_name led)"
  obtain p w1 where rq: "request_pwm E led ?req w = (p, w1)"
    by (cases "request_pwm E led ?req w")
  note 1 = request_pwm_no_put [OF rq]
  show ?thesis
  proof (cases "IS_ERR p")
    case True
    with run rq have "w' = w1"
      by (auto simp: led_pwm_add_single_def Let_def split: if_splits)
    with 1 show ?thesis by simp
  next
    case False
    obtain per w2 where rd: "read_pwm_args E p w1 = (per, w2)"
      by (cases "read_pwm_args E p w1")
    from run rq rd False obtain led_data where
      "register_led E True priv led led_data w2 = Inr (ret, priv', w')"
      by (auto simp: led_pwm_add_single_def Let_def split: if_splits)
    from register_led_no_put [OF this] read_pwm_args_no_put [OF rd] 1
    show ?thesis by simp
  qed
qed

lemma led_pwm_add_multi_elements_no_put:
  "led_pwm_add_multi_elements E led children led_data idx w = Inr (r, led_data', w') \<Longrightarrow>
     filter is_pwm_put w' = filter is_pwm_put w"
proof (induction children arbitrary: led_data idx w)
  case Nil
  then show ?case by simp
next
  case (Cons c cs)
  show ?case
  proof (cases "is_element_node c")
    case False
    with Cons.prems have
      "led_pwm_add_multi_elements E led cs led_data idx w = Inr (r, led_data', w')" by simp
    from Cons.IH [OF this] show ?thesis .
  next
    case True
    obtain ret0 led_cdev where su:
      "e_color_element_setup_of E w (cdev led_data) idx c = (ret0, led_cdev)"
      by (cases "e_color_element_setup_of E w (cdev led_data) idx c")
    let ?w0 = "w @ [Ev_color_element_setup_of idx ret0]"
    show ?thesis
    proof (cases "ret0 = 0")
      case False
      with Cons.prems True su have "w' = ?w0" by (auto simp: Let_def)
      then show ?thesis by simp
    next
      case ok: True
      obtain p w1 where rq: "request_pwm E led (Of_pwm_get c) ?w0 = (p, w1)"
        by (cases "request_pwm E led (Of_pwm_get c) ?w0")
      have 1: "filter is_pwm_put w1 = filter is_pwm_put w"
        using request_pwm_no_put [OF rq] by simp
      show ?thesis
      proof (cases "IS_ERR p")
        case err: True
        with Cons.prems True su ok rq have "w' = w1"
          by (auto simp: Let_def split: if_splits)
        with 1 show ?thesis by simp
      next
        case good: False
        obtain per w2 where rd: "read_pwm_args E p w1 = (per, w2)"
          by (cases "read_pwm_args E p w1")
        from Cons.prems True su ok rq good rd obtain ld where
          "led_pwm_add_multi_elements E led cs ld (idx + 1) w2 = Inr (r, led_data', w')"
          by (auto simp: Let_def split: if_splits)
        from Cons.IH [OF this] read_pwm_args_no_put [OF rd] 1 show ?thesis by simp
      qed
    qed
  qed
qed

lemma led_pwm_add_multi_no_put:
  assumes run: "led_pwm_add_multi E priv led child n w = Inr (ret, priv', w')"
  shows "filter is_pwm_put w' = filter is_pwm_put w"
proof -
  let ?k = "num_leds priv"
  from run have k: "0 \<le> ?k" "nat ?k < length (leds priv)"
    by (auto simp: led_pwm_add_multi_def split: if_splits)
  let ?cd = "(cdev (leds priv ! nat ?k))
              \<lparr>cd_name := lp_name led, default_trigger := lp_default_trigger led,
               brightness := LED_OFF, max_brightness := lp_max_brightness led,
               flags := [LED_CORE_SUSPENDRESUME, LED_MULTI_COLOR_LED],
               color_elements := replicate (unat n) zero_color_element\<rparr>"
  let ?ld = "\<lparr>cdev = ?cd, elements = replicate (unat n) zero_element\<rparr>"
  obtain r led_data1 w1 where
    loop: "led_pwm_add_multi_elements E led (dn_children child) ?ld 0 w = Inr (r, led_data1, w1)"
    using run k
    by (cases "led_pwm_add_multi_elements E led (dn_children child) ?ld 0 w")
       (auto simp: led_pwm_add_multi_def Let_def split: if_splits)
  note 1 = led_pwm_add_multi_elements_no_put [OF loop]
  show ?thesis
  proof (cases r)
    case (Some ret1)
    with run k loop have "w' = w1"
      by (auto simp: led_pwm_add_multi_def Let_def split: if_splits)
    with 1 show ?thesis by simp
  next
    case None
    let ?ld1 = "led_data1\<lparr>cdev := (cdev led_data1)\<lparr>brightness_set_blocking := True\<rparr>\<rparr>"
    from run k loop None have
      "register_led E False priv led ?ld1 w1 = Inr (ret, priv', w')"
      by (auto simp: led_pwm_add_multi_def Let_def split: if_splits)
    from register_led_no_put [OF this] 1 show ?thesis by simp
  qed
qed

lemma led_pwm_create_of_child_no_put:
  assumes "led_pwm_create_of_child E priv led child w = (led', Inr (ret, priv', w'))"
  shows "filter is_pwm_put w' = filter is_pwm_put w"
proof (cases "length (filter is_element_node (dn_children child)) \<noteq> 0")
  case True
  with assms obtain led1 n where
    "led_pwm_add_multi E priv led1 child n w = Inr (ret, priv', w')"
    by (auto simp: led_pwm_create_of_child_def Let_def)
  from led_pwm_add_multi_no_put [OF this] show ?thesis .
next
  case False
  with assms obtain led1 where
    "led_pwm_add_single E priv led1 (Some child) w = Inr (ret, priv', w')"
    by (auto simp: led_pwm_create_of_child_def Let_def)
  from led_pwm_add_single_no_put [OF this] show ?thesis .
qed

lemma led_pwm_create_of_children_no_put:
  "led_pwm_create_of_children E priv led cs w = Inr (ret, priv', w') \<Longrightarrow>
     filter is_pwm_put w' = filter is_pwm_put w"
proof (induction cs arbitrary: priv led w)
  case Nil
  then show ?case by simp
next
  case (Cons child rest)
  from Cons.prems obtain led1 ret1 priv1 w1 where
    one: "led_pwm_create_of_child E priv led child w = (led1, Inr (ret1, priv1, w1))"
    by (auto split: prod.splits sum.splits)
  note 1 = led_pwm_create_of_child_no_put [OF one]
  show ?case
  proof (cases "ret1 = 0")
    case False
    with Cons.prems one have "w' = w1" by simp
    with 1 show ?thesis by simp
  next
    case True
    with Cons.prems one have
      "led_pwm_create_of_children E priv1 led1 rest w1 = Inr (ret, priv', w')" by simp
    from Cons.IH [OF this] 1 show ?thesis by simp
  qed
qed

lemma led_pwm_probe_platdata_no_put:
  "led_pwm_probe_platdata E priv ls w = Inr (ret, priv', w') \<Longrightarrow>
     filter is_pwm_put w' = filter is_pwm_put w"
proof (induction ls arbitrary: priv w)
  case Nil
  then show ?case by simp
next
  case (Cons led rest)
  from Cons.prems obtain ret1 priv1 w1 where
    one: "led_pwm_add_single E priv led None w = Inr (ret1, priv1, w1)"
    by (auto split: sum.splits)
  note 1 = led_pwm_add_single_no_put [OF one]
  show ?case
  proof (cases "ret1 = 0")
    case False
    with Cons.prems one have "w' = w1" by simp
    with 1 show ?thesis by simp
  next
    case True
    with Cons.prems one have
      "led_pwm_probe_platdata E priv1 rest w1 = Inr (ret, priv', w')" by simp
    from Cons.IH [OF this] 1 show ?thesis by simp
  qed
qed

lemma held_no_put: "filter is_pwm_put evs = [] \<Longrightarrow> held hs evs = hs @ acquired evs"
  by (induction hs evs rule: held.induct) (simp_all split: if_splits)

lemma list_ex_filter_Nil: "filter P xs = [] \<Longrightarrow> \<not> list_ex P xs"
  by (simp add: list_ex_iff filter_empty_conv)

section \<open>A construction that goes through\<close>

text \<open>
  With collaborators that cooperate, the construction of a single-channel LED in a free
  entry of \<open>priv->leds\<close> has a result, and so has the cleanup.
\<close>

lemma led_pwm_cleanup_Inr:
  "nat (num_leds priv) = n \<Longrightarrow> 0 \<le> num_leds priv \<Longrightarrow> n \<le> length (leds priv) \<Longrightarrow>
     \<exists>priv' w'. led_pwm_cleanup priv w = Inr (priv', w')"
proof (induction n arbitrary: priv w)
  case 0
  then have "num_leds priv = 0" by simp
  then show ?case by (simp add: led_pwm_cleanup.simps [of priv w])
next
  case (Suc n)
  let ?priv = "priv\<lparr>num_leds := num_leds priv - 1\<rparr>"
  from Suc.prems have k: "num_leds priv = int (Suc n)" by simp
  have "\<exists>priv' w'. led_pwm_cleanup ?priv (w @ [Ev_unregister n]) = Inr (priv', w')"
    by (rule Suc.IH) (use k Suc.prems in simp_all)
  moreover have "led_pwm_cleanup priv w = led_pwm_cleanup ?priv (w @ [Ev_unregister n])"
    using k Suc.prems(3)
    by (simp add: led_pwm_cleanup.simps [of priv w] led_pwm_data_cleanup_def Let_def)
  ultimately show ?case by simp
qed

lemma led_pwm_set_single_Inr:
  assumes coop: "cooperative E"
    and ces: "map ce_max_value (color_elements (cdev led_dat)) = [mv]" "mv \<noteq> 0"
    and els: "elements led_dat = [elem]" "element_index elem = 0"
  shows "\<exists>led_dat' w'. led_pwm_set E led_dat b w = Inr (0, led_dat', w')"
proof -
  let ?ces = "color_elements (e_scale E w (cdev led_dat) b)"
  have m: "map ce_max_value ?ces = [mv]"
    using coop ces(1) by (simp add: cooperative_def)
  then have "length ?ces = 1" by (metis length_map length_Cons list.size(3) One_nat_def)
  moreover have "ce_max_value (?ces ! 0) = mv"
    using m by (metis length_greater_0_conv list.simps(3) map_is_Nil_conv nth_Cons_0 nth_map)
  ultimately have "\<forall>e \<in> set (elements led_dat). processed e \<longrightarrow>
      nat (sint (element_index e)) < length ?ces \<and> ce_max_value (own_color_element ?ces e) \<noteq> 0"
    using els ces(2) by (simp add: own_color_element_def)
  from led_pwm_set_elements_Inr [OF this] obtain els' w' where
    "led_pwm_set_elements E ?ces (elements led_dat) (w @ [Ev_scale b]) = Inr (els', w')"
    by blast
  then show ?thesis by (simp add: led_pwm_set_def Let_def)
qed

lemma register_led_single_Inr:
  assumes coop: "cooperative E"
    and ces: "length (color_elements (cdev led_data)) = 1"
    and els: "elements led_data = [elem]" "element_index elem = 0"
  shows "\<exists>priv' w'. register_led E True priv led led_data w = Inr (0, priv', w')"
proof -
  obtain r led_cdev where reg: "e_register E w (cdev led_data) = (r, led_cdev)"
    by (cases "e_register E w (cdev led_data)")
  from coop have c: "fst (e_register E w (cdev led_data)) = 0"
    "length (color_elements (snd (e_register E w (cdev led_data)))) =
       length (color_elements (cdev led_data))"
    "max_brightness (snd (e_register E w (cdev led_data))) \<noteq> 0"
    by (simp_all add: cooperative_def)
  with reg ces have r: "r = 0" and len: "length (color_elements led_cdev) = 1"
    and mb: "max_brightness led_cdev \<noteq> 0" by simp_all
  from len obtain c0 where c0: "color_elements led_cdev = [c0]"
    by (cases "color_elements led_cdev") simp_all
  let ?cd = "led_cdev\<lparr>color_elements := (color_elements led_cdev)
                            [0 := (color_elements led_cdev ! 0)
                               \<lparr>ce_value := max_brightness led_cdev,
                                ce_max_value := max_brightness led_cdev\<rparr>]\<rparr>"
  let ?ld = "led_data\<lparr>cdev := ?cd\<rparr>"
  have "map ce_max_value (color_elements (cdev ?ld)) = [max_brightness led_cdev]"
    using c0 by simp
  from led_pwm_set_single_Inr [OF coop this mb, of elem "brightness led_cdev"
      "w @ [Ev_register (nat (num_leds priv)) 0]"] els
  obtain led_dat' w' where
    "led_pwm_set E ?ld (brightness led_cdev) (w @ [Ev_register (nat (num_leds priv)) 0])
       = Inr (0, led_dat', w')" by auto
  with reg r c0 show ?thesis
    by (simp add: register_led_def Let_def)
qed

lemma led_pwm_add_single_Inr:
  assumes coop: "cooperative E"
    and k: "0 \<le> num_leds priv" "nat (num_leds priv) < length (leds priv)"
    and ok: "\<not> IS_ERR (e_pwm_get E w
               (case child of Some node \<Rightarrow> Of_pwm_get node | None \<Rightarrow> Pwm_get (lp_name led)))"
  shows "\<exists>priv' w'. led_pwm_add_single E priv led child w = Inr (0, priv', w')"
proof -
  let ?req = "case child of Some node \<Rightarrow> Of_pwm_get node | None \<Rightarrow> Pwm_get (lp_name led)"
  obtain p w1 where rq: "request_pwm E led ?req w = (p, w1)"
    by (cases "request_pwm E led ?req w")
  from request_pwm_events [OF rq] ok have p: "\<not> IS_ERR p" by simp
  obtain per w2 where rd: "read_pwm_args E p w1 = (per, w2)"
    by (cases "read_pwm_args E p w1")
  let ?cd = "(cdev (leds priv ! nat (num_leds priv)))
              \<lparr>color_elements := [zero_color_element\<lparr>ce_name := ''single''\<rparr>],
               cd_name := lp_name led, default_trigger := lp_default_trigger led,
               brightness := LED_OFF, max_brightness := lp_max_brightness led,
               flags := [LED_CORE_SUSPENDRESUME], brightness_set_blocking := True\<rparr>"
  let ?el0 = "zero_element\<lparr>element_index := 0, active_low := lp_active_low led, pwm := p,
                period := per\<rparr>"
  let ?el = "if period ?el0 = 0 \<and> lp_pwm_period_ns led > 0
             then ?el0\<lparr>period := lp_pwm_period_ns led\<rparr> else ?el0"
  have g: "\<not> (num_leds priv < 0 \<or> int (length (leds priv)) \<le> num_leds priv)"
    using k by auto
  have run: "led_pwm_add_single E priv led child w =
               register_led E True priv led \<lparr>cdev = ?cd, elements = [?el]\<rparr> w2"
    using g rq rd p by (simp add: led_pwm_add_single_def Let_def)
  have "\<exists>priv' w'. register_led E True priv led \<lparr>cdev = ?cd, elements = [?el]\<rparr> w2
          = Inr (0, priv', w')"
    by (rule register_led_single_Inr [OF coop, where elem = ?el]) simp_all
  with run show ?thesis by simp
qed

lemma led_pwm_add_single_deferred:
  assumes k: "0 \<le> num_leds priv" "nat (num_leds priv) < length (leds priv)"
    and dfr: "e_pwm_get E w
               (case child of Some node \<Rightarrow> Of_pwm_get node | None \<Rightarrow> Pwm_get (lp_name led))
              = - EPROBE_DEFER"
  shows "\<exists>priv'. led_pwm_add_single E priv led child w =
           Inr (- EPROBE_DEFER, priv',
                w @ [Ev_pwm_get (case child of Some node \<Rightarrow> Of_pwm_get node
                                 | None \<Rightarrow> Pwm_get (lp_name led)) (- EPROBE_DEFER)]) \<and>
           num_leds priv' = num_leds priv \<and> length (leds priv') = length (leds priv)"
proof -
  let ?req = "case child of Some node \<Rightarrow> Of_pwm_get node | None \<Rightarrow> Pwm_get (lp_name led)"
  have rq: "request_pwm E led ?req w = (- EPROBE_DEFER, w @ [Ev_pwm_get ?req (- EPROBE_DEFER)])"
    using dfr deferred_IS_ERR by (simp add: request_pwm_def Let_def PTR_ERR_def)
  have g: "\<not> (num_leds priv < 0 \<or> int (length (leds priv)) \<le> num_leds priv)"
    using k by auto
  show ?thesis
    using g rq deferred_IS_ERR
    by (simp add: led_pwm_add_single_def Let_def PTR_ERR_def store_led_def)
qed

lemma led_pwm_probe_platdata_deferred:
  assumes coop: "cooperative E"
    and dfr: "\<forall>v. e_pwm_get E v (Pwm_get (lp_name led)) = - EPROBE_DEFER"
  shows "\<forall>l \<in> set pre. \<forall>v. \<not> IS_ERR (e_pwm_get E v (Pwm_get (lp_name l))) \<Longrightarrow>
     0 \<le> num_leds priv \<Longrightarrow> nat (num_leds priv) + length pre < length (leds priv) \<Longrightarrow>
     \<exists>priv' evs. led_pwm_probe_platdata E priv (pre @ led # post) w =
        Inr (- EPROBE_DEFER, priv',
             w @ evs @ [Ev_pwm_get (Pwm_get (lp_name led)) (- EPROBE_DEFER)]) \<and>
        num_leds priv' = num_leds priv + int (length pre) \<and>
        length (leds priv') = length (leds priv)"
proof (induction pre arbitrary: priv w)
  case Nil
  have nz: "- EPROBE_DEFER \<noteq> 0" by (simp add: EPROBE_DEFER_def)
  from led_pwm_add_single_deferred [where priv = priv and E = E and w = w and child = None and led = led] Nil.prems dfr
  obtain priv' where
    "led_pwm_add_single E priv led None w =
       Inr (- EPROBE_DEFER, priv', w @ [Ev_pwm_get (Pwm_get (lp_name led)) (- EPROBE_DEFER)])"
    "num_leds priv' = num_leds priv" "length (leds priv') = length (leds priv)"
    by auto
  with nz show ?case by (intro exI [of _ priv'] exI [of _ "[]"]) simp
next
  case (Cons l pre)
  have ok: "\<not> IS_ERR (e_pwm_get E w (Pwm_get (lp_name l)))" using Cons.prems(1) by simp
  from led_pwm_add_single_Inr [OF coop Cons.prems(2), where child = None and led = l and w = w] ok Cons.prems(3)
  obtain priv1 w1 where
    one: "led_pwm_add_single E priv l None w = Inr (0, priv1, w1)" by auto
  from led_pwm_add_single_outcome [OF one] obtain evs1 where
    1: "w1 = w @ evs1" "add_outcome (num_leds priv) 0 (num_leds priv1) evs1"
       "length (leds priv1) = length (leds priv)" by blast
  from 1(2) have k1: "num_leds priv1 = num_leds priv + 1" by (simp add: add_outcome_def)
  have "\<exists>priv' evs. led_pwm_probe_platdata E priv1 (pre @ led # post) w1 =
        Inr (- EPROBE_DEFER, priv',
             w1 @ evs @ [Ev_pwm_get (Pwm_get (lp_name led)) (- EPROBE_DEFER)]) \<and>
        num_leds priv' = num_leds priv1 + int (length pre) \<and>
        length (leds priv') = length (leds priv1)"
    by (rule Cons.IH) (use Cons.prems k1 1(3) in simp_all)
  then obtain priv' evs where
    2: "led_pwm_probe_platdata E priv1 (pre @ led # post) w1 =
        Inr (- EPROBE_DEFER, priv',
             w1 @ evs @ [Ev_pwm_get (Pwm_get (lp_name led)) (- EPROBE_DEFER)])"
       "num_leds priv' = num_leds priv1 + int (length pre)"
       "length (leds priv') = length (leds priv1)" by blast
  have "led_pwm_probe_platdata E priv ((l # pre) @ led # post) w =
        Inr (- EPROBE_DEFER, priv',
             w @ (evs1 @ evs) @ [Ev_pwm_get (Pwm_get (lp_name led)) (- EPROBE_DEFER)])"
    using one 2(1) 1(1) by simp
  moreover have "num_leds priv' = num_leds priv + int (length (l # pre))"
    using 2(2) k1 by simp
  moreover have "length (leds priv') = length (leds priv)" using 2(3) 1(3) by simp
  ultimately show ?case by blast
qed

lemma led_pwm_probe_unfold:
  assumes "pd_platdata pdev = Some ls" "ls \<noteq> []" "e_kzalloc_priv E w (int (length ls))"
    and "led_pwm_probe_platdata E
           \<lparr>num_leds = 0, leds = replicate (length ls) zero_led_pwm_data\<rparr> ls w
         = Inr (ret, priv1, w1)" "ret \<noteq> 0"
    and "led_pwm_cleanup priv1 w1 = Inr (priv2, w2)"
  shows "led_pwm_probe E pdev w = Inr (ret, None, w2)"
  using assms by (simp add: led_pwm_probe_def Let_def)

lemma led_pwm_probe_platdata_progress:
  assumes coop: "cooperative E"
    and pd: "pd_platdata pdev = Some (pre @ led # post)"
    and ok: "\<forall>l \<in> set pre. \<forall>v. \<not> IS_ERR (e_pwm_get E v (Pwm_get (lp_name l)))"
    and dfr: "\<forall>v. e_pwm_get E v (Pwm_get (lp_name led)) = - EPROBE_DEFER"
  shows "\<exists>evs. led_pwm_probe E pdev w =
            Inr (- EPROBE_DEFER, None,
                 w @ evs @ Ev_pwm_get (Pwm_get (lp_name led)) (- EPROBE_DEFER) #
                   map Ev_unregister (rev [0..<length pre])) \<and>
          registered evs = [0..<length pre] \<and> unregistered evs = []"
proof -
  let ?ls = "pre @ led # post"
  let ?priv = "\<lparr>num_leds = 0, leds = replicate (length ?ls) zero_led_pwm_data\<rparr>"
  let ?get = "Ev_pwm_get (Pwm_get (lp_name led)) (- EPROBE_DEFER)"
  have "\<exists>priv' evs. led_pwm_probe_platdata E ?priv ?ls w =
        Inr (- EPROBE_DEFER, priv', w @ evs @ [?get]) \<and>
        num_leds priv' = num_leds ?priv + int (length pre) \<and>
        length (leds priv') = length (leds ?priv)"
    by (rule led_pwm_probe_platdata_deferred [OF coop dfr ok]) simp_all
  then obtain priv1 evs where
    build: "led_pwm_probe_platdata E ?priv ?ls w = Inr (- EPROBE_DEFER, priv1, w @ evs @ [?get])"
    and n: "num_leds priv1 = int (length pre)"
    and len: "length (leds priv1) = length ?ls" by auto
  from led_pwm_probe_platdata_outcome [OF build] obtain evs' where
    "w @ evs @ [?get] = w @ evs'" "construct_outcome 0 (- EPROBE_DEFER) (num_leds priv1) evs'"
    by auto
  then have out: "construct_outcome 0 (- EPROBE_DEFER) (num_leds priv1) (evs @ [?get])" by simp
  then have reg: "registered evs = [0..<length pre]" "unregistered evs = []"
    using n by (simp_all add: construct_outcome_def registered_append unregistered_append)
  have "\<exists>priv' w'. led_pwm_cleanup priv1 (w @ evs @ [?get]) = Inr (priv', w')"
    by (rule led_pwm_cleanup_Inr [OF refl]) (use n len in simp_all)
  then obtain priv2 w2 where cl: "led_pwm_cleanup priv1 (w @ evs @ [?get]) = Inr (priv2, w2)"
    by blast
  from led_pwm_cleanup_events [OF cl refl] n have
    w2: "w2 = (w @ evs @ [?get]) @ map Ev_unregister (rev [0..<length pre])" by simp
  have nz: "- EPROBE_DEFER \<noteq> 0" by (simp add: EPROBE_DEFER_def)
  have al: "e_kzalloc_priv E w (int (length ?ls))" using coop by (simp add: cooperative_def)
  have "led_pwm_probe E pdev w = Inr (- EPROBE_DEFER, None, w2)"
    by (rule led_pwm_probe_unfold [OF pd _ al build nz cl]) simp
  with w2 reg show ?thesis by simp
qed

lemma led_pwm_cleanup_no_put:
  assumes "led_pwm_cleanup priv w = Inr (priv', w')" "0 \<le> num_leds priv"
  shows "filter is_pwm_put w' = filter is_pwm_put w"
proof -
  have "filter is_pwm_put (map Ev_unregister xs) = []" for xs
    by (induction xs) simp_all
  with led_pwm_cleanup_events [OF assms(1) refl assms(2)] show ?thesis by simp
qed

lemma led_pwm_create_of_child_single:
  "\<not> list_ex is_element_node (dn_children child) \<Longrightarrow>
   snd (led_pwm_create_of_child E priv led child w) =
     led_pwm_add_single E priv (fst (led_pwm_create_of_child E priv led child w)) (Some child) w"
  by (simp add: led_pwm_create_of_child_def Let_def list_ex_iff filter_empty_conv)

lemma led_pwm_create_of_children_deferred:
  assumes coop: "cooperative E"
    and dfr: "\<forall>v. e_pwm_get E v (Of_pwm_get child) = - EPROBE_DEFER"
    and single: "\<not> list_ex is_element_node (dn_children child)"
  shows "\<forall>c \<in> set pre. \<not> list_ex is_element_node (dn_children c) \<and>
                         (\<forall>v. \<not> IS_ERR (e_pwm_get E v (Of_pwm_get c))) \<Longrightarrow>
     0 \<le> num_leds priv \<Longrightarrow> nat (num_leds priv) + length pre < length (leds priv) \<Longrightarrow>
     \<exists>priv' evs. led_pwm_create_of_children E priv led (pre @ child # post) w =
        Inr (- EPROBE_DEFER, priv',
             w @ evs @ [Ev_pwm_get (Of_pwm_get child) (- EPROBE_DEFER)]) \<and>
        num_leds priv' = num_leds priv + int (length pre) \<and>
        length (leds priv') = length (leds priv)"
proof (induction pre arbitrary: priv led w)
  case Nil
  have nz: "- EPROBE_DEFER \<noteq> 0" by (simp add: EPROBE_DEFER_def)
  obtain led1 r where c: "led_pwm_create_of_child E priv led child w = (led1, r)"
    by (cases "led_pwm_create_of_child E priv led child w")
  with led_pwm_create_of_child_single [OF single, of E priv led w]
  have r: "r = led_pwm_add_single E priv led1 (Some child) w" by simp
  from led_pwm_add_single_deferred
         [where priv = priv and E = E and w = w and child = "Some child" and led = led1]
       Nil.prems dfr
  obtain priv' where
    "led_pwm_add_single E priv led1 (Some child) w =
       Inr (- EPROBE_DEFER, priv', w @ [Ev_pwm_get (Of_pwm_get child) (- EPROBE_DEFER)])"
    "num_leds priv' = num_leds priv" "length (leds priv') = length (leds priv)"
    by auto
  with nz c r show ?case by (intro exI [of _ priv'] exI [of _ "[]"]) simp
next
  case (Cons c pre)
  have ok: "\<not> IS_ERR (e_pwm_get E w (Of_pwm_get c))"
    and sc: "\<not> list_ex is_element_node (dn_children c)" using Cons.prems(1) by simp_all
  obtain led1 r where ch: "led_pwm_create_of_child E priv led c w = (led1, r)"
    by (cases "led_pwm_create_of_child E priv led c w")
  with led_pwm_create_of_child_single [OF sc, of E priv led w]
  have r: "r = led_pwm_add_single E priv led1 (Some c) w" by simp
  from led_pwm_add_single_Inr
         [OF coop Cons.prems(2), where child = "Some c" and led = led1 and w = w]
       ok Cons.prems(3)
  obtain priv1 w1 where
    one: "led_pwm_add_single E priv led1 (Some c) w = Inr (0, priv1, w1)" by auto
  from led_pwm_add_single_outcome [OF one] obtain evs1 where
    1: "w1 = w @ evs1" "add_outcome (num_leds priv) 0 (num_leds priv1) evs1"
       "length (leds priv1) = length (leds priv)" by blast
  from 1(2) have k1: "num_leds priv1 = num_leds priv + 1" by (simp add: add_outcome_def)
  have "\<exists>priv' evs. led_pwm_create_of_children E priv1 led1 (pre @ child # post) w1 =
        Inr (- EPROBE_DEFER, priv',
             w1 @ evs @ [Ev_pwm_get (Of_pwm_get child) (- EPROBE_DEFER)]) \<and>
        num_leds priv' = num_leds priv1 + int (length pre) \<and>
        length (leds priv') = length (leds priv1)"
    by (rule Cons.IH) (use Cons.prems k1 1(3) in simp_all)
  then obtain priv' evs where
    2: "led_pwm_create_of_children E priv1 led1 (pre @ child # post) w1 =
        Inr (- EPROBE_DEFER, priv',
             w1 @ evs @ [Ev_pwm_get (Of_pwm_get child) (- EPROBE_DEFER)])"
       "num_leds priv' = num_leds priv1 + int (length pre)"
       "length (leds priv') = length (leds priv1)" by blast
  have "led_pwm_create_of_children E priv led ((c # pre) @ child # post) w =
        Inr (- EPROBE_DEFER, priv',
             w @ (evs1 @ evs) @ [Ev_pwm_get (Of_pwm_get child) (- EPROBE_DEFER)])"
    using ch r one 2(1) 1(1) by simp
  moreover have "num_leds priv' = num_leds priv + int (length (c # pre))"
    using 2(2) k1 by simp
  moreover have "length (leds priv') = length (leds priv)" using 2(3) 1(3) by simp
  ultimately show ?case by blast
qed

lemma led_pwm_probe_unfold_of:
  assumes "pd_platdata pdev = None" "pd_of_node pdev = Some node" "dn_children node \<noteq> []"
    "e_kzalloc_priv E w (int (length (dn_children node)))"
    and "led_pwm_create_of_children E
           \<lparr>num_leds = 0, leds = replicate (length (dn_children node)) zero_led_pwm_data\<rparr>
           zero_led_pwm (dn_children node) w
         = Inr (ret, priv1, w1)" "ret \<noteq> 0"
    and "led_pwm_cleanup priv1 w1 = Inr (priv2, w2)"
  shows "led_pwm_probe E pdev w = Inr (ret, None, w2)"
  using assms by (simp add: led_pwm_probe_def led_pwm_create_of_def Let_def)

lemma led_pwm_probe_of_progress:
  assumes coop: "cooperative E"
    and pd: "pd_platdata pdev = None" "pd_of_node pdev = Some node"
            "dn_children node = pre @ child # post"
    and ok: "\<forall>c \<in> set pre. \<not> list_ex is_element_node (dn_children c) \<and>
                         (\<forall>v. \<not> IS_ERR (e_pwm_get E v (Of_pwm_get c)))"
    and single: "\<not> list_ex is_element_node (dn_children child)"
    and dfr: "\<forall>v. e_pwm_get E v (Of_pwm_get child) = - EPROBE_DEFER"
  shows "\<exists>evs. led_pwm_probe E pdev w =
            Inr (- EPROBE_DEFER, None,
                 w @ evs @ Ev_pwm_get (Of_pwm_get child) (- EPROBE_DEFER) #
                   map Ev_unregister (rev [0..<length pre])) \<and>
          registered evs = [0..<length pre] \<and> unregistered evs = []"
proof -
  let ?cs = "pre @ child # post"
  let ?priv = "\<lparr>num_leds = 0, leds = replicate (length ?cs) zero_led_pwm_data\<rparr>"
  let ?get = "Ev_pwm_get (Of_pwm_get child) (- EPROBE_DEFER)"
  have "\<exists>priv' evs. led_pwm_create_of_children E ?priv zero_led_pwm ?cs w =
        Inr (- EPROBE_DEFER, priv', w @ evs @ [?get]) \<and>
        num_leds priv' = num_leds ?priv + int (length pre) \<and>
        length (leds priv') = length (leds ?priv)"
    by (rule led_pwm_create_of_children_deferred [OF coop dfr single ok]) simp_all
  then obtain priv1 evs where
    build: "led_pwm_create_of_children E ?priv zero_led_pwm ?cs w
              = Inr (- EPROBE_DEFER, priv1, w @ evs @ [?get])"
    and n: "num_leds priv1 = int (length pre)"
    and len: "length (leds priv1) = length ?cs" by auto
  from led_pwm_create_of_children_outcome [OF build] obtain evs' where
    "w @ evs @ [?get] = w @ evs'" "construct_outcome 0 (- EPROBE_DEFER) (num_leds priv1) evs'"
    by auto
  then have out: "construct_outcome 0 (- EPROBE_DEFER) (num_leds priv1) (evs @ [?get])" by simp
  then have reg: "registered evs = [0..<length pre]" "unregistered evs = []"
    using n by (simp_all add: construct_outcome_def registered_append unregistered_append)
  have "\<exists>priv' w'. led_pwm_cleanup priv1 (w @ evs @ [?get]) = Inr (priv', w')"
    by (rule led_pwm_cleanup_Inr [OF refl]) (use n len in simp_all)
  then obtain priv2 w2 where cl: "led_pwm_cleanup priv1 (w @ evs @ [?get]) = Inr (priv2, w2)"
    by blast
  from led_pwm_cleanup_events [OF cl refl] n have
    w2: "w2 = (w @ evs @ [?get]) @ map Ev_unregister (rev [0..<length pre])" by simp
  have nz: "- EPROBE_DEFER \<noteq> 0" by (simp add: EPROBE_DEFER_def)
  have al: "e_kzalloc_priv E w (int (length (dn_children node)))"
    using coop by (simp add: cooperative_def)
  have "led_pwm_probe E pdev w = Inr (- EPROBE_DEFER, None, w2)"
    by (rule led_pwm_probe_unfold_of [OF pd(1,2) _ al _ nz cl]) (use pd(3) build in simp_all)
  with w2 reg show ?thesis by simp
qed

lemma filter_put_unregister: "filter is_pwm_put (map Ev_unregister xs) = []"
  by (induction xs) simp_all

lemma cooperative_env_sample_update:
  "cooperative (env_sample\<lparr>e_pwm_get := g\<rparr>)"
  by (simp add: cooperative_def env_sample_def register_ok_def scale_direct_def comp_def)

text \<open>Scenario D in both forms, run.\<close>

lemma deferred_of_run:
  "led_pwm_probe env_deferred_of scenario_D_of [] =
   Inr (- 517, None,
      [Ev_pwm_get (Of_pwm_get (Device_node ''front'' (Some ''led-front'') None (Some 255) False []))
         4096,
       Ev_pwm_apply_args 4096, Ev_pwm_get_args 4096 1000, Ev_register 0 0, Ev_scale 0,
       Ev_pwm (Pwm_config 4096 0 1000) 0, Ev_pwm (Pwm_disable 4096) 0,
       Ev_pwm_get (Of_pwm_get (Device_node ''back'' None None None True [])) (- 517),
       Ev_unregister 0])"
  by (simp add: build_defs sample_defs led_pwm_cleanup.simps env_deferred_of_def
        scenario_D_of_def two_nodes_def env_sample_def scale_direct_def)


lemma deferred_run_D:
  "led_pwm_probe env_deferred scenario_D [] =
   Inr (- EPROBE_DEFER, None,
      [Ev_pwm_get (Pwm_get ''led0'') 4096, Ev_pwm_apply_args 4096,
       Ev_pwm_get_args 4096 1000, Ev_register 0 0, Ev_scale 0,
       Ev_pwm (Pwm_config 4096 0 1000) 0, Ev_pwm (Pwm_disable 4096) 0,
       Ev_pwm_get (Pwm_get ''led1'') (- EPROBE_DEFER), Ev_unregister 0])"
  using deferred_run by (simp add: scenario_D_def EPROBE_DEFER_def)

lemma deferred_run_D_of:
  "led_pwm_probe env_deferred_of scenario_D_of [] =
   Inr (- EPROBE_DEFER, None,
      [Ev_pwm_get (Of_pwm_get (Device_node ''front'' (Some ''led-front'') None (Some 255) False []))
         4096,
       Ev_pwm_apply_args 4096, Ev_pwm_get_args 4096 1000, Ev_register 0 0, Ev_scale 0,
       Ev_pwm (Pwm_config 4096 0 1000) 0, Ev_pwm (Pwm_disable 4096) 0,
       Ev_pwm_get (Of_pwm_get (Device_node ''back'' None None None True [])) (- EPROBE_DEFER),
       Ev_unregister 0])"
  using deferred_of_run by (simp add: EPROBE_DEFER_def)

lemma cooperative_env_deferred: "cooperative env_deferred"
  by (simp add: env_deferred_def cooperative_env_sample_update)

lemma cooperative_env_deferred_of: "cooperative env_deferred_of"
  by (simp add: env_deferred_of_def cooperative_env_sample_update)

section \<open>The duty written by a brightness set\<close>

text \<open>
  C1, as the driver has it. The claim reads: for an element processed by a brightness
  set, with \<open>0 \<le> v \<le> maxValue\<close> and \<open>maxValue > 0\<close>, the duty written to the element is
  \<open>floor(period * v / maxValue)\<close>, or \<open>period\<close> minus that for an active-low element.
  The \<open>duty\<close> field is an \<open>int\<close>, so this holds whenever that value is below \<open>2 ^ 31\<close>;
  \<open>period\<close> itself is an \<open>unsigned int\<close> and may be larger.
\<close>

theorem led_pwm_set_duty_written:
  assumes run: "led_pwm_set E led_dat b w = Inr (r, led_dat', w')"
    and i: "i < length (elements led_dat)"
    and idx: "0 \<le> sint (element_index (elements led_dat ! i))"
    and ce: "ce = color_elements (e_scale E w (cdev led_dat) b)
                    ! nat (sint (element_index (elements led_dat ! i)))"
    and v: "ce_raw_value ce \<le> ce_max_value ce"
    and m: "ce_max_value ce \<noteq> 0"
    and fits: "spec_duty (active_low (elements led_dat ! i) \<noteq> 0)
                 (uint (period (elements led_dat ! i)))
                 (uint (ce_raw_value ce)) (uint (ce_max_value ce)) < 2 ^ 31"
  shows "sint (duty (elements led_dat' ! i)) =
           spec_duty (active_low (elements led_dat ! i) \<noteq> 0)
             (uint (period (elements led_dat ! i)))
             (uint (ce_raw_value ce)) (uint (ce_max_value ce))"
proof -
  let ?e = "elements led_dat ! i"
  obtain x x' where
    "led_pwm_set_element E (color_elements (e_scale E w (cdev led_dat) b)) ?e x
       = Inr (elements led_dat' ! i, x')"
    using led_pwm_set_nth [OF run i] by blast
  from led_pwm_set_element_duty [OF this idx] ce obtain d where
    d: "duty_computed ?e (ce_raw_value ce) (ce_max_value ce) = Some d"
    and e': "elements led_dat' ! i = ?e\<lparr>duty := ucast d\<rparr>"
    by auto
  from duty_computed_uint [OF v m, of ?e] d have
    u: "uint d = spec_duty (active_low ?e \<noteq> 0) (uint (period ?e))
                   (uint (ce_raw_value ce)) (uint (ce_max_value ce))"
    by auto
  with fits have "uint d < 2 ^ 31" by simp
  from sint_ucast_u64_small [OF this] e' u show ?thesis by simp
qed

text \<open>Scenario A: period 1000, maximum 255, brightness 128, duty 501.\<close>

theorem led_pwm_set_duty_written_witness:
  "stored_duties (led_pwm_set env_sample (mono_led 0 1000) 128 []) = [501] \<and>
   spec_duty False 1000 128 255 = 501"
proof -
  have "sint (duty (elements \<lparr>cdev = scale_direct [] mono_cdev 128,
       elements = [\<lparr>element_index = 0, pwm = 4096, active_low = 0,
                    period = 1000, duty = 501\<rparr>]\<rparr> ! 0))
     = spec_duty False 1000 128 255"
    using led_pwm_set_duty_written [OF scenario_A_128, of 0
       "\<lparr>ce_name = ''single'', ce_value = 255, ce_max_value = 255, ce_raw_value = 128\<rparr>"]
    by (simp add: sample_defs spec_duty_def)
  then show ?thesis by (simp add: scenario_A_128 stored_duties_def)
qed

text \<open>
  C1 as stated fails for a long period: with period 4000000000 ns, \<open>v = maxValue = 255\<close>
  and an active-high element, the contract's duty is 4000000000 and the \<open>int\<close> written
  is -294967296.
\<close>

theorem led_pwm_set_duty_written_counterexample:
  "stored_duties (led_pwm_set env_sample (mono_led 0 4000000000) 255 []) = [- 294967296] \<and>
   spec_duty False 4000000000 255 255 = 4000000000"
  by (simp add: sample_defs spec_duty_def)

text \<open>
  C2, as the driver has it. The claim reads: after a brightness set, with
  \<open>0 \<le> v \<le> maxValue\<close> and \<open>maxValue > 0\<close>, the stored duty satisfies
  \<open>0 \<le> duty \<le> period\<close>, for both polarities. It does for every period that an \<open>int\<close>
  holds, that is below \<open>2 ^ 31\<close>.
\<close>

theorem led_pwm_set_duty_in_range:
  assumes run: "led_pwm_set E led_dat b w = Inr (r, led_dat', w')"
    and i: "i < length (elements led_dat)"
    and idx: "0 \<le> sint (element_index (elements led_dat ! i))"
    and ce: "ce = color_elements (e_scale E w (cdev led_dat) b)
                    ! nat (sint (element_index (elements led_dat ! i)))"
    and v: "ce_raw_value ce \<le> ce_max_value ce"
    and m: "ce_max_value ce \<noteq> 0"
    and per: "uint (period (elements led_dat ! i)) < 2 ^ 31"
  shows "0 \<le> sint (duty (elements led_dat' ! i)) \<and>
         sint (duty (elements led_dat' ! i)) \<le> uint (period (elements led_dat' ! i))"
proof -
  let ?e = "elements led_dat ! i"
  obtain x x' where
    "led_pwm_set_element E (color_elements (e_scale E w (cdev led_dat) b)) ?e x
       = Inr (elements led_dat' ! i, x')"
    using led_pwm_set_nth [OF run i] by blast
  from led_pwm_set_element_duty [OF this idx] ce obtain d where
    d: "duty_computed ?e (ce_raw_value ce) (ce_max_value ce) = Some d"
    and e': "elements led_dat' ! i = ?e\<lparr>duty := ucast d\<rparr>"
    by auto
  from duty_computed_uint [OF v m, of ?e] d have
    u: "uint d = spec_duty (active_low ?e \<noteq> 0) (uint (period ?e))
                   (uint (ce_raw_value ce)) (uint (ce_max_value ce))"
    by auto
  have m': "0 < uint (ce_max_value ce)" using m by (simp add: uint_0_iff order_less_le)
  have v': "uint (ce_raw_value ce) \<le> uint (ce_max_value ce)" using v by (simp add: word_le_def)
  have rng: "0 \<le> uint d \<and> uint d \<le> uint (period ?e)"
    unfolding u by (rule spec_duty_range [OF _ _ v' m']) simp_all
  with per have "uint d < 2 ^ 31" by simp
  from sint_ucast_u64_small [OF this] e' rng show ?thesis by simp
qed

text \<open>Scenario B: active low, period 1000, full brightness, duty 0.\<close>

theorem led_pwm_set_duty_in_range_witness:
  "stored_duties (led_pwm_set env_sample (mono_led 1 1000) 255 []) = [0] \<and>
   (0::int) \<le> 0 \<and> (0::int) \<le> 1000"
proof -
  have "0 \<le> sint (duty (elements \<lparr>cdev = scale_direct [] mono_cdev 255,
       elements = [\<lparr>element_index = 0, pwm = 4096, active_low = 1,
                    period = 1000, duty = 0\<rparr>]\<rparr> ! 0))"
    using led_pwm_set_duty_in_range [OF scenario_B_255, of 0
       "\<lparr>ce_name = ''single'', ce_value = 255, ce_max_value = 255, ce_raw_value = 255\<rparr>"]
    by (simp add: sample_defs)
  then show ?thesis by (simp add: scenario_B_255 stored_duties_def)
qed

text \<open>
  C2 as stated fails for a long period: an active-low element of period 4294967295 ns
  at \<open>v = 0\<close> (\<open>maxValue = 255\<close>) gets the duty -1, which is below 0.
\<close>

theorem led_pwm_set_duty_in_range_counterexample:
  "stored_duties (led_pwm_set env_sample (mono_led 1 4294967295) 0 []) = [- 1]"
  by (simp add: sample_defs)

text \<open>
  C9: for a fixed period, \<open>maxValue > 0\<close> and polarity, the duty computed on lines 83 to
  89 is monotone in the raw value over \<open>0 \<le> v \<le> maxValue\<close>: it does not decrease with
  \<open>v\<close> for an active-high element and does not increase for an active-low one.
\<close>

theorem duty_computed_monotone:
  assumes "max_value \<noteq> 0" "v1 \<le> v2" "v2 \<le> max_value"
  shows "\<exists>d1 d2. duty_computed e v1 max_value = Some d1 \<and>
                 duty_computed e v2 max_value = Some d2 \<and>
                 (if active_low e = 0 then d1 \<le> d2 else d2 \<le> d1)"
proof -
  from assms have v1: "v1 \<le> max_value" by simp
  obtain d1 where d1: "duty_computed e v1 max_value = Some d1"
    and u1: "uint d1 = spec_duty (active_low e \<noteq> 0) (uint (period e)) (uint v1) (uint max_value)"
    using duty_computed_uint [OF v1 assms(1)] by blast
  obtain d2 where d2: "duty_computed e v2 max_value = Some d2"
    and u2: "uint d2 = spec_duty (active_low e \<noteq> 0) (uint (period e)) (uint v2) (uint max_value)"
    using duty_computed_uint [OF assms(3) assms(1)] by blast
  have m: "0 < uint max_value" using assms(1) by (simp add: uint_0_iff order_less_le)
  have "uint v1 \<le> uint v2" using assms(2) by (simp add: word_le_def)
  then have "uint (period e) * uint v1 \<le> uint (period e) * uint v2"
    by (simp add: mult_left_mono)
  then have "uint (period e) * uint v1 div uint max_value
               \<le> uint (period e) * uint v2 div uint max_value"
    using m by (rule zdiv_mono1)
  then have "if active_low e = 0 then uint d1 \<le> uint d2 else uint d2 \<le> uint d1"
    unfolding u1 u2 by (simp add: spec_duty_def Let_def)
  then show ?thesis using d1 d2 by (auto simp: word_le_def)
qed

theorem duty_computed_monotone_witness:
  "(255 :: u32) \<noteq> 0 \<and> (100 :: u32) \<le> 200 \<and> (200 :: u32) \<le> 255 \<and>
   duty_computed (hd (elements (mono_led 1 1000))) 100 255 = Some 608 \<and>
   duty_computed (hd (elements (mono_led 1 1000))) 200 255 = Some 216 \<and>
   (216 :: u64) \<le> 608"
  using duty_computed_monotone [of 255 100 200 "hd (elements (mono_led 1 1000))"]
  by (simp add: sample_defs)

text \<open>
  C10: the duty is computed in 64 bits. For every period and raw value that an
  \<open>unsigned int\<close> holds and every \<open>maxValue > 0\<close>, the product \<open>period * v\<close> does not wrap
  around, and the quotient that \<open>do_div\<close> leaves in \<open>duty\<close> is
  \<open>floor(period * v / maxValue)\<close>.
\<close>

theorem duty_scaled_exact:
  "max_value \<noteq> 0 \<Longrightarrow>
     uint ((ucast per :: u64) * ucast raw_value) = uint per * uint raw_value \<and>
     (\<exists>d. duty_scaled per raw_value max_value = Some d \<and>
          uint d = uint per * uint raw_value div uint max_value)"
  using duty_scaled_Some [of max_value per raw_value]
    duty_scaled_uint [of per raw_value max_value]
  by (auto simp: uint_u32_mult_u64)

theorem duty_scaled_exact_witness:
  "(1 :: u32) \<noteq> 0 \<and> duty_scaled 4294967295 4294967295 1 = Some 18446744065119617025"
  using duty_scaled_exact [of 1 4294967295 4294967295]
  by (simp add: duty_scaled_def do_div_def)

section \<open>Applying a duty to a channel\<close>

text \<open>
  C3, as the driver has it. The claim reads: for every element apply, the channel is
  first configured with the pair \<open>(duty, period)\<close>, and then ends disabled if and only if
  \<open>duty == 0\<close> and enabled if and only if \<open>duty > 0\<close>, whatever its state before. The
  driver tests \<open>new_duty == 0\<close> on an \<open>int\<close>: the channel is configured first and then
  ends disabled if and only if \<open>duty == 0\<close>, and enabled if and only if \<open>duty != 0\<close>, for
  every state \<open>ch\<close> before and every trace \<open>w\<close> before, when the provider accepts the
  two calls.
\<close>

theorem led_element_pwm_set_channel:
  assumes cfg: "e_pwm E w (Pwm_config (pwm e) (duty e) (period e)) = 0"
    and sw: "e_pwm E (w @ [Ev_pwm (Pwm_config (pwm e) (duty e) (period e)) 0])
               (if duty e = 0 then Pwm_disable (pwm e) else Pwm_enable (pwm e)) = 0"
  shows "led_element_pwm_set E e w =
           w @ [Ev_pwm (Pwm_config (pwm e) (duty e) (period e)) 0,
                Ev_pwm (if duty e = 0 then Pwm_disable (pwm e) else Pwm_enable (pwm e)) 0] \<and>
         pwm_after (pwm e) ch (led_element_pwm_set E e w) =
           \<lparr>ch_duty = duty e, ch_period = period e, ch_enabled = (duty e \<noteq> 0)\<rparr>"
proof -
  have ev: "led_element_pwm_set E e w =
           w @ [Ev_pwm (Pwm_config (pwm e) (duty e) (period e)) 0,
                Ev_pwm (if duty e = 0 then Pwm_disable (pwm e) else Pwm_enable (pwm e)) 0]"
    using cfg sw by (simp add: led_element_pwm_set_events)
  have "pwm_after (pwm e) ch (led_element_pwm_set E e w) =
           \<lparr>ch_duty = duty e, ch_period = period e, ch_enabled = (duty e \<noteq> 0)\<rparr>"
    unfolding ev pwm_after_append by (simp add: pwm_after_def)
  with ev show ?thesis by simp
qed

theorem led_element_pwm_set_channel_witness:
  "pwm_after 4096 idle_channel
     (led_element_pwm_set env_sample
        \<lparr>element_index = 0, pwm = 4096, active_low = 0, period = 1000, duty = 501\<rparr> []) =
     \<lparr>ch_duty = 501, ch_period = 1000, ch_enabled = True\<rparr>"
  using led_element_pwm_set_channel [of env_sample "[]"
      "\<lparr>element_index = 0, pwm = 4096, active_low = 0, period = 1000, duty = 501\<rparr>"
      idle_channel]
  by (simp add: env_sample_def pwm_after_def idle_channel_def)

text \<open>
  C3 as stated fails for a negative duty: the element with \<open>duty = -1\<close> (what
  \<open>led_pwm_set\<close> stores for an active-low element of period 4294967295 at \<open>v = 0\<close>) leaves
  the channel enabled, and its duty is not above 0.
\<close>

theorem led_element_pwm_set_channel_counterexample:
  "ch_enabled (pwm_after 4096 idle_channel
      (led_element_pwm_set env_sample neg_duty_element [])) \<and>
   sint (duty neg_duty_element) = - 1"
  by (simp add: led_element_pwm_set_def call_pwm_def env_sample_def neg_duty_element_def
      pwm_after_def idle_channel_def)

section \<open>What a brightness set touches\<close>

text \<open>
  C4: a brightness set that runs through calls the color-scaling collaborator once, on
  the trace as it found it and before anything else; the calls that follow are those of
  the elements with \<open>element_index >= 0\<close>, each element once and in the order of the
  array, configure and then disable or enable; each such element gets the duty computed
  from the raw value and the maximum of its own color element, as the collaborator left
  them; an element with a negative \<open>element_index\<close> is left as it was, and so is its
  channel when no other element drives it.
\<close>

theorem led_pwm_set_frame:
  assumes run: "led_pwm_set E led_dat b w = Inr (r, led_dat', w')"
  shows "cdev led_dat' = e_scale E w (cdev led_dat) b \<and>
    (\<exists>evs. w' = w @ Ev_scale b # evs \<and> list_all is_pwm evs \<and>
           pwm_calls evs = concat (map element_calls (filter processed (elements led_dat')))) \<and>
    length (elements led_dat') = length (elements led_dat) \<and>
    (\<forall>i < length (elements led_dat).
           (if processed (elements led_dat ! i)
            then \<exists>d. duty_computed (elements led_dat ! i)
                        (ce_raw_value (own_color_element (color_elements (cdev led_dat'))
                           (elements led_dat ! i)))
                        (ce_max_value (own_color_element (color_elements (cdev led_dat'))
                           (elements led_dat ! i))) = Some d \<and>
                      elements led_dat' ! i = (elements led_dat ! i)\<lparr>duty := ucast d\<rparr>
            else elements led_dat' ! i = elements led_dat ! i)) \<and>
    (\<forall>e \<in> set (elements led_dat). \<not> processed e \<longrightarrow>
           (\<forall>e' \<in> set (elements led_dat). processed e' \<longrightarrow> pwm e' \<noteq> pwm e) \<longrightarrow>
           pwm_after (pwm e) ch (drop (length w) w') = ch)"
  using led_pwm_set_frame_parts(1-4) [OF run] led_pwm_set_frame_parts(5) [OF run, of ch]
  by blast

theorem led_pwm_set_frame_witness:
  "stored_duties (led_pwm_set env_sample rgb_led 128 []) = [501, 7, 499, 1003] \<and>
   pwm_calls (drop 1 [Ev_scale 128,
        Ev_pwm (Pwm_config 4096 501 1000) 0, Ev_pwm (Pwm_enable 4096) 0,
        Ev_pwm (Pwm_config 4097 499 1000) 0, Ev_pwm (Pwm_enable 4097) 0,
        Ev_pwm (Pwm_config 4098 1003 2000) 0, Ev_pwm (Pwm_enable 4098) 0]) =
     [Pwm_config 4096 501 1000, Pwm_enable 4096, Pwm_config 4097 499 1000, Pwm_enable 4097,
      Pwm_config 4098 1003 2000, Pwm_enable 4098] \<and>
   pwm_after 4099 idle_channel [Ev_scale 128,
        Ev_pwm (Pwm_config 4096 501 1000) 0, Ev_pwm (Pwm_enable 4096) 0,
        Ev_pwm (Pwm_config 4097 499 1000) 0, Ev_pwm (Pwm_enable 4097) 0,
        Ev_pwm (Pwm_config 4098 1003 2000) 0, Ev_pwm (Pwm_enable 4098) 0] = idle_channel"
  using led_pwm_set_frame [OF rgb_run, of idle_channel]
  by (simp add: rgb_run stored_duties_def pwm_after_def)

section \<open>Faults of the channel provider\<close>

text \<open>
  C5, as the driver has it. The claim reads: a fault that the channel provider reports
  during configure, enable or disable is propagated by the brightness set to its caller.
  \<open>__led_element_pwm_set\<close> returns \<open>void\<close> and \<open>led_pwm_set\<close> ends in \<open>return 0\<close>: whatever
  the provider reports (\<open>f\<close>), a brightness set that returns gives 0, and it leaves the
  device as it does with any other provider (\<open>g\<close>), one that reports no fault included.
\<close>

theorem led_pwm_set_ignores_faults:
  assumes run: "led_pwm_set (E\<lparr>e_pwm := f\<rparr>) led_dat b w = Inr (r, led_dat', w')"
  shows "r = 0 \<and> (\<exists>w''. led_pwm_set (E\<lparr>e_pwm := g\<rparr>) led_dat b w = Inr (0, led_dat', w''))"
proof -
  let ?ces = "color_elements (e_scale E w (cdev led_dat) b)"
  from run obtain els where
    els: "led_pwm_set_elements (E\<lparr>e_pwm := f\<rparr>) ?ces (elements led_dat) (w @ [Ev_scale b])
            = Inr (els, w')"
    and d: "led_dat' = led_dat\<lparr>cdev := e_scale E w (cdev led_dat) b, elements := els\<rparr>"
    and r: "r = 0"
    by (auto simp: led_pwm_set_def Let_def split: sum.splits prod.splits)
  from led_pwm_set_elements_any_env [OF els, of "E\<lparr>e_pwm := g\<rparr>" "w @ [Ev_scale b]"]
  obtain w'' where
    "led_pwm_set_elements (E\<lparr>e_pwm := g\<rparr>) ?ces (elements led_dat) (w @ [Ev_scale b])
       = Inr (els, w'')" by blast
  then have "led_pwm_set (E\<lparr>e_pwm := g\<rparr>) led_dat b w = Inr (0, led_dat', w'')"
    using d by (simp add: led_pwm_set_def Let_def)
  with r show ?thesis by blast
qed

theorem led_pwm_set_ignores_faults_witness:
  "\<exists>w''. led_pwm_set env_sample (mono_led 0 1000) 128 [] =
     Inr (0, \<lparr>cdev = scale_direct [] mono_cdev 128,
       elements = [\<lparr>element_index = 0, pwm = 4096, active_low = 0,
                    period = 1000, duty = 501\<rparr>]\<rparr>, w'')"
proof -
  have f: "env_sample\<lparr>e_pwm := (\<lambda>w c. - EINVAL)\<rparr> = env_faulty"
    by (simp add: env_faulty_def)
  have g: "env_sample\<lparr>e_pwm := (\<lambda>w c. 0)\<rparr> = env_sample"
    by (simp add: env_sample_def)
  from led_pwm_set_ignores_faults [where E = env_sample and f = "\<lambda>w c. - EINVAL"
      and g = "\<lambda>w c. 0", unfolded f g, OF faulty_run]
  show ?thesis by simp
qed

text \<open>
  C5 as stated fails: with a provider that reports \<open>-EINVAL\<close> (-22) from \<open>pwm_config\<close> and
  from \<open>pwm_enable\<close>, the brightness set of scenario A returns 0.
\<close>

theorem led_pwm_set_ignores_faults_counterexample:
  "led_pwm_set env_faulty (mono_led 0 1000) 128 [] =
     Inr (0, \<lparr>cdev = scale_direct [] mono_cdev 128,
       elements = [\<lparr>element_index = 0, pwm = 4096, active_low = 0,
                    period = 1000, duty = 501\<rparr>]\<rparr>,
       [Ev_scale 128, Ev_pwm (Pwm_config 4096 501 1000) (- 22),
        Ev_pwm (Pwm_enable 4096) (- 22)])"
  by (simp add: sample_defs2)

section \<open>A color element whose maximum is zero\<close>

text \<open>
  C6, as the driver has it. The claim reads: for an element whose color channel has
  \<open>maxValue == 0\<close> the brightness set reports a fatal configuration fault and never
  executes the division with a zero divisor. \<open>led_pwm_set\<close> has no test of \<open>max_value\<close>:
  with every \<open>element_index\<close> inside the array, \<open>do_div\<close> is executed with a zero divisor
  exactly when an element that is not skipped has a color element with \<open>max_value == 0\<close>,
  and the call returns (with 0, no fault reported) exactly when there is none.
\<close>

theorem led_pwm_set_zero_max_value:
  assumes rng: "\<forall>e \<in> set (elements led_dat). processed e \<longrightarrow>
                  nat (sint (element_index e))
                    < length (color_elements (e_scale E w (cdev led_dat) b))"
  shows "(led_pwm_set E led_dat b w = Inl Division_by_zero_executed) =
           (\<exists>e \<in> set (elements led_dat). processed e \<and>
              ce_max_value (own_color_element
                (color_elements (e_scale E w (cdev led_dat) b)) e) = 0) \<and>
         ((\<exists>led_dat' w'. led_pwm_set E led_dat b w = Inr (0, led_dat', w')) =
           (\<forall>e \<in> set (elements led_dat). processed e \<longrightarrow>
              ce_max_value (own_color_element
                (color_elements (e_scale E w (cdev led_dat) b)) e) \<noteq> 0))"
proof -
  let ?ces = "color_elements (e_scale E w (cdev led_dat) b)"
  let ?run = "led_pwm_set_elements E ?ces (elements led_dat) (w @ [Ev_scale b])"
  have div0: "(?run = Inl Division_by_zero_executed) =
           (\<exists>e \<in> set (elements led_dat). processed e \<and>
              ce_max_value (own_color_element ?ces e) = 0)"
    by (rule led_pwm_set_elements_div0 [OF rng])
  have a: "(led_pwm_set E led_dat b w = Inl Division_by_zero_executed) =
             (?run = Inl Division_by_zero_executed)"
    by (auto simp: led_pwm_set_def Let_def split: sum.splits prod.splits)
  have b: "(\<exists>led_dat' w'. led_pwm_set E led_dat b w = Inr (0, led_dat', w')) =
             (\<exists>els' w'. ?run = Inr (els', w'))"
    by (auto simp: led_pwm_set_def Let_def split: sum.splits prod.splits)
  have c: "(\<exists>els' w'. ?run = Inr (els', w')) =
           (\<forall>e \<in> set (elements led_dat). processed e \<longrightarrow>
              ce_max_value (own_color_element ?ces e) \<noteq> 0)"
  proof
    assume "\<exists>els' w'. ?run = Inr (els', w')"
    then have "?run \<noteq> Inl Division_by_zero_executed" by auto
    with div0 show "\<forall>e \<in> set (elements led_dat). processed e \<longrightarrow>
              ce_max_value (own_color_element ?ces e) \<noteq> 0" by blast
  next
    assume "\<forall>e \<in> set (elements led_dat). processed e \<longrightarrow>
              ce_max_value (own_color_element ?ces e) \<noteq> 0"
    with rng have "\<forall>e \<in> set (elements led_dat). processed e \<longrightarrow>
        nat (sint (element_index e)) < length ?ces \<and>
        ce_max_value (own_color_element ?ces e) \<noteq> 0" by blast
    from led_pwm_set_elements_Inr [OF this] show "\<exists>els' w'. ?run = Inr (els', w')" .
  qed
  show ?thesis using a b c div0 by simp
qed

theorem led_pwm_set_zero_max_value_witness:
  "led_pwm_set env_sample (mono_led 0 1000) 128 [] \<noteq> Inl Division_by_zero_executed \<and>
   (\<exists>led_dat' w'. led_pwm_set env_sample (mono_led 0 1000) 128 [] = Inr (0, led_dat', w'))"
  using led_pwm_set_zero_max_value [of "mono_led 0 1000" env_sample "[]" 128]
  by (simp add: processed_def own_color_element_def env_sample_def scale_direct_def
      mono_led_def mono_cdev_def)

text \<open>
  C6 as stated fails: for the monochrome device whose color element has \<open>max_value = 0\<close>
  the brightness set reaches \<open>do_div\<close> with the divisor 0.
\<close>

theorem led_pwm_set_zero_max_value_counterexample:
  "led_pwm_set env_sample zero_max_led 128 [] = Inl Division_by_zero_executed"
  by (simp add: sample_defs2)

section \<open>The period of an element\<close>

text \<open>
  C7: in \<open>led_pwm_add_single\<close> the element's period is the period that \<open>pwm_get_args\<close>
  reported for its channel when that is not zero, and the fallback \<open>pwm_period_ns\<close> of
  the description otherwise; in \<open>led_pwm_add_multi\<close> the period of every element is the
  period reported for that element's channel, with no fallback. The reports are read off
  the trace of the call: the elements, in order, carry the channels and the periods of
  the reports, in order, and a construction that returns 0 has a report for its one
  element, or for each of the \<open>element-\<close> children.
\<close>

theorem construction_period:
  "(led_pwm_add_single E priv led child w = Inr (ret, priv', w') \<longrightarrow>
      map (\<lambda>e. (pwm e, period e))
        (take (length (reported_periods (drop (length w) w')))
           (elements (leds priv' ! nat (num_leds priv)))) =
      map (\<lambda>(p, hw). (p, if hw \<noteq> 0 then hw else lp_pwm_period_ns led))
        (reported_periods (drop (length w) w')) \<and>
      (ret = 0 \<longrightarrow> length (reported_periods (drop (length w) w')) = 1)) \<and>
   (led_pwm_add_multi E priv led node n w = Inr (ret, priv', w') \<longrightarrow>
      map (\<lambda>e. (pwm e, period e))
        (take (length (reported_periods (drop (length w) w')))
           (elements (leds priv' ! nat (num_leds priv)))) =
      reported_periods (drop (length w) w') \<and>
      (ret = 0 \<longrightarrow> length (reported_periods (drop (length w) w')) =
                      length (filter is_element_node (dn_children node))))"
proof (intro conjI impI)
  assume "led_pwm_add_single E priv led child w = Inr (ret, priv', w')"
  from led_pwm_add_single_outcome [OF this] obtain evs where
    e: "w' = w @ evs"
      "map (\<lambda>e. (pwm e, period e))
             (take (length (reported_periods evs)) (elements (leds priv' ! nat (num_leds priv)))) =
           map (\<lambda>(p, hw). (p, if hw \<noteq> 0 then hw else lp_pwm_period_ns led))
             (reported_periods evs)"
      "ret = 0 \<longrightarrow> length (reported_periods evs) = 1"
    by blast
  from e(1) have d: "drop (length w) w' = evs" by simp
  show "map (\<lambda>e. (pwm e, period e))
        (take (length (reported_periods (drop (length w) w')))
           (elements (leds priv' ! nat (num_leds priv)))) =
      map (\<lambda>(p, hw). (p, if hw \<noteq> 0 then hw else lp_pwm_period_ns led))
        (reported_periods (drop (length w) w'))"
    unfolding d by (rule e(2))
  assume "ret = 0"
  with e(3) show "length (reported_periods (drop (length w) w')) = 1"
    unfolding d by simp
next
  assume "led_pwm_add_multi E priv led node n w = Inr (ret, priv', w')"
  from led_pwm_add_multi_outcome [OF this] obtain evs where
    e: "w' = w @ evs"
      "map (\<lambda>e. (pwm e, period e))
             (take (length (reported_periods evs)) (elements (leds priv' ! nat (num_leds priv)))) =
           reported_periods evs"
      "ret = 0 \<longrightarrow> length (reported_periods evs) =
                           length (filter is_element_node (dn_children node))"
    by blast
  from e(1) have d: "drop (length w) w' = evs" by simp
  show "map (\<lambda>e. (pwm e, period e))
        (take (length (reported_periods (drop (length w) w')))
           (elements (leds priv' ! nat (num_leds priv)))) =
      reported_periods (drop (length w) w')"
    unfolding d by (rule e(2))
  assume "ret = 0"
  with e(3) show "length (reported_periods (drop (length w) w')) =
                      length (filter is_element_node (dn_children node))"
    unfolding d by simp
qed

text \<open>
  A channel that reports no period gets the fallback of 5000 ns in single mode; the three
  elements of the three-color node get the 1000 ns their channels report.
\<close>

theorem construction_period_witness:
  "periods_built (led_pwm_add_single env_no_period one_slot (hd three_leds) None []) 0 =
     [(4096, 5000)] \<and>
   periods_built (led_pwm_add_multi env_sample one_slot (hd three_leds) rgb_node 3 []) 0 =
     [(4097, 1000), (4101, 1000), (4105, 1000)]"
  using construction_period [where E = env_no_period and priv = one_slot
        and led = "hd three_leds" and child = None and w = "[]",
      THEN conjunct1, rule_format, OF single_run]
    construction_period [where E = env_sample and priv = one_slot
        and led = "hd three_leds" and node = rgb_node and n = 3 and w = "[]",
      THEN conjunct2, rule_format, OF multi_run]
  by (simp add: single_run multi_run periods_built_def)

section \<open>A channel that is not there yet\<close>

text \<open>
  C8. In every run of \<open>led_pwm_probe\<close> in which the request of a channel comes
  back with \<open>-EPROBE_DEFER\<close>: the probe returns \<open>-EPROBE_DEFER\<close> and sets no driver
  data; that request is the last event of the construction, and what follows it is the
  unregistration of every entry registered before, last registered first; no entry is
  left registered, no error is logged, and no channel is released: the channels acquired
  during the run are all held when the probe returns.

  Such a run is what happens. With the platform data \<open>before @ led # rest\<close>, collaborators
  that cooperate, the channels of \<open>before\<close> there and the channel of \<open>led\<close> deferred,
  the probe has a result, which is \<open>-EPROBE_DEFER\<close> with no driver data; its trace ends
  with the deferred request for \<open>led\<close> and the unregistration of the \<open>length before\<close>
  entries built so far, from the last to the first; nothing is constructed for \<open>rest\<close>.
  The same holds on the description tree, for the children \<open>nodes_before @ child #
  nodes_rest\<close> of the device's node, where \<open>child\<close> and the nodes before it have no
  \<open>element-\<close> child.
\<close>

theorem led_pwm_probe_deferred:
  "(led_pwm_probe E pdev w = Inr (ret, drvdata, w') \<and>
    list_ex is_deferred (drop (length w) w') \<longrightarrow>
      ret = - EPROBE_DEFER \<and> drvdata = None \<and>
      \<not> list_ex is_dev_err (drop (length w) w') \<and>
      still_registered [] (drop (length w) w') = [] \<and>
      held [] (drop (length w) w') = acquired (drop (length w) w') \<and>
      (\<exists>evs. drop (length w) w' = evs @ map Ev_unregister (rev (registered evs)) \<and>
             evs \<noteq> [] \<and> is_deferred (last evs) \<and> unregistered evs = [])) \<and>
   (cooperative E \<and> pd_platdata pdev = Some (before @ led # rest) \<and>
    (\<forall>l \<in> set before. \<forall>v. \<not> IS_ERR (e_pwm_get E v (Pwm_get (lp_name l)))) \<and>
    (\<forall>v. e_pwm_get E v (Pwm_get (lp_name led)) = - EPROBE_DEFER) \<longrightarrow>
      (\<exists>evs. led_pwm_probe E pdev w =
                Inr (- EPROBE_DEFER, None,
                     w @ evs @ Ev_pwm_get (Pwm_get (lp_name led)) (- EPROBE_DEFER) #
                       map Ev_unregister (rev [0..<length before])) \<and>
             registered evs = [0..<length before] \<and> unregistered evs = [])) \<and>
   (cooperative E \<and> pd_platdata pdev = None \<and> pd_of_node pdev = Some node \<and>
    dn_children node = nodes_before @ child # nodes_rest \<and>
    (\<forall>c \<in> set nodes_before. \<not> list_ex is_element_node (dn_children c) \<and>
                               (\<forall>v. \<not> IS_ERR (e_pwm_get E v (Of_pwm_get c)))) \<and>
    \<not> list_ex is_element_node (dn_children child) \<and>
    (\<forall>v. e_pwm_get E v (Of_pwm_get child) = - EPROBE_DEFER) \<longrightarrow>
      (\<exists>evs. led_pwm_probe E pdev w =
                Inr (- EPROBE_DEFER, None,
                     w @ evs @ Ev_pwm_get (Of_pwm_get child) (- EPROBE_DEFER) #
                       map Ev_unregister (rev [0..<length nodes_before])) \<and>
             registered evs = [0..<length nodes_before] \<and> unregistered evs = []))"
proof -
  have general: "ret = - EPROBE_DEFER \<and> drvdata = None \<and>
      \<not> list_ex is_dev_err (drop (length w) w') \<and>
      still_registered [] (drop (length w) w') = [] \<and>
      held [] (drop (length w) w') = acquired (drop (length w) w') \<and>
      (\<exists>evs. drop (length w) w' = evs @ map Ev_unregister (rev (registered evs)) \<and>
             evs \<noteq> [] \<and> is_deferred (last evs) \<and> unregistered evs = [])"
    if run: "led_pwm_probe E pdev w = Inr (ret, drvdata, w')"
    and dfr: "list_ex is_deferred (drop (length w) w')"
  proof -
  let ?count = "case pd_platdata pdev of
                     Some ls \<Rightarrow> int (length ls)
                   | None \<Rightarrow>
                       (case pd_of_node pdev of
                          None \<Rightarrow> 0
                        | Some of_node \<Rightarrow> int (length (dn_children of_node)))"
  let ?priv = "\<lparr>num_leds = 0, leds = replicate (nat ?count) zero_led_pwm_data\<rparr>"
  let ?build = "case pd_platdata pdev of
                      Some ls \<Rightarrow> led_pwm_probe_platdata E ?priv ls w
                    | None \<Rightarrow>
                        (case pd_of_node pdev of
                           None \<Rightarrow> Inr (0, ?priv, w)
                         | Some of_node \<Rightarrow> led_pwm_create_of E of_node ?priv w)"
  have early: "w' \<noteq> w" using dfr by auto
  from run early obtain ret1 priv1 w1 where
    build: "?build = Inr (ret1, priv1, w1)"
    and fin: "(if ret1 \<noteq> 0 then
                (case led_pwm_cleanup priv1 w1 of
                   Inl u \<Rightarrow> Inl u
                 | Inr (priv, w) \<Rightarrow> Inr (ret1, None, w))
               else Inr (0, Some priv1, w1)) = Inr (ret, drvdata, w')"
    by (cases ?build) (auto simp: led_pwm_probe_def Let_def split: if_splits)
  have "\<exists>evs. w1 = w @ evs \<and> construct_outcome 0 ret1 (num_leds priv1) evs \<and>
              filter is_pwm_put evs = []"
  proof (cases "pd_platdata pdev")
    case (Some ls)
    with build have b: "led_pwm_probe_platdata E ?priv ls w = Inr (ret1, priv1, w1)" by simp
    from led_pwm_probe_platdata_outcome [OF b] led_pwm_probe_platdata_no_put [OF b]
    show ?thesis by auto
  next
    case None
    show ?thesis
    proof (cases "pd_of_node pdev")
      case nonode: None
      with None build construct_outcome_Nil [of 0] show ?thesis by auto
    next
      case (Some of_node)
      with None build have b:
        "led_pwm_create_of_children E ?priv zero_led_pwm (dn_children of_node) w
           = Inr (ret1, priv1, w1)"
        by (simp add: led_pwm_create_of_def)
      from led_pwm_create_of_children_outcome [OF b] led_pwm_create_of_children_no_put [OF b]
      show ?thesis by auto
    qed
  qed
  then obtain evs where
    evs: "w1 = w @ evs" and out: "construct_outcome 0 ret1 (num_leds priv1) evs"
    and np: "filter is_pwm_put evs = []" by blast
  from out have o: "unregistered evs = []" "0 \<le> num_leds priv1"
    "registered evs = [0 ..< nat (num_leds priv1)]"
    "list_ex is_deferred evs \<longrightarrow>
         ret1 = - EPROBE_DEFER \<and> \<not> list_ex is_dev_err evs \<and>
         evs \<noteq> [] \<and> is_deferred (last evs)"
    by (simp_all add: construct_outcome_def)
  have d: "list_ex is_deferred evs"
  proof (cases "ret1 = 0")
    case True
    with fin evs dfr show ?thesis by auto
  next
    case False
    with fin obtain priv2 where cl: "led_pwm_cleanup priv1 w1 = Inr (priv2, w')"
      by (auto split: sum.splits)
    from led_pwm_cleanup_events [OF cl refl o(2)] evs dfr show ?thesis by simp
  qed
  with o(4) have r1: "ret1 = - EPROBE_DEFER" "\<not> list_ex is_dev_err evs" "evs \<noteq> []"
    "is_deferred (last evs)" by simp_all
  have nz: "ret1 \<noteq> 0" using r1(1) by (simp add: EPROBE_DEFER_def)
  with fin obtain priv2 where cl: "led_pwm_cleanup priv1 w1 = Inr (priv2, w')"
    and res: "ret = ret1" "drvdata = None"
    by (auto split: sum.splits)
  from led_pwm_cleanup_events [OF cl refl o(2)] evs o(3) have
    tr: "drop (length w) w' = evs @ map Ev_unregister (rev (registered evs))" by simp
  have "still_registered [] (drop (length w) w') = []"
    unfolding tr still_registered_append
    by (simp add: still_registered_construct [OF o(1)] still_registered_unregister)
  moreover have "\<not> list_ex is_dev_err (drop (length w) w')"
    unfolding tr using r1(2) by simp
  moreover have "filter is_pwm_put (drop (length w) w') = []"
    unfolding tr using np by (simp add: filter_put_unregister)
  then have "held [] (drop (length w) w') = acquired (drop (length w) w')"
    using held_no_put [of "drop (length w) w'" "[]"] by simp
  ultimately show ?thesis using res r1 tr o(1) by blast
  qed
  show ?thesis
    using general led_pwm_probe_platdata_progress [of E pdev before led rest w]
      led_pwm_probe_of_progress [of E pdev node nodes_before child nodes_rest w]
    by blast
qed

text \<open>
  Scenario D: three LEDs in the platform data, the channel of the second deferred; and
  two nodes of the description tree, the channel of the second deferred.
\<close>

theorem led_pwm_probe_deferred_witness:
  "led_pwm_probe env_deferred scenario_D [] =
     Inr (- EPROBE_DEFER, None,
        [Ev_pwm_get (Pwm_get ''led0'') 4096, Ev_pwm_apply_args 4096,
         Ev_pwm_get_args 4096 1000, Ev_register 0 0, Ev_scale 0,
         Ev_pwm (Pwm_config 4096 0 1000) 0, Ev_pwm (Pwm_disable 4096) 0,
         Ev_pwm_get (Pwm_get ''led1'') (- EPROBE_DEFER), Ev_unregister 0]) \<and>
   still_registered []
        [Ev_pwm_get (Pwm_get ''led0'') 4096, Ev_pwm_apply_args 4096,
         Ev_pwm_get_args 4096 1000, Ev_register 0 0, Ev_scale 0,
         Ev_pwm (Pwm_config 4096 0 1000) 0, Ev_pwm (Pwm_disable 4096) 0,
         Ev_pwm_get (Pwm_get ''led1'') (- EPROBE_DEFER), Ev_unregister 0] = [] \<and>
   held []
        [Ev_pwm_get (Pwm_get ''led0'') 4096, Ev_pwm_apply_args 4096,
         Ev_pwm_get_args 4096 1000, Ev_register 0 0, Ev_scale 0,
         Ev_pwm (Pwm_config 4096 0 1000) 0, Ev_pwm (Pwm_disable 4096) 0,
         Ev_pwm_get (Pwm_get ''led1'') (- EPROBE_DEFER), Ev_unregister 0] = [4096] \<and>
   (\<exists>evs. led_pwm_probe env_deferred scenario_D [] =
            Inr (- EPROBE_DEFER, None,
                 evs @ [Ev_pwm_get (Pwm_get ''led1'') (- EPROBE_DEFER), Ev_unregister 0]) \<and>
          registered evs = [0]) \<and>
   (\<exists>evs. led_pwm_probe env_deferred_of scenario_D_of [] =
            Inr (- EPROBE_DEFER, None,
                 evs @ [Ev_pwm_get (Of_pwm_get (Device_node ''back'' None None None True []))
                          (- EPROBE_DEFER),
                        Ev_unregister 0]) \<and>
          registered evs = [0])"
proof -
  let ?T = "[Ev_pwm_get (Pwm_get ''led0'') 4096, Ev_pwm_apply_args 4096,
         Ev_pwm_get_args 4096 1000, Ev_register 0 0, Ev_scale 0,
         Ev_pwm (Pwm_config 4096 0 1000) 0, Ev_pwm (Pwm_disable 4096) 0,
         Ev_pwm_get (Pwm_get ''led1'') (- EPROBE_DEFER), Ev_unregister 0]"
  have dfr: "list_ex is_deferred (drop (length ([] :: event list)) ?T)" by simp
  have pd: "pd_platdata scenario_D = Some ([three_leds ! 0] @ three_leds ! 1 # [three_leds ! 2])"
    by (simp add: scenario_D_def three_leds_def)
  have ok: "\<forall>l \<in> set [three_leds ! 0].
              \<forall>v. \<not> IS_ERR (e_pwm_get env_deferred v (Pwm_get (lp_name l)))"
    by (simp add: three_leds_def env_deferred_def env_sample_def IS_ERR_def MAX_ERRNO_def)
  have df: "\<forall>v. e_pwm_get env_deferred v (Pwm_get (lp_name (three_leds ! 1))) = - EPROBE_DEFER"
    by (simp add: three_leds_def env_deferred_def env_sample_def)
  have pd2: "pd_platdata scenario_D_of = None" "pd_of_node scenario_D_of = Some two_nodes"
    "dn_children two_nodes =
       [Device_node ''front'' (Some ''led-front'') None (Some 255) False []] @
        Device_node ''back'' None None None True [] # []"
    by (simp_all add: scenario_D_of_def two_nodes_def)
  have ok2: "\<forall>c \<in> set [Device_node ''front'' (Some ''led-front'') None (Some 255) False []].
       \<not> list_ex is_element_node (dn_children c) \<and>
       (\<forall>v. \<not> IS_ERR (e_pwm_get env_deferred_of v (Of_pwm_get c)))"
    by (simp add: env_deferred_of_def env_sample_def IS_ERR_def MAX_ERRNO_def)
  have df2: "\<not> list_ex is_element_node
                 (dn_children (Device_node ''back'' None None None True []))"
    "\<forall>v. e_pwm_get env_deferred_of v
            (Of_pwm_get (Device_node ''back'' None None None True [])) = - EPROBE_DEFER"
    by (simp_all add: env_deferred_of_def env_sample_def)
  from led_pwm_probe_deferred
         [where E = env_deferred and pdev = scenario_D and w = "[]" and ret = "- EPROBE_DEFER"
            and drvdata = None and w' = ?T and before = "[three_leds ! 0]"
            and led = "three_leds ! 1" and rest = "[three_leds ! 2]" and node = two_nodes
            and nodes_before = "[]" and child = two_nodes and nodes_rest = "[]"]
       deferred_run_D dfr cooperative_env_deferred pd ok df
  have 1: "still_registered [] (drop 0 ?T) = []" "held [] (drop 0 ?T) = acquired (drop 0 ?T)"
    "\<exists>evs. led_pwm_probe env_deferred scenario_D [] =
            Inr (- EPROBE_DEFER, None,
                 evs @ [Ev_pwm_get (Pwm_get ''led1'') (- EPROBE_DEFER), Ev_unregister 0]) \<and>
          registered evs = [0]"
    by (simp_all add: three_leds_def)
  from led_pwm_probe_deferred
         [where E = env_deferred_of and pdev = scenario_D_of and w = "[]" and node = two_nodes
            and nodes_before = "[Device_node ''front'' (Some ''led-front'') None (Some 255) False []]"
            and child = "Device_node ''back'' None None None True []" and nodes_rest = "[]"
            and ret = 0 and drvdata = None and w' = "[]" and before = "[]"
            and led = "three_leds ! 0" and rest = "[]"]
       cooperative_env_deferred_of pd2 ok2 df2
  have 2: "\<exists>evs. led_pwm_probe env_deferred_of scenario_D_of [] =
            Inr (- EPROBE_DEFER, None,
                 evs @ [Ev_pwm_get (Of_pwm_get (Device_node ''back'' None None None True []))
                          (- EPROBE_DEFER),
                        Ev_unregister 0]) \<and>
          registered evs = [0]"
    by auto
  have acq: "acquired (drop 0 ?T) = [4096]"
    by (simp add: IS_ERR_def MAX_ERRNO_def EPROBE_DEFER_def)
  from deferred_run_D 1 2 acq show ?thesis by simp
qed

text \<open>
  C8 as the claim has it says more: every LED registered before the deferred request is
  unregistered and its channels released before \<open>led_pwm_probe\<close> returns. The
  unregistration is there; the release is not. In scenario D the probe returns
  \<open>-EPROBE_DEFER\<close> after \<open>led0\<close> was registered and unregistered, and the channel
  \<open>4096\<close> acquired for \<open>led0\<close> is still held at that point: the trace has no release,
  and the source has no call of one (the channels come from \<open>devm_pwm_get\<close> and
  \<open>devm_of_pwm_get\<close>, whose release is not a step of the driver).
\<close>

theorem led_pwm_probe_deferred_counterexample:
  "led_pwm_probe env_deferred scenario_D [] =
     Inr (- 517, None,
        [Ev_pwm_get (Pwm_get ''led0'') 4096, Ev_pwm_apply_args 4096,
         Ev_pwm_get_args 4096 1000, Ev_register 0 0, Ev_scale 0,
         Ev_pwm (Pwm_config 4096 0 1000) 0, Ev_pwm (Pwm_disable 4096) 0,
         Ev_pwm_get (Pwm_get ''led1'') (- 517), Ev_unregister 0]) \<and>
   registered
        [Ev_pwm_get (Pwm_get ''led0'') 4096, Ev_pwm_apply_args 4096,
         Ev_pwm_get_args 4096 1000, Ev_register 0 0, Ev_scale 0,
         Ev_pwm (Pwm_config 4096 0 1000) 0, Ev_pwm (Pwm_disable 4096) 0] = [0] \<and>
   held []
        [Ev_pwm_get (Pwm_get ''led0'') 4096, Ev_pwm_apply_args 4096,
         Ev_pwm_get_args 4096 1000, Ev_register 0 0, Ev_scale 0,
         Ev_pwm (Pwm_config 4096 0 1000) 0, Ev_pwm (Pwm_disable 4096) 0,
         Ev_pwm_get (Pwm_get ''led1'') (- 517), Ev_unregister 0] = [4096]"
  by (simp add: build_defs sample_defs led_pwm_cleanup.simps scenario_D_def)
end
